(* ===== verification/Prelude.thy ===== *)
theory Prelude
  imports Main "HOL-Library.Sublist" "HOL-Library.Char_ord" "HOL-Library.List_Lexorder"
begin

text \<open>
  Shared vocabulary of the development: the transaction monad in which every database
  operation of the program is written, tables as lists of rows with the \<open>UPDATE ... WHERE\<close>
  and \<open>SELECT ... WHERE\<close> operations the repositories use, and the fixed-width integer
  ranges of Rust. The collections declared here carry the component proofs:
  \<open>tx_simps\<close> unfolds successful runs of the monad, \<open>row_simps\<close> pushes queries
  through table updates, \<open>inv_intros\<close> collects the preservation lemmas of the invariants.
\<close>

named_theorems tx_simps "unfolding successful runs of transactions"
named_theorems row_simps "queries on updated tables"
named_theorems inv_intros "preservation of invariants"

section \<open>Transactions\<close>

text \<open>
  A transaction body takes the database state and returns either an error, and then the
  database transaction is dropped, that is rolled back, so no state is returned, or a result
  with the new state. This is the shape of every \<open>async fn f(tx: &mut Tx, ...) -> Result<T>\<close>
  of the program; \<open>tx_bind\<close> is the \<open>?\<close> operator.
\<close>

type_synonym ('s, 'e, 'a) tx = "'s \<Rightarrow> 'e + ('a \<times> 's)"

definition tx_return :: "'a \<Rightarrow> ('s, 'e, 'a) tx" where
  "tx_return a = (\<lambda>s. Inr (a, s))"

definition tx_fail :: "'e \<Rightarrow> ('s, 'e, 'a) tx" where
  "tx_fail e = (\<lambda>s. Inl e)"

definition tx_lift :: "'e + 'a \<Rightarrow> ('s, 'e, 'a) tx" where
  "tx_lift r = (\<lambda>s. case r of Inl e \<Rightarrow> Inl e | Inr a \<Rightarrow> Inr (a, s))"

definition tx_read :: "('s \<Rightarrow> 'a) \<Rightarrow> ('s, 'e, 'a) tx" where
  "tx_read f = (\<lambda>s. Inr (f s, s))"

definition tx_write :: "('s \<Rightarrow> 's) \<Rightarrow> ('s, 'e, unit) tx" where
  "tx_write f = (\<lambda>s. Inr ((), f s))"

definition tx_bind :: "('s, 'e, 'a) tx \<Rightarrow> ('a \<Rightarrow> ('s, 'e, 'b) tx) \<Rightarrow> ('s, 'e, 'b) tx" where
  "tx_bind m f = (\<lambda>s. case m s of Inl e \<Rightarrow> Inl e | Inr (a, s') \<Rightarrow> f a s')"

definition tx_then :: "('s, 'e, 'a) tx \<Rightarrow> ('s, 'e, 'b) tx \<Rightarrow> ('s, 'e, 'b) tx" where
  "tx_then m k = tx_bind m (\<lambda>_. k)"

fun tx_for :: "'a list \<Rightarrow> ('a \<Rightarrow> ('s, 'e, unit) tx) \<Rightarrow> ('s, 'e, unit) tx" where
  "tx_for [] f = tx_return ()"
| "tx_for (x # xs) f = tx_then (f x) (tx_for xs f)"

fun tx_fold :: "('a \<Rightarrow> 'b \<Rightarrow> ('s, 'e, 'b) tx) \<Rightarrow> 'a list \<Rightarrow> 'b \<Rightarrow> ('s, 'e, 'b) tx" where
  "tx_fold f [] b = tx_return b"
| "tx_fold f (x # xs) b = tx_bind (f x b) (tx_fold f xs)"

lemma tx_return_Inr [tx_simps]: "tx_return a s = Inr r \<longleftrightarrow> r = (a, s)"
  by (auto simp: tx_return_def)

lemma tx_return_app: "tx_return a s = Inr (a, s)"
  by (simp add: tx_return_def)

lemma tx_fail_Inr [tx_simps]: "tx_fail e s = Inr r \<longleftrightarrow> False"
  by (simp add: tx_fail_def)

lemma tx_fail_app: "tx_fail e s = Inl e"
  by (simp add: tx_fail_def)

lemma tx_lift_Inr [tx_simps]: "tx_lift x s = Inr r \<longleftrightarrow> x = Inr (fst r) \<and> snd r = s"
  by (cases r) (auto simp: tx_lift_def split: sum.splits)

lemma tx_read_Inr [tx_simps]: "tx_read f s = Inr r \<longleftrightarrow> r = (f s, s)"
  by (auto simp: tx_read_def)

lemma tx_write_Inr [tx_simps]: "tx_write f s = Inr r \<longleftrightarrow> r = ((), f s)"
  by (auto simp: tx_write_def)

lemma tx_bind_Inr [tx_simps]:
  "tx_bind m f s = Inr r \<longleftrightarrow> (\<exists>a s'. m s = Inr (a, s') \<and> f a s' = Inr r)"
  by (auto simp: tx_bind_def split: sum.splits prod.splits)

lemma tx_then_Inr [tx_simps]:
  "tx_then m k s = Inr r \<longleftrightarrow> (\<exists>a s'. m s = Inr (a, s') \<and> k s' = Inr r)"
  by (simp add: tx_then_def tx_bind_Inr)

lemma tx_bind_Inr_app: "m s = Inr (a, s') \<Longrightarrow> tx_bind m f s = f a s'"
  by (simp add: tx_bind_def)

lemma tx_bind_Inl_app: "m s = Inl e \<Longrightarrow> tx_bind m f s = Inl e"
  by (simp add: tx_bind_def)

lemma tx_then_Inr_app: "m s = Inr (a, s') \<Longrightarrow> tx_then m k s = k s'"
  by (simp add: tx_then_def tx_bind_def)

lemma tx_then_Inl_app: "m s = Inl e \<Longrightarrow> tx_then m k s = Inl e"
  by (simp add: tx_then_def tx_bind_def)

lemmas tx_eval = tx_return_def tx_fail_def tx_lift_def tx_read_def tx_write_def tx_bind_def
  tx_then_def

text \<open>Evaluation of a run on a concrete state: that it succeeds, and the state it leaves.\<close>

definition succeeds :: "'e + 'a \<Rightarrow> bool" where
  "succeeds r = (case r of Inl e \<Rightarrow> False | Inr a \<Rightarrow> True)"

definition final :: "'e + ('a \<times> 's) \<Rightarrow> 's" where
  "final r = snd (projr r)"

lemma succeeds_Inr: "succeeds r \<longleftrightarrow> (\<exists>a. r = Inr a)"
  by (cases r) (simp_all add: succeeds_def)

lemma succeeds_final: "succeeds r \<Longrightarrow> \<exists>a. r = Inr (a, final r)"
  by (auto simp: succeeds_Inr final_def)

text \<open>A property every iteration keeps is kept by the loop.\<close>

lemma tx_for_inv:
  assumes "tx_for xs f s = Inr r" and "P s"
    and "\<And>x s s' u. x \<in> set xs \<Longrightarrow> f x s = Inr (u, s') \<Longrightarrow> P s \<Longrightarrow> P s'"
  shows "P (snd r)"
  using assms
proof (induction xs arbitrary: s)
  case Nil
  then show ?case by (simp add: tx_simps)
next
  case (Cons x xs)
  from Cons.prems(1) obtain u s1 where 1: "f x s = Inr (u, s1)" and 2: "tx_for xs f s1 = Inr r"
    by (auto simp: tx_simps)
  have "P s1" using Cons.prems(2,3) 1 by (meson list.set_intros(1))
  with 2 show ?case using Cons.IH Cons.prems(3) by (meson list.set_intros(2))
qed

lemma tx_fold_inv:
  assumes "tx_fold f xs b s = Inr (b', s')" and "P s"
    and "\<And>x b s b' s'. x \<in> set xs \<Longrightarrow> f x b s = Inr (b', s') \<Longrightarrow> P s \<Longrightarrow> P s'"
  shows "P s'"
  using assms
proof (induction xs arbitrary: s b)
  case Nil
  then show ?case by (simp add: tx_simps)
next
  case (Cons x xs)
  from Cons.prems(1) obtain b1 s1
    where 1: "f x b s = Inr (b1, s1)" and 2: "tx_fold f xs b1 s1 = Inr (b', s')"
    by (auto simp: tx_simps)
  have "P s1" using Cons.prems(2,3) 1 by (meson list.set_intros(1))
  with 2 show ?case using Cons.IH Cons.prems(3) by (meson list.set_intros(2))
qed

section \<open>Tables\<close>

text \<open>
  A table is a list of rows in insertion order; \<open>find\<close> is \<open>SELECT ... fetch_optional\<close>,
  \<open>upd_where\<close> is \<open>UPDATE ... SET ... WHERE\<close>, \<open>rows_affected\<close> its row count.
\<close>

definition upd_where :: "('r \<Rightarrow> bool) \<Rightarrow> ('r \<Rightarrow> 'r) \<Rightarrow> 'r list \<Rightarrow> 'r list" where
  "upd_where P f rows = map (\<lambda>r. if P r then f r else r) rows"

definition rows_affected :: "('r \<Rightarrow> bool) \<Rightarrow> 'r list \<Rightarrow> nat" where
  "rows_affected P rows = length (filter P rows)"

text \<open>A primary or unique key: at most one row per key.\<close>

definition unique_key :: "('r \<Rightarrow> 'k) \<Rightarrow> 'r list \<Rightarrow> bool" where
  "unique_key k rows = distinct (map k rows)"

lemma upd_where_Nil [simp]: "upd_where P f [] = []"
  by (simp add: upd_where_def)

lemma upd_where_Cons [simp]:
  "upd_where P f (r # rs) = (if P r then f r else r) # upd_where P f rs"
  by (simp add: upd_where_def)

lemma length_upd_where [simp]: "length (upd_where P f rows) = length rows"
  by (simp add: upd_where_def)

lemma upd_where_append: "upd_where P f (xs @ ys) = upd_where P f xs @ upd_where P f ys"
  by (simp add: upd_where_def)

lemma upd_where_none: "(\<And>r. r \<in> set rows \<Longrightarrow> \<not> P r) \<Longrightarrow> upd_where P f rows = rows"
  by (induction rows) auto

lemma map_upd_where [row_simps]:
  "(\<And>r. P r \<Longrightarrow> g (f r) = g r) \<Longrightarrow> map g (upd_where P f rows) = map g rows"
  by (auto simp: upd_where_def)

lemma set_upd_where: "set (upd_where P f rows) = (\<lambda>r. if P r then f r else r) ` set rows"
  by (simp add: upd_where_def)

lemma image_upd_where [row_simps]:
  "(\<And>r. P r \<Longrightarrow> g (f r) = g r) \<Longrightarrow> g ` set (upd_where P f rows) = g ` set rows"
  by (metis map_upd_where set_map)

lemma unique_key_upd_where [row_simps]:
  "(\<And>r. P r \<Longrightarrow> k (f r) = k r) \<Longrightarrow> unique_key k (upd_where P f rows) = unique_key k rows"
  by (simp add: unique_key_def map_upd_where)

lemma unique_key_append:
  "unique_key k (rows @ [r]) \<longleftrightarrow> unique_key k rows \<and> k r \<notin> k ` set rows"
  by (auto simp: unique_key_def)

lemma unique_key_Nil [simp]: "unique_key k []"
  by (simp add: unique_key_def)

lemma unique_key_Cons [simp]:
  "unique_key k (r # rows) \<longleftrightarrow> (\<forall>x\<in>set rows. k x \<noteq> k r) \<and> unique_key k rows"
  by (simp add: unique_key_def) (metis imageE imageI)

lemma unique_keyD:
  "unique_key k rows \<Longrightarrow> a \<in> set rows \<Longrightarrow> b \<in> set rows \<Longrightarrow> k a = k b \<Longrightarrow> a = b"
  by (auto simp: unique_key_def distinct_map inj_on_def)

lemma find_key_Some:
  "unique_key k rows \<Longrightarrow> find (\<lambda>r. k r = x) rows = Some r \<longleftrightarrow> r \<in> set rows \<and> k r = x"
  by (induction rows) auto

lemma find_upd_where:
  "(\<And>r. P r \<Longrightarrow> Q (f r) = Q r) \<Longrightarrow>
   find Q (upd_where P f rows) =
     map_option (\<lambda>r. if P r then f r else r) (find Q rows)"
  by (induction rows) auto

lemma find_append: "find P (xs @ ys) = (case find P xs of Some r \<Rightarrow> Some r | None \<Rightarrow> find P ys)"
  by (induction xs) auto

lemma find_Some_setD: "find P xs = Some x \<Longrightarrow> x \<in> set xs \<and> P x"
  by (induction xs) (auto split: if_splits)

lemma find_None_set: "find P xs = None \<longleftrightarrow> (\<forall>x\<in>set xs. \<not> P x)"
  by (induction xs) auto

lemma rows_affected_key:
  assumes "unique_key k rows"
  shows "rows_affected (\<lambda>r. k r = x \<and> P r) rows =
     (case find (\<lambda>r. k r = x) rows of Some r \<Rightarrow> (if P r then 1 else 0) | None \<Rightarrow> 0)"
  using assms
proof (induction rows)
  case Nil
  then show ?case by (simp add: rows_affected_def)
next
  case (Cons r rows)
  show ?case
  proof (cases "k r = x")
    case True
    with Cons.prems have "filter (\<lambda>r. k r = x \<and> P r) rows = []"
      by (auto simp: filter_empty_conv)
    with True show ?thesis by (simp add: rows_affected_def)
  next
    case False
    with Cons show ?thesis by (simp add: rows_affected_def)
  qed
qed

text \<open>An update of one keyed row changes a sum over the table by the difference at that row.\<close>

lemma sum_list_upd_key:
  fixes g :: "'r \<Rightarrow> int"
  assumes "unique_key k rows" and "a \<in> set rows"
  shows "sum_list (map g (upd_where (\<lambda>r. k r = k a) f rows)) =
         sum_list (map g rows) + (g (f a) - g a)"
  using assms
proof (induction rows)
  case Nil
  then show ?case by simp
next
  case (Cons r rows)
  show ?case
  proof (cases "k r = k a")
    case True
    from Cons.prems True have "r = a" by auto
    moreover from Cons.prems True have "upd_where (\<lambda>r. k r = k a) f rows = rows"
      by (intro upd_where_none) auto
    ultimately show ?thesis by simp
  next
    case False
    then show ?thesis using Cons by auto
  qed
qed

section \<open>Fixed-width integers\<close>

text \<open>
  Rust's \<open>i128\<close>, \<open>i64\<close>, \<open>u64\<close> and \<open>u32\<close> as integers with their range written out:
  the checked operations return \<open>None\<close> out of range, the saturating ones clamp.
\<close>

abbreviation i128_min :: int where "i128_min \<equiv> - (2 ^ 127)"
abbreviation i128_max :: int where "i128_max \<equiv> 2 ^ 127 - 1"
abbreviation u64_max :: nat where "u64_max \<equiv> 2 ^ 64 - 1"
abbreviation u32_max :: nat where "u32_max \<equiv> 2 ^ 32 - 1"

definition in_i128 :: "int \<Rightarrow> bool" where
  "in_i128 x \<longleftrightarrow> i128_min \<le> x \<and> x \<le> i128_max"

definition checked_i128 :: "int \<Rightarrow> int option" where
  "checked_i128 x = (if in_i128 x then Some x else None)"

definition sat_add_u64 :: "nat \<Rightarrow> nat \<Rightarrow> nat" where
  "sat_add_u64 a b = min (a + b) u64_max"

definition sat_mul_u64 :: "nat \<Rightarrow> nat \<Rightarrow> nat" where
  "sat_mul_u64 a b = min (a * b) u64_max"

text \<open>For evaluation the bound is compared as a binary integer.\<close>

lemma sat_add_u64_code [code]: "sat_add_u64 a b = nat (min (int a + int b) 18446744073709551615)"
  by (auto simp: sat_add_u64_def min_def)

lemma checked_i128_Some: "checked_i128 x = Some y \<longleftrightarrow> in_i128 x \<and> y = x"
  by (auto simp: checked_i128_def)

lemma in_i128_between: "in_i128 a \<Longrightarrow> in_i128 b \<Longrightarrow> a \<le> x \<Longrightarrow> x \<le> b \<Longrightarrow> in_i128 x"
  by (auto simp: in_i128_def)

lemma in_i128_0 [simp]: "in_i128 0"
  by (simp add: in_i128_def)

end
