(* ===== verification/Text.thy ===== *)
theory Text
  imports Prelude
begin

text \<open>
  The part of Rust's string library the program uses, on ASCII text: \<open>str::trim\<close>,
  \<open>strip_prefix\<close>, \<open>trim_start_matches\<close>, \<open>to_ascii_lowercase\<close>, \<open>split_once\<close>, the
  \<open>Display\<close> of integers and \<open>i128::from_str_radix\<close>. The lemmas give the round trip between
  printing and parsing an integer on which the codecs of the program rest, and a locale
  for the textual codecs of the program's enumerations.
\<close>

section \<open>Character classes and trimming\<close>

definition is_ws :: "char \<Rightarrow> bool" where
  "is_ws c \<longleftrightarrow> (let n = of_char c :: nat in n = 32 \<or> (9 \<le> n \<and> n \<le> 13))"

definition is_digit :: "char \<Rightarrow> bool" where
  "is_digit c \<longleftrightarrow> (let n = of_char c :: nat in 48 \<le> n \<and> n \<le> 57)"

definition is_lower :: "char \<Rightarrow> bool" where
  "is_lower c \<longleftrightarrow> (let n = of_char c :: nat in 97 \<le> n \<and> n \<le> 122)"

definition is_upper :: "char \<Rightarrow> bool" where
  "is_upper c \<longleftrightarrow> (let n = of_char c :: nat in 65 \<le> n \<and> n \<le> 90)"

definition is_hexdigit :: "char \<Rightarrow> bool" where
  "is_hexdigit c \<longleftrightarrow> (let n = of_char c :: nat in
     is_digit c \<or> (97 \<le> n \<and> n \<le> 102) \<or> (65 \<le> n \<and> n \<le> 70))"

definition lower_char :: "char \<Rightarrow> char" where
  "lower_char c = (if is_upper c then char_of (of_char c + 32 :: nat) else c)"

definition to_ascii_lowercase :: "string \<Rightarrow> string" where
  "to_ascii_lowercase s = map lower_char s"

definition trim :: "string \<Rightarrow> string" where
  "trim s = rev (dropWhile is_ws (rev (dropWhile is_ws s)))"

definition starts_with :: "string \<Rightarrow> string \<Rightarrow> bool" where
  "starts_with p s \<longleftrightarrow> take (length p) s = p"

definition strip_prefix :: "string \<Rightarrow> string \<Rightarrow> string option" where
  "strip_prefix p s = (if starts_with p s then Some (drop (length p) s) else None)"

text \<open>\<open>trim_start_matches\<close> with a two-character pattern strips it as often as it occurs.\<close>

fun trim_start_matches2 :: "char \<Rightarrow> char \<Rightarrow> string \<Rightarrow> string" where
  "trim_start_matches2 a b (x # y # s) =
     (if x = a \<and> y = b then trim_start_matches2 a b s else x # y # s)"
| "trim_start_matches2 a b s = s"

text \<open>\<open>trim_end_matches\<close> with a character.\<close>

definition trim_end_matches :: "char \<Rightarrow> string \<Rightarrow> string" where
  "trim_end_matches c s = rev (dropWhile (\<lambda>x. x = c) (rev s))"

fun contains :: "string \<Rightarrow> string \<Rightarrow> bool" where
  "contains p [] = (p = [])"
| "contains p (c # s) = (starts_with p (c # s) \<or> contains p s)"

fun split_once :: "string \<Rightarrow> string \<Rightarrow> (string \<times> string) option" where
  "split_once p [] = (if p = [] then Some ([], []) else None)"
| "split_once p (c # s) =
     (if starts_with p (c # s) then Some ([], drop (length p) (c # s))
      else map_option (\<lambda>(a, b). (c # a, b)) (split_once p s))"

lemma dropWhile_hd_id: "xs = [] \<or> \<not> P (hd xs) \<Longrightarrow> dropWhile P xs = xs"
  by (cases xs) auto

lemma trim_id: "s = [] \<or> (\<not> is_ws (hd s) \<and> \<not> is_ws (last s)) \<Longrightarrow> trim s = s"
  by (auto simp: trim_def dropWhile_hd_id hd_rev)

lemma length_to_ascii_lowercase [simp]: "length (to_ascii_lowercase s) = length s"
  by (simp add: to_ascii_lowercase_def)

lemma lower_char_not_upper [simp]: "\<not> is_upper (lower_char c)"
  by (auto simp: lower_char_def is_upper_def Let_def)

lemma lower_char_id: "\<not> is_upper c \<Longrightarrow> lower_char c = c"
  by (simp add: lower_char_def)

lemma to_ascii_lowercase_idem [simp]:
  "to_ascii_lowercase (to_ascii_lowercase s) = to_ascii_lowercase s"
  by (simp add: to_ascii_lowercase_def lower_char_id)

section \<open>Printing and parsing integers\<close>

definition digit_char :: "nat \<Rightarrow> char" where
  "digit_char d = char_of (48 + d)"

fun show_nat :: "nat \<Rightarrow> string" where
  "show_nat n = (if n < 10 then [digit_char n] else show_nat (n div 10) @ [digit_char (n mod 10)])"

declare show_nat.simps [simp del]

definition show_int :: "int \<Rightarrow> string" where
  "show_int i = (if i < 0 then ''-'' @ show_nat (nat (- i)) else show_nat (nat i))"

text \<open>\<open>char::to_digit\<close>: digits, then letters of either case, below the radix.\<close>

definition to_digit :: "nat \<Rightarrow> char \<Rightarrow> nat option" where
  "to_digit radix c = (let n = of_char c :: nat;
       d = (if 48 \<le> n \<and> n \<le> 57 then n - 48
            else if 97 \<le> n \<and> n \<le> 122 then n - 87
            else if 65 \<le> n \<and> n \<le> 90 then n - 55 else radix)
     in if d < radix then Some d else None)"

fun digits_val :: "nat \<Rightarrow> nat \<Rightarrow> string \<Rightarrow> nat option" where
  "digits_val radix acc [] = Some acc"
| "digits_val radix acc (c # cs) =
     (case to_digit radix c of None \<Rightarrow> None | Some d \<Rightarrow> digits_val radix (acc * radix + d) cs)"

text \<open>
  \<open>i128::from_str_radix\<close>: an optional sign, at least one digit, and a value in range. The
  empty string and a lone sign are errors.
\<close>

definition parse_i128 :: "nat \<Rightarrow> string \<Rightarrow> int option" where
  "parse_i128 radix s =
     (case s of
        [] \<Rightarrow> None
      | c # cs \<Rightarrow>
          (let (neg, ds) = (if c = CHR ''-'' then (True, cs)
                            else if c = CHR ''+'' then (False, cs) else (False, s))
           in if ds = [] then None
              else case digits_val radix 0 ds of
                     None \<Rightarrow> None
                   | Some v \<Rightarrow> checked_i128 (if neg then - int v else int v)))"

lemma to_digit_digit_char: "d < 10 \<Longrightarrow> to_digit 10 (digit_char d) = Some d"
  by (simp add: to_digit_def digit_char_def Let_def)

lemma digits_val_append:
  "digits_val r acc (xs @ ys) =
     (case digits_val r acc xs of None \<Rightarrow> None | Some v \<Rightarrow> digits_val r v ys)"
  by (induction xs arbitrary: acc) (auto split: option.splits)

lemma digits_val_show_nat: "digits_val 10 0 (show_nat n) = Some n"
proof (induction n rule: show_nat.induct)
  case (1 n)
  show ?case
  proof (cases "n < 10")
    case True
    then show ?thesis by (simp add: show_nat.simps [of n] to_digit_digit_char)
  next
    case False
    with 1 have "digits_val 10 0 (show_nat (n div 10)) = Some (n div 10)" by simp
    moreover have "n mod 10 < 10" by simp
    ultimately show ?thesis using False
      by (simp add: show_nat.simps [of n] digits_val_append to_digit_digit_char)
  qed
qed

lemma show_nat_nonempty [simp]: "show_nat n \<noteq> []"
  by (subst show_nat.simps) simp

lemma show_nat_digits: "c \<in> set (show_nat n) \<Longrightarrow> is_digit c"
proof (induction n rule: show_nat.induct)
  case (1 n)
  have "is_digit (digit_char d)" if "d < 10" for d
    using that by (simp add: is_digit_def digit_char_def Let_def)
  with 1 show ?case
    by (cases "n < 10") (auto simp: show_nat.simps [of n])
qed

lemma digit_not_sign: "is_digit c \<Longrightarrow> c \<noteq> CHR ''-'' \<and> c \<noteq> CHR ''+'' \<and> \<not> is_ws c"
  by (auto simp: is_digit_def is_ws_def Let_def)

lemma show_nat_hd: "is_digit (hd (show_nat n))"
  by (rule show_nat_digits [of _ n]) simp

lemma show_nat_last: "is_digit (last (show_nat n))"
  by (rule show_nat_digits [of _ n]) simp

lemma parse_i128_show_nat:
  "parse_i128 10 (show_nat n) = checked_i128 (int n)"
proof -
  obtain c cs where s: "show_nat n = c # cs" by (cases "show_nat n") auto
  then have "is_digit c" using show_nat_hd [of n] by simp
  then have "c \<noteq> CHR ''-''" "c \<noteq> CHR ''+''" using digit_not_sign by auto
  moreover have "digits_val 10 0 (c # cs) = Some n"
    using digits_val_show_nat [of n] s by simp
  ultimately show ?thesis by (simp add: parse_i128_def s del: digits_val.simps)
qed

lemma parse_i128_show_int: "in_i128 i \<Longrightarrow> parse_i128 10 (show_int i) = Some i"
proof (cases "i < 0")
  case True
  moreover assume "in_i128 i"
  moreover have "digits_val 10 0 (show_nat (nat (- i))) = Some (nat (- i))"
    by (rule digits_val_show_nat)
  ultimately show ?thesis by (simp add: show_int_def parse_i128_def checked_i128_def)
next
  case False
  moreover assume "in_i128 i"
  ultimately show ?thesis by (simp add: show_int_def parse_i128_show_nat checked_i128_def)
qed

lemma trim_show_int [simp]: "trim (show_int i) = show_int i"
proof (rule trim_id, rule disjI2, rule conjI)
  show "\<not> is_ws (hd (show_int i))"
    using show_nat_hd digit_not_sign by (auto simp: show_int_def is_ws_def Let_def)
  show "\<not> is_ws (last (show_int i))"
    using show_nat_last digit_not_sign by (auto simp: show_int_def)
qed

lemma parse_i128_range: "parse_i128 r s = Some i \<Longrightarrow> in_i128 i"
  by (auto simp: parse_i128_def checked_i128_Some Let_def split: list.splits option.splits
      if_splits)

section \<open>Codecs of enumerations\<close>

text \<open>
  Every enumeration the program stores as text has an \<open>as_str\<close> and a \<open>FromStr\<close>. The two
  laws below are what the repositories rely on when they compare the text column with
  \<open>as_str\<close> of a constant and parse it back: printing is injective, parsing accepts exactly
  the printed forms, so a column holding only printed forms can be read as the enumeration.
\<close>

locale text_codec =
  fixes as_str :: "'a \<Rightarrow> string" and from_str :: "string \<Rightarrow> 'e + 'a"
  assumes decode_encode: "from_str (as_str x) = Inr x"
    and encode_decode: "from_str s = Inr x \<Longrightarrow> as_str x = s"
begin

lemma as_str_inject: "as_str x = as_str y \<longleftrightarrow> x = y"
  by (metis decode_encode sum.inject(2))

lemma parses_iff: "(\<exists>x. from_str s = Inr x) \<longleftrightarrow> s \<in> range as_str"
  using decode_encode encode_decode by blast

lemma column_eq_iff: "from_str s = Inr x \<Longrightarrow> s = as_str y \<longleftrightarrow> x = y"
  using as_str_inject encode_decode by blast

end

end
