(* ===== verification/Errors.thy ===== *)
theory Errors
  imports Text
begin

text \<open>
  The shared error type of the program (\<open>crates/common/src/error.rs\<close>): the variants, the
  stable code every variant has, and the classifications the retry and HTTP layers use.
  \<open>res\<close> is the program's \<open>Result\<close>, \<open>db_tx\<close> the type of a function that runs inside a
  database transaction.
\<close>

datatype error =
    AmountOverflow
  | InvalidAmount string
  | AmountExceedsRepresentableRange string
  | Validation string
  | UnsupportedChain string
  | UnsupportedAsset string
  | InvalidAddress string string
  | NotFound string
  | Conflict string
  | InsufficientBalance string string
  | InvalidStateTransition string string string
  | UnbalancedLedgerTransaction string
  | PolicyDenied string string
  | IdempotencyKeyConflict
  | Database string
  | Cache string
  | EventBus string
  | Rpc string
  | NoHealthyRpcEndpoint string
  | Signer string
  | Config string
  | Timeout nat
  | Unavailable string
  | RateLimited
  | Internal string

type_synonym 'a res = "error + 'a"
type_synonym ('s, 'a) db_tx = "('s, error, 'a) tx"

fun error_code :: "error \<Rightarrow> string" where
  "error_code AmountOverflow = ''amount_overflow''"
| "error_code (InvalidAmount _) = ''invalid_amount''"
| "error_code (AmountExceedsRepresentableRange _) = ''amount_out_of_range''"
| "error_code (Validation _) = ''validation_error''"
| "error_code (UnsupportedChain _) = ''unsupported_chain''"
| "error_code (UnsupportedAsset _) = ''unsupported_asset''"
| "error_code (InvalidAddress _ _) = ''invalid_address''"
| "error_code (NotFound _) = ''not_found''"
| "error_code (Conflict _) = ''conflict''"
| "error_code (InsufficientBalance _ _) = ''insufficient_balance''"
| "error_code (InvalidStateTransition _ _ _) = ''invalid_state_transition''"
| "error_code (UnbalancedLedgerTransaction _) = ''unbalanced_ledger_transaction''"
| "error_code (PolicyDenied _ _) = ''policy_denied''"
| "error_code IdempotencyKeyConflict = ''idempotency_key_conflict''"
| "error_code (Database _) = ''database_error''"
| "error_code (Cache _) = ''cache_error''"
| "error_code (EventBus _) = ''event_bus_error''"
| "error_code (Rpc _) = ''rpc_error''"
| "error_code (NoHealthyRpcEndpoint _) = ''no_healthy_rpc_endpoint''"
| "error_code (Signer _) = ''signer_error''"
| "error_code (Config _) = ''config_error''"
| "error_code (Timeout _) = ''timeout''"
| "error_code (Unavailable _) = ''service_unavailable''"
| "error_code RateLimited = ''rate_limited''"
| "error_code (Internal _) = ''internal_error''"

fun error_display :: "error \<Rightarrow> string" where
  "error_display AmountOverflow = ''arithmetic overflow on monetary amount''"
| "error_display (InvalidAmount m) = ''invalid amount: '' @ m"
| "error_display (AmountExceedsRepresentableRange m) = ''amount exceeds representable range: '' @ m"
| "error_display (Validation m) = ''validation failed: '' @ m"
| "error_display (UnsupportedChain m) = ''unsupported chain: '' @ m"
| "error_display (UnsupportedAsset m) = ''unsupported asset: '' @ m"
| "error_display (InvalidAddress c r) = ''invalid address for '' @ c @ '': '' @ r"
| "error_display (NotFound entity) = entity @ '' not found''"
| "error_display (Conflict m) = ''conflict: '' @ m"
| "error_display (InsufficientBalance a r) =
     ''insufficient balance: available '' @ a @ '', requested '' @ r"
| "error_display (InvalidStateTransition entity a b) =
     ''invalid state transition: '' @ entity @ '' cannot go '' @ a @ '' -> '' @ b"
| "error_display (UnbalancedLedgerTransaction n) =
     ''ledger transaction does not balance: net '' @ n"
| "error_display (PolicyDenied code m) = ''policy denied: '' @ code @ '': '' @ m"
| "error_display IdempotencyKeyConflict =
     ''idempotency key reused with a different request payload''"
| "error_display (Database m) = ''database error: '' @ m"
| "error_display (Cache m) = ''cache error: '' @ m"
| "error_display (EventBus m) = ''event bus error: '' @ m"
| "error_display (Rpc m) = ''rpc error: '' @ m"
| "error_display (NoHealthyRpcEndpoint c) = ''all rpc endpoints unhealthy for chain '' @ c"
| "error_display (Signer m) = ''signer error: '' @ m"
| "error_display (Config m) = ''configuration error: '' @ m"
| "error_display (Timeout ms) = ''operation timed out after '' @ show_nat ms @ ''ms''"
| "error_display (Unavailable m) = ''service unavailable: '' @ m"
| "error_display RateLimited = ''rate limited''"
| "error_display (Internal m) = ''internal error: '' @ m"

fun is_retryable :: "error \<Rightarrow> bool" where
  "is_retryable (Database _) = True"
| "is_retryable (Cache _) = True"
| "is_retryable (EventBus _) = True"
| "is_retryable (Rpc _) = True"
| "is_retryable (NoHealthyRpcEndpoint _) = True"
| "is_retryable (Timeout _) = True"
| "is_retryable (Unavailable _) = True"
| "is_retryable RateLimited = True"
| "is_retryable _ = False"

fun is_client_error :: "error \<Rightarrow> bool" where
  "is_client_error (InvalidAmount _) = True"
| "is_client_error (AmountExceedsRepresentableRange _) = True"
| "is_client_error (Validation _) = True"
| "is_client_error (UnsupportedChain _) = True"
| "is_client_error (UnsupportedAsset _) = True"
| "is_client_error (InvalidAddress _ _) = True"
| "is_client_error (NotFound _) = True"
| "is_client_error (Conflict _) = True"
| "is_client_error (InsufficientBalance _ _) = True"
| "is_client_error (InvalidStateTransition _ _ _) = True"
| "is_client_error (PolicyDenied _ _) = True"
| "is_client_error IdempotencyKeyConflict = True"
| "is_client_error RateLimited = True"
| "is_client_error _ = False"

text \<open>Rate limiting is the one condition that is both the client's and worth retrying.\<close>

lemma retryable_client_error: "is_retryable e \<and> is_client_error e \<longleftrightarrow> e = RateLimited"
  by (cases e) simp_all

text \<open>The code determines both classifications, so a client can act on the code alone.\<close>

lemma error_code_classifies:
  "error_code e = error_code f \<Longrightarrow>
   is_retryable e = is_retryable f \<and> is_client_error e = is_client_error f"
  by (cases e; cases f) simp_all

end
