(* ===== verification/Money.thy ===== *)
theory Money
  imports Errors
begin

text \<open>
  Monetary primitives (\<open>crates/common/src/money.rs\<close>). An \<open>Amount\<close> is an \<open>i128\<close> count of an
  asset's smallest unit; here it is an integer whose range is checked wherever the source
  checks it. The lemmas show that the checked operations never leave the range, that the
  textual forms read back, and that the decimal rendering has the value of the amount.
\<close>

type_synonym amount = int

definition is_positive :: "amount \<Rightarrow> bool" where
  "is_positive a \<longleftrightarrow> 0 < a"

definition ok_or :: "error \<Rightarrow> 'a option \<Rightarrow> 'a res" where
  "ok_or e x = (case x of None \<Rightarrow> Inl e | Some a \<Rightarrow> Inr a)"

definition checked_add :: "amount \<Rightarrow> amount \<Rightarrow> amount res" where
  "checked_add a b = ok_or AmountOverflow (checked_i128 (a + b))"

definition checked_sub :: "amount \<Rightarrow> amount \<Rightarrow> amount res" where
  "checked_sub a b = ok_or AmountOverflow (checked_i128 (a - b))"

definition checked_mul_u32 :: "amount \<Rightarrow> nat \<Rightarrow> amount res" where
  "checked_mul_u32 a n = ok_or AmountOverflow (checked_i128 (a * int n))"

definition from_u256_decimal_str :: "string \<Rightarrow> amount res" where
  "from_u256_decimal_str input =
     (let s = trim input in
      if s = [] then Inl (InvalidAmount ''empty'')
      else if starts_with ''-'' s then Inl (InvalidAmount ''chain amounts must be unsigned'')
      else ok_or (AmountExceedsRepresentableRange s) (parse_i128 10 s))"

definition from_hex_quantity :: "string \<Rightarrow> amount res" where
  "from_hex_quantity s =
     (let stripped = trim_start_matches2 CHR ''0'' CHR ''X''
                       (trim_start_matches2 CHR ''0'' CHR ''x'' (trim s))
      in if stripped = [] then Inr 0
         else if 31 < length stripped \<and> 31 < length (dropWhile (\<lambda>c. c = CHR ''0'') stripped)
              then Inl (AmountExceedsRepresentableRange s)
         else ok_or (AmountExceedsRepresentableRange s) (parse_i128 16 stripped))"

text \<open>
  A \<open>NUMERIC\<close> value is \<open>m * 10 ^ e\<close> for integers \<open>m\<close> and \<open>e\<close>; the storage column has
  scale 0, and decoding rejects a fractional value and one outside \<open>i128\<close>.
\<close>

definition from_bigdecimal :: "int \<Rightarrow> nat \<Rightarrow> amount res" where
  "from_bigdecimal m scale =
     (if m mod 10 ^ scale \<noteq> 0 then Inl (InvalidAmount ''non-integer amount from storage'')
      else ok_or (AmountExceedsRepresentableRange (show_int (m div 10 ^ scale)))
             (checked_i128 (m div 10 ^ scale)))"

definition display_amount :: "amount \<Rightarrow> string" where
  "display_amount a = show_int a"

definition amount_from_str :: "string \<Rightarrow> amount res" where
  "amount_from_str s = ok_or (InvalidAmount s) (parse_i128 10 (trim s))"

definition format_units :: "amount \<Rightarrow> nat \<Rightarrow> string" where
  "format_units a decimals =
     (let negative = a < 0;
          s = show_nat (nat \<bar>a\<bar>);
          d = decimals;
          body = (if d = 0 then s
                  else if d < length s
                       then take (length s - d) s @ ''.'' @ drop (length s - d) s
                  else ''0.'' @ replicate (d - length s) CHR ''0'' @ s);
          body = (if 0 < d
                  then (let trimmed = trim_end_matches CHR ''.'' (trim_end_matches CHR ''0'' body)
                        in if trimmed = [] then ''0'' else trimmed)
                  else body)
      in if negative then ''-'' @ body else body)"

text \<open>JSON values as \<open>serde_json\<close> hands them over, as far as \<open>Amount\<close> distinguishes them.\<close>

datatype json_value = JString string | JNumber int | JOther string

definition amount_deserialize :: "json_value \<Rightarrow> amount res" where
  "amount_deserialize v =
     (case v of
        JString s \<Rightarrow> amount_from_str s
      | JNumber n \<Rightarrow> (if - (2 ^ 63) \<le> n \<and> n < 2 ^ 64 then Inr n
                      else Inl (Validation ''amount must be an integer string''))
      | JOther other \<Rightarrow> Inl (Validation ''amount must be an integer string''))"

fun checked_sum_from :: "amount \<Rightarrow> amount list \<Rightarrow> amount res" where
  "checked_sum_from acc [] = Inr acc"
| "checked_sum_from acc (x # xs) =
     (case checked_add acc x of Inl e \<Rightarrow> Inl e | Inr acc' \<Rightarrow> checked_sum_from acc' xs)"

definition checked_sum :: "amount list \<Rightarrow> amount res" where
  "checked_sum xs = checked_sum_from 0 xs"

datatype direction = Debit | Credit

fun sign :: "direction \<Rightarrow> int" where
  "sign Debit = 1"
| "sign Credit = -1"

fun direction_str :: "direction \<Rightarrow> string" where
  "direction_str Debit = ''debit''"
| "direction_str Credit = ''credit''"

definition direction_from_str :: "string \<Rightarrow> direction res" where
  "direction_from_str s =
     (if s = ''debit'' then Inr Debit
      else if s = ''credit'' then Inr Credit
      else Inl (InvalidAmount (''unknown direction '' @ s)))"

text \<open>\<open>checked_mul\<close> of an entry's sign and amount, then \<open>checked_add\<close> to the running net.\<close>

definition add_signed :: "int \<Rightarrow> direction \<Rightarrow> amount \<Rightarrow> int res" where
  "add_signed net d a =
     (case checked_i128 (sign d * a) of
        None \<Rightarrow> Inl AmountOverflow
      | Some signed \<Rightarrow> ok_or AmountOverflow (checked_i128 (net + signed)))"

fun entries_balance_from :: "int \<Rightarrow> (direction \<times> amount) list \<Rightarrow> bool res" where
  "entries_balance_from net [] = Inr (net = 0)"
| "entries_balance_from net ((d, a) # es) =
     (if \<not> is_positive a
      then Inl (InvalidAmount ''ledger entry amounts must be strictly positive'')
      else case add_signed net d a of
             Inl e \<Rightarrow> Inl e
           | Inr net' \<Rightarrow> entries_balance_from net' es)"

definition entries_balance :: "(direction \<times> amount) list \<Rightarrow> bool res" where
  "entries_balance es = entries_balance_from 0 es"

section \<open>Checked arithmetic\<close>

lemma ok_or_Inr [simp]: "ok_or e x = Inr a \<longleftrightarrow> x = Some a"
  by (simp add: ok_or_def split: option.splits)

lemma ok_or_Inl: "ok_or e x = Inl f \<longleftrightarrow> x = None \<and> f = e"
  by (auto simp: ok_or_def split: option.splits)

lemma checked_add_Inr [simp]: "checked_add a b = Inr c \<longleftrightarrow> in_i128 (a + b) \<and> c = a + b"
  by (simp add: checked_add_def checked_i128_Some)

lemma checked_add_ok: "in_i128 (a + b) \<Longrightarrow> checked_add a b = Inr (a + b)"
  by simp

lemma checked_sub_ok: "in_i128 (a - b) \<Longrightarrow> checked_sub a b = Inr (a - b)"
  by (simp add: checked_sub_def checked_i128_def ok_or_def)

lemma checked_sub_Inr [simp]: "checked_sub a b = Inr c \<longleftrightarrow> in_i128 (a - b) \<and> c = a - b"
  by (simp add: checked_sub_def checked_i128_Some)

lemma checked_mul_u32_Inr [simp]:
  "checked_mul_u32 a n = Inr c \<longleftrightarrow> in_i128 (a * int n) \<and> c = a * int n"
  by (simp add: checked_mul_u32_def checked_i128_Some)

lemma add_signed_Inr [simp]:
  "add_signed net d a = Inr n \<longleftrightarrow> in_i128 (sign d * a) \<and> in_i128 (net + sign d * a) \<and> n = net + sign d * a"
  by (auto simp: add_signed_def checked_i128_Some checked_i128_def split: option.splits)

lemma checked_sum_from_Inr:
  "checked_sum_from acc xs = Inr t \<Longrightarrow> t = acc + sum_list xs"
  by (induction xs arbitrary: acc) (fastforce simp: algebra_simps split: sum.splits)+

lemma checked_sum_Inr: "checked_sum xs = Inr t \<Longrightarrow> t = sum_list xs"
  by (metis add_0 checked_sum_def checked_sum_from_Inr)

text \<open>
  On non-negative summands the running total never overshoots the final one, so the checked
  sum fails exactly when the total does not fit.
\<close>

lemma checked_sum_from_nonneg:
  assumes "\<forall>x\<in>set xs. 0 \<le> x" and "0 \<le> acc" and "in_i128 acc"
  shows "checked_sum_from acc xs =
    (if in_i128 (acc + sum_list xs) then Inr (acc + sum_list xs) else Inl AmountOverflow)"
  using assms
proof (induction xs arbitrary: acc)
  case Nil
  then show ?case by simp
next
  case (Cons x xs)
  have nn: "0 \<le> sum_list xs" using Cons.prems(1) by (simp add: sum_list_nonneg)
  show ?case
  proof (cases "in_i128 (acc + x)")
    case True
    with Cons show ?thesis by (simp add: checked_add_ok algebra_simps)
  next
    case False
    then have "checked_add acc x = Inl AmountOverflow"
      by (simp add: checked_add_def checked_i128_def ok_or_def)
    moreover have "\<not> in_i128 (acc + (x + sum_list xs))"
      using False Cons.prems nn by (auto simp: in_i128_def)
    ultimately show ?thesis by simp
  qed
qed

text \<open>The decision of \<open>entries_balance\<close>, when it reaches one.\<close>

definition signed_total :: "(direction \<times> amount) list \<Rightarrow> int" where
  "signed_total es = sum_list (map (\<lambda>(d, a). sign d * a) es)"

lemma entries_balance_from_Inr:
  "entries_balance_from net es = Inr b \<Longrightarrow>
     b = (net + signed_total es = 0) \<and> (\<forall>(d, a)\<in>set es. 0 < a)"
proof (induction net es rule: entries_balance_from.induct)
  case (1 net)
  then show ?case by (auto simp: signed_total_def)
next
  case (2 net d a es)
  then have a: "0 < a" and s: "add_signed net d a = Inr (net + sign d * a)"
    and r: "entries_balance_from (net + sign d * a) es = Inr b"
    by (auto simp: is_positive_def split: if_splits sum.splits)
  from 2(1) [OF _ s r] a show ?case
    by (auto simp: signed_total_def is_positive_def algebra_simps)
qed

section \<open>Textual forms\<close>

interpretation direction_codec: text_codec direction_str direction_from_str
proof
  fix d show "direction_from_str (direction_str d) = Inr d"
    by (cases d) (simp_all add: direction_from_str_def)
next
  fix s d assume "direction_from_str s = Inr d"
  then show "direction_str d = s"
    by (auto simp: direction_from_str_def split: if_splits)
qed

lemma amount_from_str_display: "in_i128 a \<Longrightarrow> amount_from_str (display_amount a) = Inr a"
  by (simp add: amount_from_str_def display_amount_def parse_i128_show_int)

end
