(* ===== verification/Models.thy ===== *)
theory Models
  imports Money
begin

text \<open>
  The row types and enumerations of \<open>crates/database/src/models.rs\<close> with the state machines
  they carry. A text column with a \<open>CHECK (... IN (...))\<close> constraint is modelled by the
  enumeration its values print (the codec interpretations below say that the text and the
  enumeration determine each other). \<open>uuid\<close> is the canonical text of a UUID, timestamps
  are natural numbers.

  The two locales state what a status machine of the program promises: a terminal status is
  never left, and a measure falls with every change of status, so every lifecycle is finite.
\<close>

type_synonym uuid = string
type_synonym timestamp = nat
type_synonym hash32 = string
type_synonym address = string

text \<open>Canonical text of a UUID: 36 characters, hexadecimal digits and hyphens.\<close>

definition uuid_ok :: "uuid \<Rightarrow> bool" where
  "uuid_ok u \<longleftrightarrow> length u = 36 \<and> list_all (\<lambda>c. is_hexdigit c \<or> c = CHR ''-'') u"

record user =
  u_id :: uuid
  u_external_id :: string
  u_created_at :: timestamp

record asset =
  as_id :: uuid
  as_symbol :: string
  as_chain :: string
  as_contract :: "address option"
  as_decimals :: int

definition is_native :: "asset \<Rightarrow> bool" where
  "is_native a \<longleftrightarrow> as_contract a = None"

definition decimals_u8 :: "asset \<Rightarrow> nat" where
  "decimals_u8 a = nat (min 36 (max 0 (as_decimals a)))"

record deposit_address =
  da_id :: uuid
  da_user :: uuid
  da_chain :: string
  da_address :: address
  da_path :: "string option"
  da_created_at :: timestamp

section \<open>Chain rows\<close>

datatype block_status = Canonical | Orphaned

fun block_status_str :: "block_status \<Rightarrow> string" where
  "block_status_str Canonical = ''canonical''"
| "block_status_str Orphaned = ''orphaned''"

record chain_block =
  cb_chain :: string
  cb_hash :: hash32
  cb_height :: nat
  cb_parent :: hash32
  cb_status :: block_status

definition is_canonical :: "chain_block \<Rightarrow> bool" where
  "is_canonical b \<longleftrightarrow> cb_status b = Canonical"

record chain_cursor =
  cc_chain :: string
  cc_height :: nat
  cc_hash :: hash32
  cc_head :: nat

datatype transfer_status = TObserved | TConfirmed | TOrphaned | TFailed

record blockchain_transaction =
  bt_id :: uuid
  bt_chain :: string
  bt_tx_hash :: hash32
  bt_log_index :: int
  bt_block_number :: nat
  bt_block_hash :: hash32
  bt_from :: address
  bt_to :: address
  bt_asset :: uuid
  bt_amount :: amount
  bt_status :: transfer_status

record observed_transfer =
  ot_chain :: string
  ot_tx_hash :: hash32
  ot_log_index :: int
  ot_block_number :: nat
  ot_block_hash :: hash32
  ot_from :: address
  ot_to :: address
  ot_amount :: amount
  ot_contract :: "address option"

section \<open>Deposits\<close>

datatype deposit_status = DObserved | DConfirming | DConfirmed | DCredited | DReorged | DFailed

fun deposit_status_str :: "deposit_status \<Rightarrow> string" where
  "deposit_status_str DObserved = ''observed''"
| "deposit_status_str DConfirming = ''confirming''"
| "deposit_status_str DConfirmed = ''confirmed''"
| "deposit_status_str DCredited = ''credited''"
| "deposit_status_str DReorged = ''reorged''"
| "deposit_status_str DFailed = ''failed''"

definition deposit_is_terminal :: "deposit_status \<Rightarrow> bool" where
  "deposit_is_terminal s \<longleftrightarrow> s \<in> {DCredited, DReorged, DFailed}"

definition is_credited :: "deposit_status \<Rightarrow> bool" where
  "is_credited s \<longleftrightarrow> s = DCredited"

fun deposit_can_transition_to :: "deposit_status \<Rightarrow> deposit_status \<Rightarrow> bool" where
  "deposit_can_transition_to a b =
     (if a = b then True
      else case a of
        DObserved \<Rightarrow> b \<in> {DConfirming, DConfirmed, DReorged, DFailed}
      | DConfirming \<Rightarrow> b \<in> {DConfirmed, DReorged, DFailed}
      | DConfirmed \<Rightarrow> b \<in> {DCredited, DReorged, DFailed}
      | DCredited \<Rightarrow> b = DReorged
      | _ \<Rightarrow> False)"

definition deposit_status_from_str :: "string \<Rightarrow> deposit_status res" where
  "deposit_status_from_str s =
     (if s = ''observed'' then Inr DObserved
      else if s = ''confirming'' then Inr DConfirming
      else if s = ''confirmed'' then Inr DConfirmed
      else if s = ''credited'' then Inr DCredited
      else if s = ''reorged'' then Inr DReorged
      else if s = ''failed'' then Inr DFailed
      else Inl (Validation (''unknown deposit status '' @ s)))"

record deposit =
  d_id :: uuid
  d_user :: uuid
  d_btx :: uuid
  d_asset :: uuid
  d_amount :: amount
  d_confirmations :: nat
  d_status :: deposit_status
  d_ledger_tx :: "uuid option"
  d_reversal_tx :: "uuid option"
  d_failure_reason :: "string option"
  d_credited_at :: "timestamp option"
  d_created_at :: timestamp

record pending_deposit =
  pd_deposit :: uuid
  pd_user :: uuid
  pd_asset :: uuid
  pd_symbol :: string
  pd_chain :: string
  pd_tx_hash :: hash32
  pd_block_number :: nat
  pd_block_hash :: hash32
  pd_amount :: amount
  pd_status :: deposit_status
  pd_confirmations :: nat

section \<open>Withdrawals\<close>

datatype withdrawal_status =
  WRequested | WValidated | WApproved | WSigning | WBroadcast | WConfirming
  | WCompleted | WFailed | WCancelled

fun withdrawal_status_str :: "withdrawal_status \<Rightarrow> string" where
  "withdrawal_status_str WRequested = ''requested''"
| "withdrawal_status_str WValidated = ''validated''"
| "withdrawal_status_str WApproved = ''approved''"
| "withdrawal_status_str WSigning = ''signing''"
| "withdrawal_status_str WBroadcast = ''broadcast''"
| "withdrawal_status_str WConfirming = ''confirming''"
| "withdrawal_status_str WCompleted = ''completed''"
| "withdrawal_status_str WFailed = ''failed''"
| "withdrawal_status_str WCancelled = ''cancelled''"

definition withdrawal_is_terminal :: "withdrawal_status \<Rightarrow> bool" where
  "withdrawal_is_terminal s \<longleftrightarrow> s \<in> {WCompleted, WFailed, WCancelled}"

definition funds_may_have_left :: "withdrawal_status \<Rightarrow> bool" where
  "funds_may_have_left s \<longleftrightarrow> s \<in> {WBroadcast, WConfirming, WCompleted}"

fun withdrawal_can_transition_to :: "withdrawal_status \<Rightarrow> withdrawal_status \<Rightarrow> bool" where
  "withdrawal_can_transition_to a b =
     (if a = b then True
      else case a of
        WRequested \<Rightarrow> b \<in> {WValidated, WFailed, WCancelled}
      | WValidated \<Rightarrow> b \<in> {WApproved, WFailed, WCancelled}
      | WApproved \<Rightarrow> b \<in> {WSigning, WFailed, WCancelled}
      | WSigning \<Rightarrow> b \<in> {WBroadcast, WFailed}
      | WBroadcast \<Rightarrow> b \<in> {WConfirming, WCompleted, WFailed}
      | WConfirming \<Rightarrow> b \<in> {WCompleted, WFailed}
      | _ \<Rightarrow> False)"

definition transition_to :: "withdrawal_status \<Rightarrow> withdrawal_status \<Rightarrow> withdrawal_status res" where
  "transition_to a b =
     (if withdrawal_can_transition_to a b then Inr b
      else Inl (InvalidStateTransition ''withdrawal''
                  (withdrawal_status_str a) (withdrawal_status_str b)))"

definition withdrawal_status_from_str :: "string \<Rightarrow> withdrawal_status res" where
  "withdrawal_status_from_str s =
     (if s = ''requested'' then Inr WRequested
      else if s = ''validated'' then Inr WValidated
      else if s = ''approved'' then Inr WApproved
      else if s = ''signing'' then Inr WSigning
      else if s = ''broadcast'' then Inr WBroadcast
      else if s = ''confirming'' then Inr WConfirming
      else if s = ''completed'' then Inr WCompleted
      else if s = ''failed'' then Inr WFailed
      else if s = ''cancelled'' then Inr WCancelled
      else Inl (Validation (''unknown withdrawal status '' @ s)))"

text \<open>
  The trigger \<open>withdrawals_guard_transition\<close> (\<open>migrations/0005_withdrawals.sql\<close>), on the text
  of the column: \<open>None\<close> is the exception it raises.
\<close>

definition trigger_allowed :: "string \<Rightarrow> string list" where
  "trigger_allowed old =
     (if old = ''requested'' then [''validated'', ''failed'', ''cancelled'']
      else if old = ''validated'' then [''approved'', ''failed'', ''cancelled'']
      else if old = ''approved'' then [''signing'', ''failed'', ''cancelled'']
      else if old = ''signing'' then [''broadcast'', ''failed'']
      else if old = ''broadcast'' then [''confirming'', ''completed'', ''failed'']
      else if old = ''confirming'' then [''completed'', ''failed'']
      else [])"

definition withdrawals_guard_transition :: "string \<Rightarrow> string \<Rightarrow> bool" where
  "withdrawals_guard_transition old new \<longleftrightarrow> new = old \<or> new \<in> set (trigger_allowed old)"

record withdrawal =
  w_id :: uuid
  w_user :: uuid
  w_asset :: uuid
  w_chain :: string
  w_destination :: address
  w_amount :: amount
  w_status :: withdrawal_status
  w_idempotency_key :: string
  w_fingerprint :: string
  w_tx_hash :: "hash32 option"
  w_nonce :: "nat option"
  w_gas_limit :: "nat option"
  w_max_fee :: "amount option"
  w_max_priority_fee :: "amount option"
  w_fee_paid :: "amount option"
  w_block_number :: "nat option"
  w_confirmations :: nat
  w_broadcast_attempts :: nat
  w_reserve_tx :: "uuid option"
  w_settle_tx :: "uuid option"
  w_failure_code :: "string option"
  w_failure_reason :: "string option"
  w_correlation :: "string option"
  w_approved_at :: "timestamp option"
  w_broadcast_at :: "timestamp option"
  w_completed_at :: "timestamp option"
  w_created_at :: timestamp

section \<open>Ledger rows\<close>

datatype account_type =
  UserAvailable | UserReserved | UserDeficit | ExchangeCustody | WithdrawalClearing
  | NetworkFeeAccount | Treasury

fun account_type_str :: "account_type \<Rightarrow> string" where
  "account_type_str UserAvailable = ''user_available''"
| "account_type_str UserReserved = ''user_reserved''"
| "account_type_str UserDeficit = ''user_deficit''"
| "account_type_str ExchangeCustody = ''exchange_custody''"
| "account_type_str WithdrawalClearing = ''withdrawal_clearing''"
| "account_type_str NetworkFeeAccount = ''network_fee''"
| "account_type_str Treasury = ''treasury''"

fun normal_balance :: "account_type \<Rightarrow> direction" where
  "normal_balance UserAvailable = Credit"
| "normal_balance UserReserved = Credit"
| "normal_balance Treasury = Credit"
| "normal_balance UserDeficit = Debit"
| "normal_balance ExchangeCustody = Debit"
| "normal_balance WithdrawalClearing = Debit"
| "normal_balance NetworkFeeAccount = Debit"

definition is_user_scoped :: "account_type \<Rightarrow> bool" where
  "is_user_scoped t \<longleftrightarrow> t \<in> {UserAvailable, UserReserved, UserDeficit}"

definition allows_negative :: "account_type \<Rightarrow> bool" where
  "allows_negative t \<longleftrightarrow> t \<in> {WithdrawalClearing, Treasury}"

definition account_type_from_str :: "string \<Rightarrow> account_type res" where
  "account_type_from_str s =
     (if s = ''user_available'' then Inr UserAvailable
      else if s = ''user_reserved'' then Inr UserReserved
      else if s = ''user_deficit'' then Inr UserDeficit
      else if s = ''exchange_custody'' then Inr ExchangeCustody
      else if s = ''withdrawal_clearing'' then Inr WithdrawalClearing
      else if s = ''network_fee'' then Inr NetworkFeeAccount
      else if s = ''treasury'' then Inr Treasury
      else Inl (Validation (''unknown account type '' @ s)))"

record ledger_account =
  la_id :: uuid
  la_type :: account_type
  la_owner :: "uuid option"
  la_asset :: uuid
  la_normal :: direction
  la_balance :: int
  la_allow_negative :: bool

record ledger_transaction =
  lt_id :: uuid
  lt_kind :: string
  lt_reference_type :: string
  lt_reference_id :: "uuid option"
  lt_key :: string
  lt_correlation :: "string option"
  lt_description :: "string option"
  lt_created_at :: timestamp

record ledger_entry =
  le_id :: uuid
  le_tx :: uuid
  le_account :: uuid
  le_asset :: uuid
  le_amount :: amount
  le_direction :: direction
  le_balance_after :: int
  le_created_at :: timestamp

section \<open>Codecs\<close>

interpretation deposit_codec: text_codec deposit_status_str deposit_status_from_str
proof
  fix d show "deposit_status_from_str (deposit_status_str d) = Inr d"
    by (cases d) (simp_all add: deposit_status_from_str_def)
next
  fix s d assume "deposit_status_from_str s = Inr d"
  then show "deposit_status_str d = s"
    by (auto simp: deposit_status_from_str_def split: if_splits)
qed

interpretation withdrawal_codec: text_codec withdrawal_status_str withdrawal_status_from_str
proof
  fix d show "withdrawal_status_from_str (withdrawal_status_str d) = Inr d"
    by (cases d) (simp_all add: withdrawal_status_from_str_def)
next
  fix s d assume "withdrawal_status_from_str s = Inr d"
  then show "withdrawal_status_str d = s"
    by (auto simp: withdrawal_status_from_str_def split: if_splits)
qed

interpretation account_codec: text_codec account_type_str account_type_from_str
proof
  fix d show "account_type_from_str (account_type_str d) = Inr d"
    by (cases d) (simp_all add: account_type_from_str_def)
next
  fix s d assume "account_type_from_str s = Inr d"
  then show "account_type_str d = s"
    by (auto simp: account_type_from_str_def split: if_splits)
qed

section \<open>Status machines\<close>

locale status_machine =
  fixes can :: "'s \<Rightarrow> 's \<Rightarrow> bool" and rank :: "'s \<Rightarrow> nat"
  assumes stay: "can s s"
    and falls: "can a b \<Longrightarrow> a \<noteq> b \<Longrightarrow> rank b < rank a"
begin

text \<open>A lifecycle is a list of statuses in which every step is allowed and changes the status.\<close>

fun lifecycle :: "'s list \<Rightarrow> bool" where
  "lifecycle [] = True"
| "lifecycle [a] = True"
| "lifecycle (a # b # ss) = (can a b \<and> a \<noteq> b \<and> lifecycle (b # ss))"

lemma lifecycle_rank: "lifecycle (a # ss) \<Longrightarrow> s \<in> set ss \<Longrightarrow> rank s < rank a"
proof (induction ss arbitrary: a)
  case Nil
  then show ?case by simp
next
  case (Cons b ss)
  then have "rank b < rank a" using falls by simp
  moreover have "s = b \<or> rank s < rank b" using Cons by auto
  ultimately show ?case by auto
qed

lemma lifecycle_length: "lifecycle (a # ss) \<Longrightarrow> length ss \<le> rank a"
proof (induction ss arbitrary: a)
  case Nil
  then show ?case by simp
next
  case (Cons b ss)
  then have "rank b < rank a" and "length ss \<le> rank b" using falls by simp_all
  then show ?case by simp
qed

lemma lifecycle_distinct: "lifecycle ss \<Longrightarrow> distinct ss"
proof (induction ss rule: lifecycle.induct)
  case (3 a b ss)
  then have "a \<notin> set (b # ss)" using lifecycle_rank [of a "b # ss" a] by auto
  with 3 show ?case by simp
qed simp_all

end

locale terminal_machine = status_machine can rank for can :: "'s \<Rightarrow> 's \<Rightarrow> bool" and rank :: "'s \<Rightarrow> nat" +
  fixes terminal :: "'s \<Rightarrow> bool"
  assumes closed: "terminal a \<Longrightarrow> can a b \<Longrightarrow> b = a"
begin

lemma terminal_last: "lifecycle (xs @ a # ys) \<Longrightarrow> terminal a \<Longrightarrow> ys = []"
proof (induction xs rule: induct_list012)
  case 1
  then show ?case using closed by (cases ys) auto
next
  case (2 x)
  then show ?case using closed by (cases ys) auto
next
  case (3 x y zs)
  then show ?case by simp
qed

end

fun withdrawal_rank :: "withdrawal_status \<Rightarrow> nat" where
  "withdrawal_rank WRequested = 6"
| "withdrawal_rank WValidated = 5"
| "withdrawal_rank WApproved = 4"
| "withdrawal_rank WSigning = 3"
| "withdrawal_rank WBroadcast = 2"
| "withdrawal_rank WConfirming = 1"
| "withdrawal_rank _ = 0"

fun deposit_rank :: "deposit_status \<Rightarrow> nat" where
  "deposit_rank DObserved = 4"
| "deposit_rank DConfirming = 3"
| "deposit_rank DConfirmed = 2"
| "deposit_rank DCredited = 1"
| "deposit_rank _ = 0"

interpretation wd: terminal_machine withdrawal_can_transition_to withdrawal_rank
  withdrawal_is_terminal
proof
  fix a b :: withdrawal_status
  show "withdrawal_can_transition_to a a" by simp
  show "withdrawal_can_transition_to a b \<Longrightarrow> a \<noteq> b \<Longrightarrow> withdrawal_rank b < withdrawal_rank a"
    by (cases a) auto
  show "withdrawal_is_terminal a \<Longrightarrow> withdrawal_can_transition_to a b \<Longrightarrow> b = a"
    by (cases a) (auto simp: withdrawal_is_terminal_def split: if_splits)
qed

interpretation dep: status_machine deposit_can_transition_to deposit_rank
proof
  fix a b :: deposit_status
  show "deposit_can_transition_to a a" by simp
  show "deposit_can_transition_to a b \<Longrightarrow> a \<noteq> b \<Longrightarrow> deposit_rank b < deposit_rank a"
    by (cases a) auto
qed

end
