(* ===== verification/Posting.thy ===== *)
theory Posting
  imports Models "HOL-Library.Product_Lexorder" "HOL-Library.Multiset"
begin

text \<open>
  Construction and validation of a ledger posting (\<open>crates/ledger/src/posting.rs\<close>): the kinds
  of financial event, the builder functions, the net of a posting, \<open>validate\<close>, and the order
  in which entries are written. The lemmas characterise exactly which postings \<open>validate\<close>
  accepts and show that the order of writing keeps the entries and puts all postings on one
  global order of accounts.
\<close>

datatype transaction_kind =
    DepositCredit | DepositReversal | WithdrawalReserve | WithdrawalRelease
  | WithdrawalBroadcastKind | WithdrawalSettle | WithdrawalBroadcastReversal
  | NetworkFeeKind | Adjustment

fun transaction_kind_str :: "transaction_kind \<Rightarrow> string" where
  "transaction_kind_str DepositCredit = ''deposit_credit''"
| "transaction_kind_str DepositReversal = ''deposit_reversal''"
| "transaction_kind_str WithdrawalReserve = ''withdrawal_reserve''"
| "transaction_kind_str WithdrawalRelease = ''withdrawal_release''"
| "transaction_kind_str WithdrawalBroadcastKind = ''withdrawal_broadcast''"
| "transaction_kind_str WithdrawalSettle = ''withdrawal_settle''"
| "transaction_kind_str WithdrawalBroadcastReversal = ''withdrawal_broadcast_reversal''"
| "transaction_kind_str NetworkFeeKind = ''network_fee''"
| "transaction_kind_str Adjustment = ''adjustment''"

datatype reference_type = RefDeposit | RefWithdrawal | RefManual | RefReorg

fun reference_type_str :: "reference_type \<Rightarrow> string" where
  "reference_type_str RefDeposit = ''deposit''"
| "reference_type_str RefWithdrawal = ''withdrawal''"
| "reference_type_str RefManual = ''manual''"
| "reference_type_str RefReorg = ''reorg''"

record entry_request =
  er_account :: uuid
  er_asset :: uuid
  er_amount :: amount
  er_direction :: direction

definition entry_debit :: "uuid \<Rightarrow> uuid \<Rightarrow> amount \<Rightarrow> entry_request" where
  "entry_debit acct asset amt =
     \<lparr>er_account = acct, er_asset = asset, er_amount = amt, er_direction = Debit\<rparr>"

definition entry_credit :: "uuid \<Rightarrow> uuid \<Rightarrow> amount \<Rightarrow> entry_request" where
  "entry_credit acct asset amt =
     \<lparr>er_account = acct, er_asset = asset, er_amount = amt, er_direction = Credit\<rparr>"

record posting =
  p_kind :: transaction_kind
  p_reference_type :: reference_type
  p_reference_id :: "uuid option"
  p_key :: string
  p_correlation :: "string option"
  p_description :: "string option"
  p_entries :: "entry_request list"

definition posting_new ::
  "transaction_kind \<Rightarrow> reference_type \<Rightarrow> uuid option \<Rightarrow> string \<Rightarrow> posting" where
  "posting_new kind rt rid key =
     \<lparr>p_kind = kind, p_reference_type = rt, p_reference_id = rid, p_key = key,
      p_correlation = None, p_description = None, p_entries = []\<rparr>"

definition with_correlation :: "string option \<Rightarrow> posting \<Rightarrow> posting" where
  "with_correlation c p = p\<lparr>p_correlation := c\<rparr>"

definition with_description :: "string \<Rightarrow> posting \<Rightarrow> posting" where
  "with_description d p = p\<lparr>p_description := Some d\<rparr>"

definition posting_debit :: "uuid \<Rightarrow> uuid \<Rightarrow> amount \<Rightarrow> posting \<Rightarrow> posting" where
  "posting_debit acct asset amt p = p\<lparr>p_entries := p_entries p @ [entry_debit acct asset amt]\<rparr>"

definition posting_credit :: "uuid \<Rightarrow> uuid \<Rightarrow> amount \<Rightarrow> posting \<Rightarrow> posting" where
  "posting_credit acct asset amt p = p\<lparr>p_entries := p_entries p @ [entry_credit acct asset amt]\<rparr>"

lemmas posting_build_defs = posting_new_def with_correlation_def with_description_def
  posting_debit_def posting_credit_def entry_debit_def entry_credit_def

fun net_from :: "int \<Rightarrow> entry_request list \<Rightarrow> int res" where
  "net_from acc [] = Inr acc"
| "net_from acc (e # es) =
     (case add_signed acc (er_direction e) (er_amount e) of
        Inl err \<Rightarrow> Inl err
      | Inr acc' \<Rightarrow> net_from acc' es)"

definition net :: "posting \<Rightarrow> int res" where
  "net p = net_from 0 (p_entries p)"

definition validate :: "posting \<Rightarrow> unit res" where
  "validate p =
     (if trim (p_key p) = [] \<or> 200 < length (p_key p)
      then Inl (Validation ''ledger idempotency key must be 1..=200 chars'')
      else if length (p_entries p) < 2
      then Inl (UnbalancedLedgerTransaction
                  (''only '' @ show_nat (length (p_entries p)) @ '' entries''))
      else if \<not> list_all (\<lambda>e. is_positive (er_amount e)) (p_entries p)
      then Inl (InvalidAmount
         ''ledger entry amounts must be strictly positive; use `direction` for sign'')
      else case net p of
             Inl e \<Rightarrow> Inl e
           | Inr n \<Rightarrow> if n \<noteq> 0 then Inl (UnbalancedLedgerTransaction (show_int n)) else Inr ())"

definition ordered_entries :: "posting \<Rightarrow> entry_request list" where
  "ordered_entries p =
     sort_key (\<lambda>e. (er_account e, direction_str (er_direction e))) (p_entries p)"

definition total_debits :: "posting \<Rightarrow> amount res" where
  "total_debits p =
     checked_sum (map er_amount (filter (\<lambda>e. er_direction e = Debit) (p_entries p)))"

definition total_credits :: "posting \<Rightarrow> amount res" where
  "total_credits p =
     checked_sum (map er_amount (filter (\<lambda>e. er_direction e = Credit) (p_entries p)))"

section \<open>What validation accepts\<close>

text \<open>The signed sum of the entries, without the width of \<open>i128\<close>.\<close>

definition entries_net :: "entry_request list \<Rightarrow> int" where
  "entries_net es = sum_list (map (\<lambda>e. sign (er_direction e) * er_amount e) es)"

lemma entries_net_simps [simp]:
  "entries_net [] = 0"
  "entries_net (e # es) = sign (er_direction e) * er_amount e + entries_net es"
  by (simp_all add: entries_net_def)

lemma net_from_Inr: "net_from acc es = Inr n \<Longrightarrow> n = acc + entries_net es"
  by (induction es arbitrary: acc) (fastforce simp: algebra_simps split: sum.splits)+

lemma net_Inr: "net p = Inr n \<Longrightarrow> n = entries_net (p_entries p)"
  by (metis add_0 net_def net_from_Inr)

lemma validate_Inr:
  "validate p = Inr u \<longleftrightarrow>
     trim (p_key p) \<noteq> [] \<and> length (p_key p) \<le> 200 \<and> 2 \<le> length (p_entries p) \<and>
     (\<forall>e\<in>set (p_entries p). 0 < er_amount e) \<and> net p = Inr 0"
  by (auto simp: validate_def list_all_iff is_positive_def split: sum.splits)

lemma validate_balanced:
  "validate p = Inr u \<Longrightarrow> entries_net (p_entries p) = 0"
  using net_Inr by (force simp: validate_Inr)

section \<open>The order of writing\<close>

lemma mset_ordered_entries [simp]: "mset (ordered_entries p) = mset (p_entries p)"
  by (simp add: ordered_entries_def)

lemma set_ordered_entries [simp]: "set (ordered_entries p) = set (p_entries p)"
  by (simp add: ordered_entries_def)

lemma length_ordered_entries [simp]: "length (ordered_entries p) = length (p_entries p)"
  by (simp add: ordered_entries_def)

lemma sum_list_ordered_entries:
  fixes f :: "entry_request \<Rightarrow> int"
  shows "sum_list (map f (ordered_entries p)) = sum_list (map f (p_entries p))"
  by (metis mset_map mset_ordered_entries sum_mset_sum_list)

lemma sorted_ordered_accounts: "sorted (map er_account (ordered_entries p))"
proof -
  let ?k = "\<lambda>e. (er_account e, direction_str (er_direction e))"
  have "sorted (map ?k (ordered_entries p))"
    by (simp add: ordered_entries_def)
  then have "sorted_wrt (\<lambda>x y. ?k x \<le> ?k y) (ordered_entries p)"
    by (simp only: sorted_map)
  then have "sorted_wrt (\<lambda>x y. er_account x \<le> er_account y) (ordered_entries p)"
    by (rule sorted_wrt_mono_rel [rotated]) (auto simp only: less_eq_prod_simp order.refl less_imp_le)
  then show ?thesis by (simp only: sorted_map)
qed

end
