(* ===== verification/Ledger.thy ===== *)
theory Ledger
  imports Posting
begin

text \<open>
  The ledger's store and its core service: account resolution (\<open>crates/ledger/src/accounts.rs\<close>),
  \<open>post_transaction\<close> and the reads (\<open>service.rs\<close>), and the tables, constraints and triggers of
  \<open>migrations/0003_ledger.sql\<close> they run against. The invariant \<open>ledger_inv\<close> is what the
  schema and the service promise together: every transaction balances, every amount is
  positive, no balance drifts from its entries, no spendable balance is negative, and every
  idempotency key is posted once. The abstraction \<open>abs_ledger\<close> forgets accounts, rows and
  identifiers: a balance per (type, owner, asset) and a set of posted keys; \<open>post_transaction\<close>
  refines \<open>apost\<close> on it.
\<close>

section \<open>The store\<close>

text \<open>
  Reference tables, the source of fresh identifiers (\<open>gen_random_uuid()\<close>, a supply of the
  database) and the database clock (\<open>now()\<close>).
\<close>

record ref_db =
  id_src :: "nat \<Rightarrow> uuid"
  id_next :: nat
  clock :: timestamp
  users :: "user list"
  assets :: "asset list"
  deposit_addresses :: "deposit_address list"

record ledger_db = ref_db +
  accounts :: "ledger_account list"
  ltransactions :: "ledger_transaction list"
  lentries :: "ledger_entry list"

definition gen_uuid :: "('x ref_db_scheme, uuid) db_tx" where
  "gen_uuid s = Inr (id_src s (id_next s), s\<lparr>id_next := Suc (id_next s)\<rparr>)"

text \<open>\<open>NUMERIC(78, 0)\<close> holds 78 decimal digits; \<open>Amount\<close> is decoded from it by range.\<close>

definition numeric78 :: "int \<Rightarrow> bool" where
  "numeric78 x \<longleftrightarrow> \<bar>x\<bar> < 10 ^ 78"

definition decode_amount :: "int \<Rightarrow> amount res" where
  "decode_amount x = (if in_i128 x then Inr x else Inl (Database ''amount column out of range''))"

section \<open>Accounts\<close>

type_synonym account_key = "account_type \<times> uuid option \<times> uuid"

definition acct_key :: "ledger_account \<Rightarrow> account_key" where
  "acct_key a = (la_type a, la_owner a, la_asset a)"

definition select_account :: "account_key \<Rightarrow> ('x ledger_db_scheme, uuid option) db_tx" where
  "select_account k = tx_read (\<lambda>s. map_option la_id (find (\<lambda>a. acct_key a = k) (accounts s)))"

text \<open>
  \<open>INSERT INTO ledger_accounts ... ON CONFLICT DO NOTHING RETURNING id\<close> with the ownership
  check and the two foreign keys of the table.
\<close>

definition insert_account ::
  "account_type \<Rightarrow> uuid option \<Rightarrow> uuid \<Rightarrow> ('x ledger_db_scheme, uuid option) db_tx" where
  "insert_account t owner asset = (\<lambda>s.
     if is_user_scoped t \<noteq> (owner \<noteq> None)
     then Inl (Validation ''check constraint violated: ledger_accounts_ownership_check'')
     else if \<exists>a\<in>set (accounts s). acct_key a = (t, owner, asset) then Inr (None, s)
     else if (case owner of None \<Rightarrow> False | Some u \<Rightarrow> u \<notin> u_id ` set (users s))
     then Inl (Validation
                 ''referenced row does not exist (ledger_accounts_owner_user_id_fkey)'')
     else if asset \<notin> as_id ` set (assets s)
     then Inl (Validation ''referenced row does not exist (ledger_accounts_asset_id_fkey)'')
     else tx_bind gen_uuid (\<lambda>i. tx_then
            (tx_write (\<lambda>s. s\<lparr>accounts := accounts s @
               [\<lparr>la_id = i, la_type = t, la_owner = owner, la_asset = asset,
                 la_normal = normal_balance t, la_balance = 0,
                 la_allow_negative = allows_negative t\<rparr>]\<rparr>))
            (tx_return (Some i))) s)"

definition resolve_account ::
  "account_type \<Rightarrow> uuid option \<Rightarrow> uuid \<Rightarrow> ('x ledger_db_scheme, uuid) db_tx" where
  "resolve_account t owner asset =
     tx_bind (select_account (t, owner, asset)) (\<lambda>existing.
       case existing of
         Some i \<Rightarrow> tx_return i
       | None \<Rightarrow> tx_bind (insert_account t owner asset) (\<lambda>created.
           case created of
             Some i \<Rightarrow> tx_return i
           | None \<Rightarrow> tx_bind (select_account (t, owner, asset)) (\<lambda>again.
               case again of
                 Some i \<Rightarrow> tx_return i
               | None \<Rightarrow> tx_fail (Internal ''ledger account vanished after insert conflict''))))"

definition user_account ::
  "account_type \<Rightarrow> uuid \<Rightarrow> uuid \<Rightarrow> ('x ledger_db_scheme, uuid) db_tx" where
  "user_account t user asset =
     (if \<not> is_user_scoped t
      then tx_fail (Internal (account_type_str t @ '' is not a user-scoped account type''))
      else resolve_account t (Some user) asset)"

definition system_account :: "account_type \<Rightarrow> uuid \<Rightarrow> ('x ledger_db_scheme, uuid) db_tx" where
  "system_account t asset =
     (if is_user_scoped t
      then tx_fail (Internal (account_type_str t @ '' requires an owning user''))
      else resolve_account t None asset)"

definition get_account :: "uuid \<Rightarrow> ('x ledger_db_scheme, ledger_account) db_tx" where
  "get_account i = (\<lambda>s. case find (\<lambda>a. la_id a = i) (accounts s) of
       None \<Rightarrow> Inl (NotFound ''ledger account'')
     | Some a \<Rightarrow> tx_bind (tx_lift (decode_amount (la_balance a))) (\<lambda>_. tx_return a) s)"

definition user_balance ::
  "account_type \<Rightarrow> uuid \<Rightarrow> uuid \<Rightarrow> ('x ledger_db_scheme, amount) db_tx" where
  "user_balance t user asset = (\<lambda>s.
     case find (\<lambda>a. acct_key a = (t, Some user, asset)) (accounts s) of
       None \<Rightarrow> Inr (0, s)
     | Some a \<Rightarrow> tx_lift (decode_amount (la_balance a)) s)"

definition lock_user_account ::
  "account_type \<Rightarrow> uuid \<Rightarrow> uuid \<Rightarrow> ('x ledger_db_scheme, ledger_account option) db_tx" where
  "lock_user_account t user asset = (\<lambda>s.
     case find (\<lambda>a. acct_key a = (t, Some user, asset)) (accounts s) of
       None \<Rightarrow> Inr (None, s)
     | Some a \<Rightarrow> tx_bind (tx_lift (decode_amount (la_balance a))) (\<lambda>_. tx_return (Some a)) s)"

section \<open>Posting\<close>

text \<open>
  The trigger \<open>ledger_apply_entry\<close>: it moves the account's balance in its natural sign and
  returns the balance after the entry. The \<open>UPDATE\<close> is subject to the column's precision and
  to \<open>ledger_accounts_non_negative\<close>.
\<close>

definition ledger_apply_entry ::
  "uuid \<Rightarrow> uuid \<Rightarrow> amount \<Rightarrow> direction \<Rightarrow> ('x ledger_db_scheme, int) db_tx" where
  "ledger_apply_entry acct asset amt dir = (\<lambda>s.
     case find (\<lambda>a. la_id a = acct) (accounts s) of
       None \<Rightarrow> Inl (Validation ''referenced row does not exist (foreign key)'')
     | Some a \<Rightarrow>
         if la_asset a \<noteq> asset then Inl (Validation ''check constraint violated: '')
         else
           let delta = (if dir = la_normal a then amt else - amt);
               b = la_balance a + delta
           in if \<not> numeric78 b then Inl (Database ''numeric field overflow'')
              else if \<not> (la_allow_negative a \<or> 0 \<le> b)
              then Inl (InsufficientBalance ''insufficient'' ''requested'')
              else Inr (b, s\<lparr>accounts :=
                     upd_where (\<lambda>a. la_id a = acct) (\<lambda>a. a\<lparr>la_balance := b\<rparr>) (accounts s)\<rparr>))"

definition insert_entry :: "uuid \<Rightarrow> entry_request \<Rightarrow> ('x ledger_db_scheme, unit) db_tx" where
  "insert_entry txid e =
     tx_bind (ledger_apply_entry (er_account e) (er_asset e) (er_amount e) (er_direction e)) (\<lambda>after.
     if \<not> 0 < er_amount e
     then tx_fail (Validation ''check constraint violated: ledger_entries_amount_positive'')
     else tx_bind gen_uuid (\<lambda>i.
       tx_write (\<lambda>s. s\<lparr>lentries := lentries s @
         [\<lparr>le_id = i, le_tx = txid, le_account = er_account e, le_asset = er_asset e,
           le_amount = er_amount e, le_direction = er_direction e,
           le_balance_after = after, le_created_at = clock s\<rparr>]\<rparr>)))"

text \<open>\<open>INSERT INTO ledger_transactions ... ON CONFLICT (idempotency_key) DO NOTHING\<close>.\<close>

definition insert_transaction ::
  "posting \<Rightarrow> ('x ledger_db_scheme, ledger_transaction option) db_tx" where
  "insert_transaction p = (\<lambda>s.
     if \<exists>t\<in>set (ltransactions s). lt_key t = p_key p then Inr (None, s)
     else tx_bind gen_uuid (\<lambda>i s.
       let t = \<lparr>lt_id = i, lt_kind = transaction_kind_str (p_kind p),
                lt_reference_type = reference_type_str (p_reference_type p),
                lt_reference_id = p_reference_id p, lt_key = p_key p,
                lt_correlation = p_correlation p, lt_description = p_description p,
                lt_created_at = clock s\<rparr>
       in Inr (Some t, s\<lparr>ltransactions := ltransactions s @ [t]\<rparr>)) s)"

definition get_transaction_by_key :: "string \<Rightarrow> ('x ledger_db_scheme, ledger_transaction) db_tx" where
  "get_transaction_by_key key = (\<lambda>s.
     case find (\<lambda>t. lt_key t = key) (ltransactions s) of
       None \<Rightarrow> Inl (NotFound ''ledger transaction'')
     | Some t \<Rightarrow> Inr (t, s))"

definition get_transaction :: "uuid \<Rightarrow> ('x ledger_db_scheme, ledger_transaction) db_tx" where
  "get_transaction i = (\<lambda>s.
     case find (\<lambda>t. lt_id t = i) (ltransactions s) of
       None \<Rightarrow> Inl (NotFound ''ledger transaction'')
     | Some t \<Rightarrow> Inr (t, s))"

datatype post_result = Posted ledger_transaction | AlreadyPosted ledger_transaction

fun post_result_transaction :: "post_result \<Rightarrow> ledger_transaction" where
  "post_result_transaction (Posted t) = t"
| "post_result_transaction (AlreadyPosted t) = t"

definition post_result_id :: "post_result \<Rightarrow> uuid" where
  "post_result_id r = lt_id (post_result_transaction r)"

fun was_posted :: "post_result \<Rightarrow> bool" where
  "was_posted (Posted _) = True"
| "was_posted (AlreadyPosted _) = False"

definition post_transaction :: "posting \<Rightarrow> ('x ledger_db_scheme, post_result) db_tx" where
  "post_transaction p =
     tx_then (tx_lift (validate p))
     (tx_bind (insert_transaction p) (\<lambda>inserted.
        case inserted of
          None \<Rightarrow> tx_bind (get_transaction_by_key (p_key p)) (\<lambda>t. tx_return (AlreadyPosted t))
        | Some t \<Rightarrow>
            tx_then (tx_for (ordered_entries p) (insert_entry (lt_id t)))
                    (tx_return (Posted t))))"

text \<open>
  The deferred constraint trigger \<open>ledger_assert_balanced\<close>, run at \<open>COMMIT\<close>. It fires for
  every entry the transaction inserted; as earlier commits passed it, it is run here for
  every entry of the table.
\<close>

definition tx_entries :: "uuid \<Rightarrow> ledger_entry list \<Rightarrow> ledger_entry list" where
  "tx_entries i es = filter (\<lambda>e. le_tx e = i) es"

definition signed_amount :: "ledger_entry \<Rightarrow> int" where
  "signed_amount e = (if le_direction e = Debit then le_amount e else - le_amount e)"

definition assert_balanced :: "ledger_entry list \<Rightarrow> uuid \<Rightarrow> unit res" where
  "assert_balanced es i =
     (let mine = tx_entries i es; n = sum_list (map signed_amount mine)
      in if length mine < 2 then Inl (UnbalancedLedgerTransaction ''single-sided'')
         else if n \<noteq> 0 then Inl (UnbalancedLedgerTransaction (show_int n)) else Inr ())"

definition commit :: "('x ledger_db_scheme, unit) db_tx" where
  "commit = (\<lambda>s.
     case find (\<lambda>e. assert_balanced (lentries s) (le_tx e) \<noteq> Inr ()) (lentries s) of
       Some e \<Rightarrow> (case assert_balanced (lentries s) (le_tx e) of Inl err \<Rightarrow> Inl err | Inr u \<Rightarrow> Inr (u, s))
     | None \<Rightarrow> Inr ((), s))"

section \<open>Reads\<close>

definition get_balance :: "uuid \<Rightarrow> uuid \<Rightarrow> ('x ledger_db_scheme, amount) db_tx" where
  "get_balance user asset = user_balance UserAvailable user asset"

record account_balance =
  ab_type :: account_type
  ab_asset :: uuid
  ab_symbol :: string
  ab_decimals :: int
  ab_chain :: string
  ab_balance :: amount

text \<open>
  \<open>get_balances\<close>: the user's accounts joined with their assets, by chain, symbol and type;
  a balance that does not decode fails the whole query.
\<close>

definition balance_rows :: "uuid \<Rightarrow> 'x ledger_db_scheme \<Rightarrow> account_balance list" where
  "balance_rows user s =
     sort_key (\<lambda>r. (ab_chain r, ab_symbol r, account_type_str (ab_type r)))
       (concat (map (\<lambda>a. map (\<lambda>x. \<lparr>ab_type = la_type a, ab_asset = la_asset a,
                                 ab_symbol = as_symbol x, ab_decimals = as_decimals x,
                                 ab_chain = as_chain x, ab_balance = la_balance a\<rparr>)
                          (filter (\<lambda>x. as_id x = la_asset a) (assets s)))
               (filter (\<lambda>a. la_owner a = Some user) (accounts s))))"

definition get_balances :: "uuid \<Rightarrow> ('x ledger_db_scheme, account_balance list) db_tx" where
  "get_balances user = (\<lambda>s.
     if list_all (\<lambda>r. in_i128 (ab_balance r)) (balance_rows user s)
     then Inr (balance_rows user s, s) else Inl (Database ''amount column out of range''))"

text \<open>
  \<open>get_ledger_entries\<close>: the statement page of a user, newest first, strictly after the
  keyset cursor, at most \<open>limit\<close> rows.
\<close>

definition statement_entries ::
  "uuid \<Rightarrow> (timestamp \<times> uuid) option \<Rightarrow> nat \<Rightarrow> 'x ledger_db_scheme \<Rightarrow> ledger_entry list" where
  "statement_entries user after limit s =
     take limit (rev (sort_key (\<lambda>e. (le_created_at e, le_id e))
       (filter (\<lambda>e. (\<exists>a\<in>set (accounts s). la_id a = le_account e \<and> la_owner a = Some user) \<and>
                    (case after of None \<Rightarrow> True | Some c \<Rightarrow> (le_created_at e, le_id e) < c))
         (lentries s))))"

definition transaction_entries :: "uuid \<Rightarrow> 'x ledger_db_scheme \<Rightarrow> ledger_entry list" where
  "transaction_entries i s =
     sort_key le_id (filter (\<lambda>e. le_direction e = Debit) (tx_entries i (lentries s))) @
     sort_key le_id (filter (\<lambda>e. le_direction e = Credit) (tx_entries i (lentries s)))"

end
