(* ===== verification/Ledger_Inv.thy ===== *)
theory Ledger_Inv
  imports Ledger
begin

text \<open>
  The invariant of the ledger and its preservation by account resolution and by
  \<open>post_transaction\<close>; the abstract ledger and the refinement of \<open>apost\<close> by \<open>post_transaction\<close>.
\<close>

section \<open>The invariant\<close>

definition natural_delta :: "direction \<Rightarrow> direction \<Rightarrow> amount \<Rightarrow> int" where
  "natural_delta n d amt = (if d = n then amt else - amt)"

definition derived_balance :: "ledger_entry list \<Rightarrow> ledger_account \<Rightarrow> int" where
  "derived_balance es a =
     sum_list (map (\<lambda>e. natural_delta (la_normal a) (le_direction e) (le_amount e))
       (filter (\<lambda>e. le_account e = la_id a) es))"

definition account_ok :: "ledger_account \<Rightarrow> bool" where
  "account_ok a \<longleftrightarrow> la_normal a = normal_balance (la_type a) \<and>
     la_allow_negative a = allows_negative (la_type a) \<and>
     (is_user_scoped (la_type a) \<longleftrightarrow> la_owner a \<noteq> None) \<and>
     (la_allow_negative a \<or> 0 \<le> la_balance a)"

definition used_ids :: "'x ref_db_scheme \<Rightarrow> uuid set" where
  "used_ids s = id_src s ` {..<id_next s}"

definition accounts_ok :: "'x ledger_db_scheme \<Rightarrow> bool" where
  "accounts_ok s \<longleftrightarrow> inj (id_src s) \<and> unique_key la_id (accounts s) \<and>
     unique_key acct_key (accounts s) \<and> la_id ` set (accounts s) \<subseteq> used_ids s \<and>
     (\<forall>a\<in>set (accounts s). account_ok a \<and> la_balance a = derived_balance (lentries s) a)"

definition transactions_ok :: "'x ledger_db_scheme \<Rightarrow> bool" where
  "transactions_ok s \<longleftrightarrow> unique_key lt_id (ltransactions s) \<and> unique_key lt_key (ltransactions s) \<and>
     lt_id ` set (ltransactions s) \<subseteq> used_ids s"

definition entries_ok :: "'x ledger_db_scheme \<Rightarrow> bool" where
  "entries_ok s \<longleftrightarrow> (\<forall>e\<in>set (lentries s). 0 < le_amount e \<and>
     le_account e \<in> la_id ` set (accounts s) \<and> le_tx e \<in> lt_id ` set (ltransactions s))"

definition ledger_core :: "'x ledger_db_scheme \<Rightarrow> bool" where
  "ledger_core s \<longleftrightarrow> accounts_ok s \<and> transactions_ok s \<and> entries_ok s"

definition balanced_tx :: "ledger_entry list \<Rightarrow> uuid \<Rightarrow> bool" where
  "balanced_tx es i \<longleftrightarrow> 2 \<le> length (tx_entries i es) \<and>
     sum_list (map signed_amount (tx_entries i es)) = 0"

definition ledger_inv :: "'x ledger_db_scheme \<Rightarrow> bool" where
  "ledger_inv s \<longleftrightarrow> ledger_core s \<and> (\<forall>t\<in>set (ltransactions s). balanced_tx (lentries s) (lt_id t))"

lemmas ledger_core_defs = ledger_core_def accounts_ok_def transactions_ok_def entries_ok_def

text \<open>What no ledger operation touches, and what stays as it was.\<close>

definition ledger_frame :: "'x ledger_db_scheme \<Rightarrow> 'x ledger_db_scheme \<Rightarrow> bool" where
  "ledger_frame s s' \<longleftrightarrow> id_src s' = id_src s \<and> clock s' = clock s \<and> users s' = users s \<and>
     assets s' = assets s \<and> deposit_addresses s' = deposit_addresses s \<and>
     ledger_db.more s' = ledger_db.more s"

definition ledger_extends :: "'x ledger_db_scheme \<Rightarrow> 'x ledger_db_scheme \<Rightarrow> bool" where
  "ledger_extends s s' \<longleftrightarrow> ledger_frame s s' \<and> id_next s \<le> id_next s' \<and>
     prefix (ltransactions s) (ltransactions s') \<and> prefix (lentries s) (lentries s')"

lemma ledger_frame_refl [simp]: "ledger_frame s s"
  by (simp add: ledger_frame_def)

lemma ledger_frame_trans: "ledger_frame s t \<Longrightarrow> ledger_frame t u \<Longrightarrow> ledger_frame s u"
  by (simp add: ledger_frame_def)

lemma ledger_extends_refl [simp]: "ledger_extends s s"
  by (simp add: ledger_extends_def)

lemma ledger_extends_trans:
  "ledger_extends s t \<Longrightarrow> ledger_extends t u \<Longrightarrow> ledger_extends s u"
  unfolding ledger_extends_def
  by (meson ledger_frame_trans le_trans prefix_order.trans)

lemma used_ids_fresh: "inj (id_src s) \<Longrightarrow> id_src s (id_next s) \<notin> used_ids s"
  by (auto simp: used_ids_def inj_def)

section \<open>Balances\<close>

definition balance_of :: "'x ledger_db_scheme \<Rightarrow> account_key \<Rightarrow> int" where
  "balance_of s k = (case find (\<lambda>a. acct_key a = k) (accounts s) of
     Some a \<Rightarrow> la_balance a | None \<Rightarrow> 0)"

definition key_of :: "'x ledger_db_scheme \<Rightarrow> uuid \<Rightarrow> account_key option" where
  "key_of s i = map_option acct_key (find (\<lambda>a. la_id a = i) (accounts s))"

definition leg_delta :: "account_key \<Rightarrow> (account_key \<times> direction \<times> amount) \<Rightarrow> int" where
  "leg_delta k leg = (case leg of (k', d, amt) \<Rightarrow>
     if k' = k then natural_delta (normal_balance (fst k)) d amt else 0)"

definition entry_leg :: "'x ledger_db_scheme \<Rightarrow> entry_request \<Rightarrow> account_key \<times> direction \<times> amount" where
  "entry_leg s e = (the (key_of s (er_account e)), er_direction e, er_amount e)"

lemma balance_of_mem:
  "unique_key acct_key (accounts s) \<Longrightarrow> a \<in> set (accounts s) \<Longrightarrow> balance_of s (acct_key a) = la_balance a"
  using find_key_Some [of acct_key "accounts s" "acct_key a" a] by (simp add: balance_of_def)

lemma key_of_mem:
  "unique_key la_id (accounts s) \<Longrightarrow> a \<in> set (accounts s) \<Longrightarrow> key_of s (la_id a) = Some (acct_key a)"
  using find_key_Some [of la_id "accounts s" "la_id a" a] by (simp add: key_of_def)

lemma acct_key_upd [simp]: "acct_key (a\<lparr>la_balance := b\<rparr>) = acct_key a"
  by (simp add: acct_key_def)

section \<open>One entry\<close>

text \<open>The state after a successful \<open>insert_entry\<close> against account \<open>a\<close>.\<close>

definition entry_effect ::
  "uuid \<Rightarrow> entry_request \<Rightarrow> ledger_account \<Rightarrow> 'x ledger_db_scheme \<Rightarrow> 'x ledger_db_scheme" where
  "entry_effect txid e a s =
     (let b = la_balance a + natural_delta (la_normal a) (er_direction e) (er_amount e)
      in s\<lparr>id_next := Suc (id_next s),
           accounts := upd_where (\<lambda>x. la_id x = la_id a) (\<lambda>x. x\<lparr>la_balance := b\<rparr>) (accounts s),
           lentries := lentries s @
             [\<lparr>le_id = id_src s (id_next s), le_tx = txid, le_account = la_id a,
               le_asset = er_asset e, le_amount = er_amount e, le_direction = er_direction e,
               le_balance_after = b, le_created_at = clock s\<rparr>]\<rparr>)"

lemma insert_entry_Inr:
  assumes "insert_entry txid e s = Inr (u, s')"
  obtains a where "a \<in> set (accounts s)" "la_id a = er_account e" "la_asset a = er_asset e"
    "0 < er_amount e"
    "la_allow_negative a \<or> 0 \<le> la_balance a + natural_delta (la_normal a) (er_direction e) (er_amount e)"
    "s' = entry_effect txid e a s"
  using assms
  by (auto simp: insert_entry_def ledger_apply_entry_def gen_uuid_def entry_effect_def tx_simps
      Let_def natural_delta_def split: option.splits if_splits dest!: find_Some_setD)

lemma insert_entry_ok:
  assumes "find (\<lambda>x. la_id x = er_account e) (accounts s) = Some a" "la_asset a = er_asset e"
    "0 < er_amount e"
    "numeric78 (la_balance a + natural_delta (la_normal a) (er_direction e) (er_amount e))"
    "la_allow_negative a \<or> 0 \<le> la_balance a + natural_delta (la_normal a) (er_direction e) (er_amount e)"
  shows "insert_entry txid e s = Inr ((), entry_effect txid e a s)"
proof -
  have "la_id a = er_account e" using assms(1) by (auto dest: find_Some_setD)
  then show ?thesis using assms
    by (auto simp: insert_entry_def ledger_apply_entry_def gen_uuid_def entry_effect_def tx_eval
        Let_def natural_delta_def)
qed

lemma entry_effect_fields [simp]:
  "id_src (entry_effect txid e a s) = id_src s"
  "id_next (entry_effect txid e a s) = Suc (id_next s)"
  "clock (entry_effect txid e a s) = clock s"
  "users (entry_effect txid e a s) = users s"
  "assets (entry_effect txid e a s) = assets s"
  "ltransactions (entry_effect txid e a s) = ltransactions s"
  by (simp_all add: entry_effect_def Let_def)

lemma used_ids_entry_effect [simp]:
  "used_ids (entry_effect txid e a s) = insert (id_src s (id_next s)) (used_ids s)"
  by (simp add: used_ids_def lessThan_Suc)

lemma derived_balance_snoc:
  "derived_balance (es @ [e]) a = derived_balance es a +
     (if le_account e = la_id a then natural_delta (la_normal a) (le_direction e) (le_amount e) else 0)"
  by (simp add: derived_balance_def)

lemma derived_balance_cong [simp]: "derived_balance es (a\<lparr>la_balance := b\<rparr>) = derived_balance es a"
  by (simp add: derived_balance_def)

lemma entry_effect_accounts_ok:
  assumes "accounts_ok s" "a \<in> set (accounts s)"
    "la_allow_negative a \<or> 0 \<le> la_balance a + natural_delta (la_normal a) (er_direction e) (er_amount e)"
  shows "accounts_ok (entry_effect txid e a s)"
proof -
  let ?s = "entry_effect txid e a s"
  let ?b = "la_balance a + natural_delta (la_normal a) (er_direction e) (er_amount e)"
  have acc: "accounts ?s = upd_where (\<lambda>x. la_id x = la_id a) (\<lambda>x. x\<lparr>la_balance := ?b\<rparr>) (accounts s)"
    by (simp add: entry_effect_def Let_def)
  have keys: "unique_key la_id (accounts ?s)" "unique_key acct_key (accounts ?s)"
    "la_id ` set (accounts ?s) \<subseteq> used_ids ?s"
    using assms(1) by (auto simp: acc accounts_ok_def unique_key_upd_where set_upd_where)
  have "account_ok x \<and> la_balance x = derived_balance (lentries ?s) x" if "x \<in> set (accounts ?s)" for x
  proof -
    from that obtain y where y: "y \<in> set (accounts s)"
      and x: "x = (if la_id y = la_id a then y\<lparr>la_balance := ?b\<rparr> else y)"
      by (auto simp: acc set_upd_where)
    have oky: "account_ok y" "la_balance y = derived_balance (lentries s) y"
      using assms(1) y by (auto simp: accounts_ok_def)
    show ?thesis
    proof (cases "la_id y = la_id a")
      case True
      then have "y = a" using assms(1,2) y unique_keyD [of la_id "accounts s" y a]
        by (auto simp: accounts_ok_def)
      then show ?thesis using x oky assms(3)
        by (auto simp: account_ok_def entry_effect_def Let_def derived_balance_snoc)
    next
      case False
      then show ?thesis using x oky
        by (auto simp: entry_effect_def Let_def derived_balance_snoc)
    qed
  qed
  with keys assms(1) show ?thesis by (simp add: accounts_ok_def)
qed

lemma entry_effect_core:
  assumes "ledger_core s" "a \<in> set (accounts s)" "0 < er_amount e"
    "la_allow_negative a \<or> 0 \<le> la_balance a + natural_delta (la_normal a) (er_direction e) (er_amount e)"
    "txid \<in> lt_id ` set (ltransactions s)"
  shows "ledger_core (entry_effect txid e a s)"
proof -
  have "accounts_ok (entry_effect txid e a s)"
    using assms by (simp add: ledger_core_def entry_effect_accounts_ok)
  moreover have "transactions_ok (entry_effect txid e a s)"
    using assms(1) by (auto simp: ledger_core_def transactions_ok_def)
  moreover have "la_id ` set (accounts (entry_effect txid e a s)) = la_id ` set (accounts s)"
    by (simp add: entry_effect_def Let_def image_upd_where)
  then have "entries_ok (entry_effect txid e a s)"
    using assms by (auto simp: ledger_core_def entries_ok_def) (auto simp: entry_effect_def Let_def)
  ultimately show ?thesis by (simp add: ledger_core_def)
qed

lemma balance_of_entry_effect:
  assumes "accounts_ok s" "a \<in> set (accounts s)" "la_id a = er_account e"
  shows "balance_of (entry_effect txid e a s) k = balance_of s k + leg_delta k (entry_leg s e)"
proof -
  have leg: "entry_leg s e = (acct_key a, er_direction e, er_amount e)"
    using assms key_of_mem [of s a] by (auto simp: accounts_ok_def entry_leg_def)
  have norm: "la_normal a = normal_balance (fst (acct_key a))"
    using assms by (auto simp: accounts_ok_def account_ok_def acct_key_def)
  have find: "find (\<lambda>x. acct_key x = k) (accounts (entry_effect txid e a s)) =
     map_option (\<lambda>x. if la_id x = la_id a then x\<lparr>la_balance := la_balance a +
       natural_delta (la_normal a) (er_direction e) (er_amount e)\<rparr> else x)
      (find (\<lambda>x. acct_key x = k) (accounts s))"
    by (simp add: entry_effect_def Let_def find_upd_where)
  show ?thesis
  proof (cases "find (\<lambda>x. acct_key x = k) (accounts s)")
    case None
    then have "acct_key a \<noteq> k" using assms(2) by (auto simp: find_None_set)
    then show ?thesis using None find by (simp add: balance_of_def leg leg_delta_def)
  next
    case (Some x)
    then have x: "x \<in> set (accounts s)" "acct_key x = k" by (auto dest: find_Some_setD)
    have "la_id x = la_id a \<longleftrightarrow> x = a" "acct_key x = acct_key a \<longleftrightarrow> x = a"
      using assms x unique_keyD [of la_id "accounts s" x a] unique_keyD [of acct_key "accounts s" x a]
      by (auto simp: accounts_ok_def)
    then show ?thesis using Some find x norm
      by (auto simp: balance_of_def leg leg_delta_def)
  qed
qed

text \<open>The position of an asset: the signed sum of all balances held in it.\<close>

definition asset_position :: "'x ledger_db_scheme \<Rightarrow> uuid \<Rightarrow> int" where
  "asset_position s x = sum_list (map (\<lambda>a. if la_asset a = x
     then sign (la_normal a) * la_balance a else 0) (accounts s))"

definition req_net :: "uuid \<Rightarrow> entry_request list \<Rightarrow> int" where
  "req_net x es = entries_net (filter (\<lambda>e. er_asset e = x) es)"

lemma sum_list_mset_cong:
  fixes f :: "'a \<Rightarrow> int"
  assumes "mset xs = mset ys"
  shows "sum_list (map f xs) = sum_list (map f ys)"
proof -
  have "sum_mset (image_mset f (mset xs)) = sum_mset (image_mset f (mset ys))" using assms by simp
  then show ?thesis by (simp flip: sum_mset_sum_list)
qed

lemma req_net_ordered: "req_net x (ordered_entries p) = req_net x (p_entries p)"
  unfolding req_net_def entries_net_def by (rule sum_list_mset_cong) simp

lemma sign_natural_delta: "sign n * natural_delta n d amt = sign d * amt"
  by (cases n; cases d) (simp_all add: natural_delta_def)

lemma asset_position_entry_effect:
  assumes "accounts_ok s" "a \<in> set (accounts s)" "la_asset a = er_asset e"
  shows "asset_position (entry_effect txid e a s) x = asset_position s x + req_net x [e]"
proof -
  let ?b = "la_balance a + natural_delta (la_normal a) (er_direction e) (er_amount e)"
  have "asset_position (entry_effect txid e a s) x = asset_position s x +
     ((if la_asset a = x then sign (la_normal a) * ?b else 0) -
      (if la_asset a = x then sign (la_normal a) * la_balance a else 0))"
    using assms sum_list_upd_key [of la_id "accounts s" a
        "\<lambda>a. if la_asset a = x then sign (la_normal a) * la_balance a else 0"
        "\<lambda>y. y\<lparr>la_balance := ?b\<rparr>"]
    by (simp add: asset_position_def entry_effect_def Let_def accounts_ok_def)
  then show ?thesis using assms(3)
    by (cases "er_asset e = x") (simp_all add: req_net_def sign_natural_delta distrib_left)
qed

section \<open>A whole posting\<close>

text \<open>What one run of the entry loop establishes, relative to the state it started in.\<close>

definition entries_posted ::
  "uuid \<Rightarrow> entry_request list \<Rightarrow> 'x ledger_db_scheme \<Rightarrow> 'x ledger_db_scheme \<Rightarrow> bool" where
  "entries_posted txid es s s' \<longleftrightarrow> ledger_core s' \<and> ledger_frame s s' \<and> id_next s \<le> id_next s' \<and>
     ltransactions s' = ltransactions s \<and>
     (\<exists>new. lentries s' = lentries s @ new \<and> (\<forall>e\<in>set new. le_tx e = txid) \<and>
        map (\<lambda>e. (le_direction e, le_amount e)) new = map (\<lambda>e. (er_direction e, er_amount e)) es) \<and>
     (\<forall>i. key_of s' i = key_of s i) \<and>
     (\<forall>k. balance_of s' k = balance_of s k + sum_list (map (leg_delta k \<circ> entry_leg s) es)) \<and>
     (\<forall>x. asset_position s' x = asset_position s x + req_net x es)"

lemma key_of_entry_effect: "key_of (entry_effect txid e a s) i = key_of s i"
proof -
  have "find (\<lambda>x. la_id x = i) (accounts (entry_effect txid e a s)) =
     map_option (\<lambda>x. if la_id x = la_id a then x\<lparr>la_balance := la_balance a +
       natural_delta (la_normal a) (er_direction e) (er_amount e)\<rparr> else x)
      (find (\<lambda>x. la_id x = i) (accounts s))"
    by (simp add: entry_effect_def Let_def find_upd_where)
  then show ?thesis by (cases "find (\<lambda>x. la_id x = i) (accounts s)") (simp_all add: key_of_def)
qed

lemma entry_leg_cong: "(\<And>i. key_of s' i = key_of s i) \<Longrightarrow> entry_leg s' = entry_leg s"
  by (simp add: entry_leg_def fun_eq_iff)

lemma tx_for_entries:
  assumes "tx_for es (insert_entry txid) s = Inr (u, s')" "ledger_core s"
    "txid \<in> lt_id ` set (ltransactions s)"
  shows "entries_posted txid es s s'"
  using assms
proof (induction es arbitrary: s)
  case Nil
  then show ?case
    by (auto simp: tx_simps entries_posted_def req_net_def)
next
  case (Cons e es)
  from Cons.prems(1) obtain v s1 where e: "insert_entry txid e s = Inr (v, s1)"
    and es: "tx_for es (insert_entry txid) s1 = Inr (u, s')"
    by (auto simp: tx_simps)
  from insert_entry_Inr [OF e] obtain a where a: "a \<in> set (accounts s)" "la_id a = er_account e"
    "la_asset a = er_asset e" "0 < er_amount e"
    "la_allow_negative a \<or> 0 \<le> la_balance a + natural_delta (la_normal a) (er_direction e) (er_amount e)"
    and s1: "s1 = entry_effect txid e a s" .
  have ok: "accounts_ok s" using Cons.prems(2) by (simp add: ledger_core_def)
  have core1: "ledger_core s1" using Cons.prems a s1 entry_effect_core by blast
  then have IH: "entries_posted txid es s1 s'" using Cons s1 es by auto
  have leg: "entry_leg s1 = entry_leg s"
    using entry_leg_cong [of s1 s] by (simp add: s1 key_of_entry_effect)
  from IH obtain new where new: "lentries s' = lentries s1 @ new" "\<forall>e\<in>set new. le_tx e = txid"
    "map (\<lambda>e. (le_direction e, le_amount e)) new = map (\<lambda>e. (er_direction e, er_amount e)) es"
    by (auto simp: entries_posted_def)
  obtain n1 where n1: "lentries s1 = lentries s @ [n1]" "le_tx n1 = txid"
    "le_direction n1 = er_direction e" "le_amount n1 = er_amount e"
    by (auto simp: s1 entry_effect_def Let_def)
  have ex: "\<exists>new. lentries s' = lentries s @ new \<and> (\<forall>e\<in>set new. le_tx e = txid) \<and>
      map (\<lambda>e. (le_direction e, le_amount e)) new = map (\<lambda>e. (er_direction e, er_amount e)) (e # es)"
    using new n1 by (intro exI [of _ "n1 # new"]) auto
  have frame: "ledger_frame s s1"
    by (simp add: s1 ledger_frame_def entry_effect_def Let_def)
  show ?case unfolding entries_posted_def
  proof (intro conjI allI)
    show "ledger_frame s s'" using IH frame ledger_frame_trans unfolding entries_posted_def by blast
    show "balance_of s' k = balance_of s k + sum_list (map (leg_delta k \<circ> entry_leg s) (e # es))" for k
      using IH leg balance_of_entry_effect [OF ok a(1,2), of txid k] s1
      by (simp add: entries_posted_def del: split_paired_All)
    show "asset_position s' x = asset_position s x + req_net x (e # es)" for x
      using IH asset_position_entry_effect [OF ok a(1,3)] s1
      by (simp add: entries_posted_def req_net_def)
  qed (use IH ex s1 in \<open>simp_all add: entries_posted_def key_of_entry_effect\<close>)
qed

lemma sum_signed_map:
  "map (\<lambda>e. (le_direction e, le_amount e)) new = map (\<lambda>e. (er_direction e, er_amount e)) es \<Longrightarrow>
   sum_list (map signed_amount new) = entries_net es"
proof (induction new arbitrary: es)
  case Nil
  then show ?case by simp
next
  case (Cons n new)
  then obtain e es' where "es = e # es'" by (cases es) auto
  with Cons show ?case by (cases "le_direction n") (auto simp: signed_amount_def)
qed

text \<open>The two outcomes of a successful \<open>post_transaction\<close>.\<close>

definition posted_new ::
  "posting \<Rightarrow> ledger_transaction \<Rightarrow> 'x ledger_db_scheme \<Rightarrow> 'x ledger_db_scheme \<Rightarrow> bool" where
  "posted_new p t s s' \<longleftrightarrow> ledger_inv s' \<and> ledger_frame s s' \<and> id_next s \<le> id_next s' \<and>
     lt_key t = p_key p \<and> p_key p \<notin> lt_key ` set (ltransactions s) \<and>
     ltransactions s' = ltransactions s @ [t] \<and> prefix (lentries s) (lentries s') \<and>
     (\<forall>i. key_of s' i = key_of s i) \<and>
     (\<forall>k. balance_of s' k = balance_of s k + sum_list (map (leg_delta k \<circ> entry_leg s) (p_entries p))) \<and>
     (\<forall>x. asset_position s' x = asset_position s x + req_net x (p_entries p))"

lemma insert_transaction_core:
  assumes "insert_transaction p s = Inr (Some t, s1)" "ledger_inv s"
  shows "ledger_core s1 \<and> ltransactions s1 = ltransactions s @ [t] \<and> lentries s1 = lentries s \<and>
     accounts s1 = accounts s \<and> lt_key t = p_key p \<and> p_key p \<notin> lt_key ` set (ltransactions s) \<and>
     lt_id t \<notin> lt_id ` set (ltransactions s) \<and> ledger_frame s s1 \<and> id_next s \<le> id_next s1"
proof -
  have inv: "accounts_ok s" "transactions_ok s" "entries_ok s"
    using assms(2) by (auto simp: ledger_inv_def ledger_core_def)
  have new: "p_key p \<notin> lt_key ` set (ltransactions s)" "lt_key t = p_key p"
    "lt_id t = id_src s (id_next s)"
    "s1 = s\<lparr>id_next := Suc (id_next s), ltransactions := ltransactions s @ [t]\<rparr>"
    using assms(1)
    by (auto simp: insert_transaction_def gen_uuid_def tx_simps Let_def split: if_splits)
  have used: "used_ids s1 = insert (lt_id t) (used_ids s)"
    by (simp add: new used_ids_def lessThan_Suc)
  have fresh: "lt_id t \<notin> lt_id ` set (ltransactions s)"
    using inv used_ids_fresh [of s] new(3) by (auto simp: accounts_ok_def transactions_ok_def)
  have "accounts_ok s1" using inv(1) used new(4) by (auto simp: accounts_ok_def)
  moreover have "transactions_ok s1"
    using inv(2) used new fresh by (auto simp: transactions_ok_def unique_key_append)
  moreover have "entries_ok s1" using inv(3) new(4) by (auto simp: entries_ok_def)
  ultimately show ?thesis using new fresh by (simp add: ledger_core_def ledger_frame_def)
qed

lemma balanced_tx_other:
  "(\<forall>e\<in>set new. le_tx e = i) \<Longrightarrow> j \<noteq> i \<Longrightarrow> balanced_tx (es @ new) j = balanced_tx es j"
  by (auto simp: balanced_tx_def tx_entries_def filter_empty_conv)

lemma balanced_tx_new:
  assumes "\<forall>e\<in>set new. le_tx e = i" "\<forall>e\<in>set es. le_tx e \<noteq> i" "2 \<le> length new"
    "sum_list (map signed_amount new) = 0"
  shows "balanced_tx (es @ new) i"
proof -
  have "tx_entries i (es @ new) = new"
    using assms(1,2) by (auto simp: tx_entries_def filter_empty_conv intro: filter_True)
  then show ?thesis using assms by (simp add: balanced_tx_def)
qed

lemma post_transaction_cases:
  assumes "post_transaction p s = Inr (r, s')" "ledger_inv s"
  shows "(\<exists>t. r = AlreadyPosted t \<and> t \<in> set (ltransactions s) \<and> lt_key t = p_key p \<and> s' = s) \<or>
         (\<exists>t. r = Posted t \<and> posted_new p t s s')"
proof -
  from assms(1) obtain ins s1 where v: "validate p = Inr ()" and ins: "insert_transaction p s = Inr (ins, s1)"
    and rest: "(case ins of
          None \<Rightarrow> tx_bind (get_transaction_by_key (p_key p)) (\<lambda>t. tx_return (AlreadyPosted t))
        | Some t \<Rightarrow> tx_then (tx_for (ordered_entries p) (insert_entry (lt_id t))) (tx_return (Posted t)))
        s1 = Inr (r, s')"
    by (auto simp: post_transaction_def tx_simps)
  show ?thesis
  proof (cases ins)
    case None
    with ins have "s1 = s"
      by (auto simp: insert_transaction_def gen_uuid_def tx_eval Let_def split: if_splits)
    with rest None show ?thesis
      by (auto simp: tx_simps get_transaction_by_key_def split: option.splits dest!: find_Some_setD)
  next
    case (Some t)
    note i = insert_transaction_core [OF ins [unfolded Some] assms(2)]
    from rest Some obtain u where loop: "tx_for (ordered_entries p) (insert_entry (lt_id t)) s1 = Inr (u, s')"
      and r: "r = Posted t"
      by (auto simp: tx_simps)
    have ep: "entries_posted (lt_id t) (ordered_entries p) s1 s'"
      using tx_for_entries [OF loop] i by simp
    then obtain new where new: "lentries s' = lentries s @ new" "\<forall>e\<in>set new. le_tx e = lt_id t"
      "map (\<lambda>e. (le_direction e, le_amount e)) new = map (\<lambda>e. (er_direction e, er_amount e)) (ordered_entries p)"
      using i by (auto simp: entries_posted_def)
    have "length new = length (p_entries p)"
      using arg_cong [OF new(3), of length] by simp
    moreover have "entries_net (ordered_entries p) = 0"
      using validate_balanced [OF v] by (simp add: entries_net_def sum_list_ordered_entries)
    moreover have "\<forall>e\<in>set (lentries s). le_tx e \<noteq> lt_id t"
      using i assms(2) unfolding ledger_inv_def ledger_core_def entries_ok_def by metis
    ultimately have bal: "balanced_tx (lentries s') (lt_id t)"
      using new v sum_signed_map [OF new(3)] by (auto simp: validate_Inr intro!: balanced_tx_new)
    have "balanced_tx (lentries s') (lt_id t')" if "t' \<in> set (ltransactions s')" for t'
    proof (cases "t' = t")
      case False
      with that ep i have t': "t' \<in> set (ltransactions s)" by (auto simp: entries_posted_def)
      with i have "lt_id t' \<noteq> lt_id t" by (metis imageI)
      then show ?thesis
        using assms(2) t' new(1) by (simp add: ledger_inv_def balanced_tx_other [OF new(2)])
    qed (use bal in simp)
    then have inv: "ledger_inv s'" using ep by (simp add: entries_posted_def ledger_inv_def)
    have keys: "key_of s1 j = key_of s j" for j using i by (simp add: key_of_def)
    then have leg: "entry_leg s1 = entry_leg s" by (rule entry_leg_cong)
    have "balance_of s1 k = balance_of s k" "asset_position s1 x = asset_position s x" for k x
      using i by (simp_all add: balance_of_def asset_position_def)
    then have "posted_new p t s s'"
      using ep inv i new(1) keys leg ledger_frame_trans [of s s1 s']
      by (auto simp: posted_new_def entries_posted_def sum_list_ordered_entries req_net_ordered)
    with r show ?thesis by blast
  qed
qed

section \<open>Account resolution\<close>

text \<open>What resolving an account establishes: it may add an empty account, nothing else.\<close>

definition resolved ::
  "account_key \<Rightarrow> uuid \<Rightarrow> 'x ledger_db_scheme \<Rightarrow> 'x ledger_db_scheme \<Rightarrow> bool" where
  "resolved k i s s' \<longleftrightarrow> ledger_inv s' \<and> ledger_frame s s' \<and> id_next s \<le> id_next s' \<and>
     ltransactions s' = ltransactions s \<and> lentries s' = lentries s \<and>
     key_of s' i = Some k \<and> (\<forall>j k'. key_of s j = Some k' \<longrightarrow> key_of s' j = Some k') \<and>
     (\<forall>k. balance_of s' k = balance_of s k) \<and> (\<forall>x. asset_position s' x = asset_position s x)"

lemma select_account_Some:
  assumes "select_account k s = Inr (Some i, s')" "ledger_inv s"
  shows "resolved k i s s'"
proof -
  from assms(1) obtain a where a: "find (\<lambda>a. acct_key a = k) (accounts s) = Some a" "la_id a = i" "s' = s"
    by (cases "find (\<lambda>a. acct_key a = k) (accounts s)") (auto simp: select_account_def tx_simps)
  then have m: "a \<in> set (accounts s)" "acct_key a = k" by (auto dest: find_Some_setD)
  with a assms(2) have "key_of s i = Some k"
    using key_of_mem [of s a] by (auto simp: ledger_inv_def ledger_core_def accounts_ok_def)
  with a assms(2) show ?thesis by (simp add: resolved_def)
qed

lemma derived_balance_no_entries:
  assumes "\<And>e. e \<in> set es \<Longrightarrow> le_account e \<noteq> la_id a"
  shows "derived_balance es a = 0"
proof -
  have "filter (\<lambda>e. le_account e = la_id a) es = []"
    using assms by (simp add: filter_empty_conv)
  then show ?thesis by (simp add: derived_balance_def)
qed

lemma insert_account_Some:
  assumes "insert_account t owner asset s = Inr (Some i, s')" "ledger_inv s"
  shows "resolved (t, owner, asset) i s s'"
proof -
  let ?a = "\<lparr>la_id = i, la_type = t, la_owner = owner, la_asset = asset,
     la_normal = normal_balance t, la_balance = 0, la_allow_negative = allows_negative t\<rparr>"
  have inv: "accounts_ok s" "transactions_ok s" "entries_ok s"
    using assms(2) by (auto simp: ledger_inv_def ledger_core_def)
  have new: "is_user_scoped t = (owner \<noteq> None)" "(t, owner, asset) \<notin> acct_key ` set (accounts s)"
    "i = id_src s (id_next s)"
    "s' = s\<lparr>id_next := Suc (id_next s), accounts := accounts s @ [?a]\<rparr>"
    using assms(1)
    by (force simp: insert_account_def gen_uuid_def tx_simps Let_def split: if_splits option.splits)+
  have used: "used_ids s' = insert i (used_ids s)"
    by (simp add: new used_ids_def lessThan_Suc)
  have fresh: "i \<notin> la_id ` set (accounts s)"
    using inv used_ids_fresh [of s] new(3) by (auto simp: accounts_ok_def)
  have keya: "acct_key ?a = (t, owner, asset)" by (simp add: acct_key_def)
  have "derived_balance (lentries s) ?a = 0"
    using inv(3) fresh by (intro derived_balance_no_entries) (auto simp: entries_ok_def)
  then have "accounts_ok s'"
    using inv(1) used new fresh keya
    by (auto simp: accounts_ok_def unique_key_append account_ok_def)
  moreover have "transactions_ok s'" using inv(2) used new(4) by (auto simp: transactions_ok_def)
  moreover have "entries_ok s'" using inv(3) new(4) by (auto simp: entries_ok_def)
  ultimately have "ledger_inv s'"
    using assms(2) new(4) by (simp add: ledger_inv_def ledger_core_def)
  moreover have "key_of s' i = Some (t, owner, asset)"
    using key_of_mem [of s' ?a] \<open>accounts_ok s'\<close> new(4) keya by (auto simp: accounts_ok_def)
  moreover have "key_of s' j = Some k" if "key_of s j = Some k" for j k
    using that by (auto simp: key_of_def new(4) find_append split: option.splits)
  moreover have "balance_of s' k = balance_of s k" for k
    by (auto simp: balance_of_def new(4) find_append split: option.splits)
  moreover have "asset_position s' x = asset_position s x" for x
    by (simp add: asset_position_def new(4))
  ultimately show ?thesis using new(4) by (simp add: resolved_def ledger_frame_def)
qed

lemma resolve_account_Inr:
  assumes "resolve_account t owner asset s = Inr (i, s')" "ledger_inv s"
  shows "resolved (t, owner, asset) i s s'"
proof (cases "find (\<lambda>a. acct_key a = (t, owner, asset)) (accounts s)")
  case None
  then have none: "select_account (t, owner, asset) s = Inr (None, s)"
    by (simp add: select_account_def tx_read_def)
  from assms(1) obtain c s1 where c: "insert_account t owner asset s = Inr (c, s1)"
    by (auto simp: resolve_account_def tx_simps none)
  have "c \<noteq> None"
  proof
    assume "c = None"
    with c have "\<exists>a\<in>set (accounts s). acct_key a = (t, owner, asset)"
      by (auto simp: insert_account_def gen_uuid_def tx_simps split: if_splits option.splits)
    with None show False by (auto simp: find_None_set)
  qed
  then obtain j where j: "c = Some j" by blast
  with assms(1) c none have "i = j \<and> s' = s1" by (auto simp: resolve_account_def tx_simps)
  with c j show ?thesis using insert_account_Some assms(2) by blast
next
  case (Some a)
  then have "select_account (t, owner, asset) s = Inr (Some (la_id a), s)"
    by (simp add: select_account_def tx_read_def)
  then show ?thesis
    using assms select_account_Some [of "(t, owner, asset)" s "la_id a" s]
    by (auto simp: resolve_account_def tx_eval)
qed

lemma user_account_Inr:
  "user_account t u asset s = Inr (i, s') \<Longrightarrow> ledger_inv s \<Longrightarrow> resolved (t, Some u, asset) i s s'"
  by (auto simp: user_account_def tx_simps resolve_account_Inr split: if_splits)

lemma system_account_Inr:
  "system_account t asset s = Inr (i, s') \<Longrightarrow> ledger_inv s \<Longrightarrow> resolved (t, None, asset) i s s'"
  by (auto simp: system_account_def tx_simps resolve_account_Inr split: if_splits)

text \<open>Resolution succeeds for every known owner and asset.\<close>

lemma resolve_account_ok:
  assumes "is_user_scoped t \<longleftrightarrow> owner \<noteq> None" "asset \<in> as_id ` set (assets s)"
    "case owner of None \<Rightarrow> True | Some u \<Rightarrow> u \<in> u_id ` set (users s)"
  obtains i s' where "resolve_account t owner asset s = Inr (i, s')"
proof (cases "find (\<lambda>a. acct_key a = (t, owner, asset)) (accounts s)")
  case None
  then have "\<not> (\<exists>a\<in>set (accounts s). acct_key a = (t, owner, asset))" by (auto simp: find_None_set)
  with None assms have "\<exists>i s'. resolve_account t owner asset s = Inr (i, s')"
    by (auto simp: resolve_account_def select_account_def insert_account_def gen_uuid_def tx_eval
        split: option.splits)
  then show ?thesis using that by blast
next
  case (Some a)
  then have "resolve_account t owner asset s = Inr (la_id a, s)"
    by (simp add: resolve_account_def select_account_def tx_eval)
  then show ?thesis using that by blast
qed

section \<open>The abstract ledger\<close>

record aledger =
  a_bal :: "account_key \<Rightarrow> int"
  a_posted :: "string set"

definition abs_ledger :: "'x ledger_db_scheme \<Rightarrow> aledger" where
  "abs_ledger s = \<lparr>a_bal = balance_of s, a_posted = lt_key ` set (ltransactions s)\<rparr>"

definition apost :: "string \<Rightarrow> (account_key \<times> direction \<times> amount) list \<Rightarrow> aledger \<Rightarrow> aledger" where
  "apost key legs L =
     (if key \<in> a_posted L then L
      else \<lparr>a_bal = (\<lambda>k. a_bal L k + sum_list (map (leg_delta k) legs)),
            a_posted = insert key (a_posted L)\<rparr>)"

text \<open>
  What a ledger operation that posts \<open>legs\<close> under \<open>key\<close> guarantees when it returns \<open>r\<close>: the
  invariant, append-only history, the abstract effect, at most one posting per key, and no
  change of an asset's position when the legs balance in that asset.
\<close>

definition posts ::
  "string \<Rightarrow> (account_key \<times> direction \<times> amount) list \<Rightarrow> post_result \<Rightarrow>
   'x ledger_db_scheme \<Rightarrow> 'x ledger_db_scheme \<Rightarrow> bool" where
  "posts key legs r s s' \<longleftrightarrow> ledger_inv s' \<and> ledger_extends s s' \<and>
     abs_ledger s' = apost key legs (abs_ledger s) \<and>
     lt_key (post_result_transaction r) = key \<and> post_result_transaction r \<in> set (ltransactions s') \<and>
     (was_posted r \<longleftrightarrow> key \<notin> a_posted (abs_ledger s)) \<and>
     (\<forall>x. asset_position s' x = asset_position s x)"

lemma resolved_abs: "resolved k i s s' \<Longrightarrow> abs_ledger s' = abs_ledger s"
  by (auto simp: resolved_def abs_ledger_def fun_eq_iff)

lemma resolved_extends: "resolved k i s s' \<Longrightarrow> ledger_extends s s'"
  by (auto simp: resolved_def ledger_extends_def)

lemma posts_after_resolved:
  "resolved k i s s1 \<Longrightarrow> posts key legs r s1 s' \<Longrightarrow> posts key legs r s s'"
  using resolved_abs [of k i s s1] resolved_extends [of k i s s1] ledger_extends_trans [of s s1 s']
  by (auto simp: posts_def resolved_def)

lemma post_transaction_posts:
  assumes "post_transaction p s = Inr (r, s')" "ledger_inv s" "p_key p = key"
    "map (entry_leg s) (p_entries p) = legs" "\<And>e. e \<in> set (p_entries p) \<Longrightarrow> er_asset e = x"
  shows "posts key legs r s s'"
proof -
  have v: "validate p = Inr ()" using assms(1) by (auto simp: post_transaction_def tx_simps)
  have net0: "req_net y (p_entries p) = 0" for y
  proof (cases "y = x")
    case True
    then have "filter (\<lambda>e. er_asset e = y) (p_entries p) = p_entries p"
      using assms(5) by (auto intro: filter_True)
    then show ?thesis using validate_balanced [OF v] by (simp add: req_net_def)
  next
    case False
    then have "filter (\<lambda>e. er_asset e = y) (p_entries p) = []"
      using assms(5) by (auto simp: filter_empty_conv)
    then show ?thesis by (simp add: req_net_def)
  qed
  from post_transaction_cases [OF assms(1,2)] show ?thesis
  proof (elim disjE exE conjE)
    fix t assume "r = AlreadyPosted t" "t \<in> set (ltransactions s)" "lt_key t = p_key p" "s' = s"
    then show ?thesis using assms(2,3) by (auto simp: posts_def apost_def abs_ledger_def)
  next
    fix t assume r: "r = Posted t" and n: "posted_new p t s s'"
    have "balance_of s' k = balance_of s k + sum_list (map (leg_delta k) legs)" for k
      using n assms(4) by (auto simp: posted_new_def simp del: split_paired_All)
    with r n assms(3) net0 show ?thesis
      by (auto simp: posts_def apost_def abs_ledger_def posted_new_def ledger_extends_def fun_eq_iff)
  qed
qed

end
