(* ===== verification/Ledger_Ops.thy ===== *)
theory Ledger_Ops
  imports Ledger_Inv
begin

text \<open>
  The named ledger operations (\<open>crates/ledger/src/operations.rs\<close>), one definition per function,
  and the interface they share: the locale \<open>posting_operation\<close> says that a successful
  operation posts fixed legs under its natural key. Every operation is interpreted in it, so
  preservation of the invariant, append-only history and at-most-once posting are proved once.
\<close>

section \<open>The operations\<close>

definition require_positive :: "amount \<Rightarrow> unit res" where
  "require_positive amt =
     (if is_positive amt then Inr ()
      else Inl (InvalidAmount (''posting amount must be positive, got '' @ display_amount amt)))"

definition credit_deposit ::
  "uuid \<Rightarrow> uuid \<Rightarrow> uuid \<Rightarrow> amount \<Rightarrow> string option \<Rightarrow> ('x ledger_db_scheme, post_result) db_tx" where
  "credit_deposit deposit user asset amt corr =
     tx_then (tx_lift (require_positive amt))
     (tx_bind (system_account ExchangeCustody asset) (\<lambda>custody.
      tx_bind (user_account UserAvailable user asset) (\<lambda>available.
      post_transaction
        (posting_credit available asset amt
        (posting_debit custody asset amt
        (with_description ''deposit credited after confirmation''
        (with_correlation corr
        (posting_new DepositCredit RefDeposit (Some deposit) (''deposit_credit:'' @ deposit)))))))))"

definition reverse_deposit_credit ::
  "uuid \<Rightarrow> uuid \<Rightarrow> uuid \<Rightarrow> amount \<Rightarrow> string option \<Rightarrow> ('x ledger_db_scheme, post_result) db_tx" where
  "reverse_deposit_credit deposit user asset amt corr =
     tx_then (tx_lift (require_positive amt))
     (tx_bind (system_account ExchangeCustody asset) (\<lambda>custody.
      tx_bind (user_account UserAvailable user asset) (\<lambda>available.
      tx_bind (lock_user_account UserAvailable user asset) (\<lambda>locked.
      let current = (case locked of Some a \<Rightarrow> la_balance a | None \<Rightarrow> 0);
          from_available = (if amt \<le> current then amt else max current 0)
      in tx_bind (tx_lift (checked_sub amt from_available)) (\<lambda>shortfall.
      let p0 = posting_credit custody asset amt
                 (with_description ''credited deposit invalidated by chain reorganisation''
                 (with_correlation corr
                 (posting_new DepositReversal RefReorg (Some deposit)
                    (''deposit_reversal:'' @ deposit))));
          p1 = (if is_positive from_available
                then posting_debit available asset from_available p0 else p0)
      in if is_positive shortfall
         then tx_bind (user_account UserDeficit user asset) (\<lambda>deficit.
                post_transaction (posting_debit deficit asset shortfall p1))
         else post_transaction p1)))))"

definition reserve_withdrawal ::
  "uuid \<Rightarrow> uuid \<Rightarrow> uuid \<Rightarrow> amount \<Rightarrow> string option \<Rightarrow> ('x ledger_db_scheme, post_result) db_tx" where
  "reserve_withdrawal wid user asset amt corr =
     tx_then (tx_lift (require_positive amt))
     (tx_bind (user_account UserAvailable user asset) (\<lambda>available.
      tx_bind (user_account UserReserved user asset) (\<lambda>reserved.
      tx_bind (lock_user_account UserAvailable user asset) (\<lambda>locked.
      let current = (case locked of Some a \<Rightarrow> la_balance a | None \<Rightarrow> 0)
      in if current < amt
         then tx_fail (InsufficientBalance (display_amount current) (display_amount amt))
         else post_transaction
           (posting_credit reserved asset amt
           (posting_debit available asset amt
           (with_description ''funds reserved for withdrawal''
           (with_correlation corr
           (posting_new WithdrawalReserve RefWithdrawal (Some wid)
              (''withdrawal_reserve:'' @ wid))))))))))"

definition release_reservation ::
  "uuid \<Rightarrow> uuid \<Rightarrow> uuid \<Rightarrow> amount \<Rightarrow> string option \<Rightarrow> ('x ledger_db_scheme, post_result) db_tx" where
  "release_reservation wid user asset amt corr =
     tx_then (tx_lift (require_positive amt))
     (tx_bind (user_account UserAvailable user asset) (\<lambda>available.
      tx_bind (user_account UserReserved user asset) (\<lambda>reserved.
      post_transaction
        (posting_credit available asset amt
        (posting_debit reserved asset amt
        (with_description ''withdrawal cancelled or failed before broadcast''
        (with_correlation corr
        (posting_new WithdrawalRelease RefWithdrawal (Some wid)
           (''withdrawal_release:'' @ wid)))))))))"

definition record_broadcast ::
  "uuid \<Rightarrow> uuid \<Rightarrow> amount \<Rightarrow> string option \<Rightarrow> ('x ledger_db_scheme, post_result) db_tx" where
  "record_broadcast wid asset amt corr =
     tx_then (tx_lift (require_positive amt))
     (tx_bind (system_account ExchangeCustody asset) (\<lambda>custody.
      tx_bind (system_account WithdrawalClearing asset) (\<lambda>clearing.
      post_transaction
        (posting_credit custody asset amt
        (posting_debit clearing asset amt
        (with_description ''withdrawal transaction broadcast''
        (with_correlation corr
        (posting_new WithdrawalBroadcastKind RefWithdrawal (Some wid)
           (''withdrawal_broadcast:'' @ wid)))))))))"

definition settle_withdrawal ::
  "uuid \<Rightarrow> uuid \<Rightarrow> uuid \<Rightarrow> amount \<Rightarrow> string option \<Rightarrow> ('x ledger_db_scheme, post_result) db_tx" where
  "settle_withdrawal wid user asset amt corr =
     tx_then (tx_lift (require_positive amt))
     (tx_bind (user_account UserReserved user asset) (\<lambda>reserved.
      tx_bind (system_account WithdrawalClearing asset) (\<lambda>clearing.
      post_transaction
        (posting_credit clearing asset amt
        (posting_debit reserved asset amt
        (with_description ''withdrawal confirmed on chain''
        (with_correlation corr
        (posting_new WithdrawalSettle RefWithdrawal (Some wid)
           (''withdrawal_settle:'' @ wid)))))))))"

definition reverse_broadcast ::
  "uuid \<Rightarrow> uuid \<Rightarrow> amount \<Rightarrow> string option \<Rightarrow> ('x ledger_db_scheme, post_result) db_tx" where
  "reverse_broadcast wid asset amt corr =
     tx_then (tx_lift (require_positive amt))
     (tx_bind (system_account ExchangeCustody asset) (\<lambda>custody.
      tx_bind (system_account WithdrawalClearing asset) (\<lambda>clearing.
      post_transaction
        (posting_credit clearing asset amt
        (posting_debit custody asset amt
        (with_description ''broadcast transaction failed on chain; value returned to custody''
        (with_correlation corr
        (posting_new WithdrawalBroadcastReversal RefWithdrawal (Some wid)
           (''withdrawal_broadcast_reversal:'' @ wid)))))))))"

definition record_network_fee ::
  "uuid \<Rightarrow> uuid \<Rightarrow> amount \<Rightarrow> string option \<Rightarrow> ('x ledger_db_scheme, post_result option) db_tx" where
  "record_network_fee wid native fee corr =
     (if fee = 0 then tx_return None
      else tx_then (tx_lift (require_positive fee))
        (tx_bind (system_account ExchangeCustody native) (\<lambda>custody.
         tx_bind (system_account NetworkFeeAccount native) (\<lambda>fee_account.
         tx_bind (post_transaction
           (posting_credit custody native fee
           (posting_debit fee_account native fee
           (with_description ''gas paid for withdrawal''
           (with_correlation corr
           (posting_new NetworkFeeKind RefWithdrawal (Some wid) (''network_fee:'' @ wid)))))))
         (\<lambda>r. tx_return (Some r))))))"

definition fund_custody ::
  "uuid \<Rightarrow> amount \<Rightarrow> string \<Rightarrow> string option \<Rightarrow> ('x ledger_db_scheme, post_result) db_tx" where
  "fund_custody asset amt reference corr =
     tx_then (tx_lift (require_positive amt))
     (tx_bind (system_account ExchangeCustody asset) (\<lambda>custody.
      tx_bind (system_account Treasury asset) (\<lambda>treasury.
      post_transaction
        (posting_credit treasury asset amt
        (posting_debit custody asset amt
        (with_description ''hot wallet funded from exchange treasury''
        (with_correlation corr
        (posting_new Adjustment RefManual None (''custody_funding:'' @ reference)))))))))"

section \<open>The shared interface\<close>

text \<open>
  The two facts every operation's proof needs: the accounts it resolved keep their keys
  through later resolutions, and a posting on them has the legs of those keys.
\<close>

lemma resolved_key_kept: "resolved k i s s1 \<Longrightarrow> resolved k' j s1 s2 \<Longrightarrow> key_of s2 i = Some k"
  by (auto simp: resolved_def simp del: split_paired_All)

lemma resolved_inv: "resolved k i s s' \<Longrightarrow> ledger_inv s'"
  by (simp add: resolved_def)

lemma resolved_key: "resolved k i s s' \<Longrightarrow> key_of s' i = Some k"
  by (simp add: resolved_def)

lemma two_leg_posts:
  assumes "resolved k i s s1" "resolved k' j s1 s2" "post_transaction p s2 = Inr (r, s')"
    "p_key p = key" "map er_asset (p_entries p) = [x, x]"
    "map (\<lambda>e. (er_account e, er_direction e, er_amount e)) (p_entries p) = [(c, d, m), (c', d', m')]"
    "{(c, kc), (c', kc')} = {(i, k), (j, k')}"
  shows "posts key [(kc, d, m), (kc', d', m')] r s s'"
proof -
  have keys: "key_of s2 i = Some k" "key_of s2 j = Some k'"
    using assms(1,2) resolved_key_kept resolved_key by blast+
  have "length (p_entries p) = 2" using arg_cong [OF assms(5), of length] by simp
  then obtain e e' where pe: "p_entries p = [e, e']"
    by (auto simp: numeral_2_eq_2 length_Suc_conv)
  have e: "er_account e = c" "er_direction e = d" "er_amount e = m"
    "er_account e' = c'" "er_direction e' = d'" "er_amount e' = m'"
    "er_asset e = x" "er_asset e' = x"
    using assms(5,6) by (simp_all add: pe)
  have "key_of s2 c = Some kc" "key_of s2 c' = Some kc'"
    using keys assms(7) by (auto simp: doubleton_eq_iff)
  then have legs: "map (entry_leg s2) (p_entries p) = [(kc, d, m), (kc', d', m')]"
    using e by (simp add: pe entry_leg_def)
  have assets: "er_asset y = x" if "y \<in> set (p_entries p)" for y
    using that e by (auto simp: pe)
  have "posts key [(kc, d, m), (kc', d', m')] r s2 s'"
    by (rule post_transaction_posts [OF assms(3) resolved_inv [OF assms(2)] assms(4) legs assets])
  then show ?thesis
    by (rule posts_after_resolved [OF assms(1) posts_after_resolved [OF assms(2)]])
qed

locale posting_operation =
  fixes op :: "'a \<Rightarrow> ('x ledger_db_scheme, post_result) db_tx"
    and key :: "'a \<Rightarrow> string"
    and legs :: "'a \<Rightarrow> 'x ledger_db_scheme \<Rightarrow> (account_key \<times> direction \<times> amount) list"
  assumes op_posts: "ledger_inv s \<Longrightarrow> op a s = Inr (r, s') \<Longrightarrow> posts (key a) (legs a s) r s s'"
begin

lemma op_inv: "ledger_inv s \<Longrightarrow> op a s = Inr (r, s') \<Longrightarrow> ledger_inv s'"
  using op_posts by (auto simp: posts_def)

lemma op_extends: "ledger_inv s \<Longrightarrow> op a s = Inr (r, s') \<Longrightarrow> ledger_extends s s'"
  using op_posts by (auto simp: posts_def)

lemma op_refines:
  "ledger_inv s \<Longrightarrow> op a s = Inr (r, s') \<Longrightarrow> abs_ledger s' = apost (key a) (legs a s) (abs_ledger s)"
  using op_posts by (auto simp: posts_def)

lemma op_position:
  "ledger_inv s \<Longrightarrow> op a s = Inr (r, s') \<Longrightarrow> asset_position s' x = asset_position s x"
  using op_posts by (auto simp: posts_def)

text \<open>A second run under the same key, whenever it returns, changes no balance and names the
  transaction of the first.\<close>

lemma op_at_most_once:
  assumes "ledger_inv s" "op a s = Inr (r, s1)" "ledger_extends s1 t" "ledger_inv t"
    "op b t = Inr (r', s2)" "key b = key a"
  shows "abs_ledger s2 = abs_ledger t" "post_result_transaction r' = post_result_transaction r"
    "\<not> was_posted r'"
proof -
  note p1 = op_posts [OF assms(1,2)]
  note p2 = op_posts [OF assms(4,5)]
  have mem: "post_result_transaction r \<in> set (ltransactions t)"
    using p1 assms(3) by (auto simp: posts_def ledger_extends_def dest: set_mono_prefix)
  have "lt_key (post_result_transaction r) = key b" using p1 assms(6) by (simp add: posts_def)
  with mem have k: "key b \<in> a_posted (abs_ledger t)"
    by (metis abs_ledger_def aledger.select_convs(2) imageI)
  with p2 show "abs_ledger s2 = abs_ledger t" "\<not> was_posted r'"
    by (auto simp: posts_def apost_def)
  have "post_result_transaction r \<in> set (ltransactions s2)"
    using mem p2 by (auto simp: posts_def ledger_extends_def dest: set_mono_prefix)
  moreover have "lt_key (post_result_transaction r) = lt_key (post_result_transaction r')"
    using p1 p2 assms(6) by (simp add: posts_def)
  ultimately show "post_result_transaction r' = post_result_transaction r"
    using p2 unique_keyD [of lt_key "ltransactions s2"]
    by (auto simp: posts_def ledger_inv_def ledger_core_def transactions_ok_def)
qed

end

section \<open>What each operation posts\<close>

lemma two_accounts_posts:
  assumes "tx_then (tx_lift v) (tx_bind A (\<lambda>i. tx_bind B (\<lambda>j. post_transaction (p i j)))) s = Inr (r, s')"
    "ledger_inv s"
    "\<And>s i s1. A s = Inr (i, s1) \<Longrightarrow> ledger_inv s \<Longrightarrow> resolved k i s s1"
    "\<And>s j s1. B s = Inr (j, s1) \<Longrightarrow> ledger_inv s \<Longrightarrow> resolved k' j s s1"
  shows "\<exists>i j s1 s2. resolved k i s s1 \<and> resolved k' j s1 s2 \<and> post_transaction (p i j) s2 = Inr (r, s')"
proof -
  from assms(1) obtain i s1 j s2 where a: "A s = Inr (i, s1)" and b: "B s1 = Inr (j, s2)"
    and p: "post_transaction (p i j) s2 = Inr (r, s')"
    by (auto simp: tx_simps)
  have r1: "resolved k i s s1" using assms(2,3) a by simp
  then have "resolved k' j s1 s2" by (intro assms(4) [OF b] resolved_inv)
  with r1 p show ?thesis by blast
qed

text \<open>Debit the first resolved account and credit the second, or the other way round.\<close>

lemma debit_credit_posts:
  assumes "tx_then (tx_lift v) (tx_bind A (\<lambda>i. tx_bind B (\<lambda>j.
      post_transaction (posting_credit j x m (posting_debit i x m p0))))) s = Inr (r, s')"
    "ledger_inv s"
    "\<And>s i s1. A s = Inr (i, s1) \<Longrightarrow> ledger_inv s \<Longrightarrow> resolved k i s s1"
    "\<And>s j s1. B s = Inr (j, s1) \<Longrightarrow> ledger_inv s \<Longrightarrow> resolved k' j s s1"
    "p_entries p0 = []" "p_key p0 = key"
  shows "posts key [(k, Debit, m), (k', Credit, m)] r s s'"
proof -
  from two_accounts_posts [OF assms(1-4)] obtain i j s1 s2
    where r: "resolved k i s s1" "resolved k' j s1 s2"
    and p: "post_transaction (posting_credit j x m (posting_debit i x m p0)) s2 = Inr (r, s')"
    by blast
  show ?thesis
    by (rule two_leg_posts [OF r p]) (simp_all add: posting_build_defs assms)
qed

lemma credit_debit_posts:
  assumes "tx_then (tx_lift v) (tx_bind A (\<lambda>i. tx_bind B (\<lambda>j.
      post_transaction (posting_credit i x m (posting_debit j x m p0))))) s = Inr (r, s')"
    "ledger_inv s"
    "\<And>s i s1. A s = Inr (i, s1) \<Longrightarrow> ledger_inv s \<Longrightarrow> resolved k i s s1"
    "\<And>s j s1. B s = Inr (j, s1) \<Longrightarrow> ledger_inv s \<Longrightarrow> resolved k' j s s1"
    "p_entries p0 = []" "p_key p0 = key"
  shows "posts key [(k', Debit, m), (k, Credit, m)] r s s'"
proof -
  from two_accounts_posts [OF assms(1-4)] obtain i j s1 s2
    where r: "resolved k i s s1" "resolved k' j s1 s2"
    and p: "post_transaction (posting_credit i x m (posting_debit j x m p0)) s2 = Inr (r, s')"
    by blast
  show ?thesis
    by (rule two_leg_posts [OF r p]) (auto simp: posting_build_defs assms)
qed

lemmas header_defs = posting_new_def with_correlation_def with_description_def

lemma credit_deposit_posts:
  assumes "ledger_inv s" "credit_deposit dep u x m c s = Inr (r, s')"
  shows "posts (''deposit_credit:'' @ dep)
    [((ExchangeCustody, None, x), Debit, m), ((UserAvailable, Some u, x), Credit, m)] r s s'"
  by (rule debit_credit_posts [OF assms(2) [unfolded credit_deposit_def] assms(1)
        system_account_Inr user_account_Inr]) (simp_all add: header_defs)

lemma release_reservation_posts:
  assumes "ledger_inv s" "release_reservation w u x m c s = Inr (r, s')"
  shows "posts (''withdrawal_release:'' @ w)
    [((UserReserved, Some u, x), Debit, m), ((UserAvailable, Some u, x), Credit, m)] r s s'"
  by (rule credit_debit_posts [OF assms(2) [unfolded release_reservation_def] assms(1)
        user_account_Inr user_account_Inr]) (simp_all add: header_defs)

lemma record_broadcast_posts:
  assumes "ledger_inv s" "record_broadcast w x m c s = Inr (r, s')"
  shows "posts (''withdrawal_broadcast:'' @ w)
    [((WithdrawalClearing, None, x), Debit, m), ((ExchangeCustody, None, x), Credit, m)] r s s'"
  by (rule credit_debit_posts [OF assms(2) [unfolded record_broadcast_def] assms(1)
        system_account_Inr system_account_Inr]) (simp_all add: header_defs)

lemma settle_withdrawal_posts:
  assumes "ledger_inv s" "settle_withdrawal w u x m c s = Inr (r, s')"
  shows "posts (''withdrawal_settle:'' @ w)
    [((UserReserved, Some u, x), Debit, m), ((WithdrawalClearing, None, x), Credit, m)] r s s'"
  by (rule debit_credit_posts [OF assms(2) [unfolded settle_withdrawal_def] assms(1)
        user_account_Inr system_account_Inr]) (simp_all add: header_defs)

lemma reverse_broadcast_posts:
  assumes "ledger_inv s" "reverse_broadcast w x m c s = Inr (r, s')"
  shows "posts (''withdrawal_broadcast_reversal:'' @ w)
    [((ExchangeCustody, None, x), Debit, m), ((WithdrawalClearing, None, x), Credit, m)] r s s'"
  by (rule debit_credit_posts [OF assms(2) [unfolded reverse_broadcast_def] assms(1)
        system_account_Inr system_account_Inr]) (simp_all add: header_defs)

lemma fund_custody_posts:
  assumes "ledger_inv s" "fund_custody x m ref c s = Inr (r, s')"
  shows "posts (''custody_funding:'' @ ref)
    [((ExchangeCustody, None, x), Debit, m), ((Treasury, None, x), Credit, m)] r s s'"
  by (rule debit_credit_posts [OF assms(2) [unfolded fund_custody_def] assms(1)
        system_account_Inr system_account_Inr]) (simp_all add: header_defs)

lemma lock_user_account_Inr:
  assumes "lock_user_account t u x s = Inr (l, s')" "ledger_inv s"
  shows "s' = s \<and> (case l of Some a \<Rightarrow> la_balance a | None \<Rightarrow> 0) = balance_of s (t, Some u, x)"
  using assms(1)
  by (auto simp: lock_user_account_def balance_of_def tx_simps split: option.splits)

text \<open>Reserving looks at the locked balance first; what it posts is two legs all the same.\<close>

lemma reserve_withdrawal_Inr:
  assumes "ledger_inv s" "reserve_withdrawal w u x m c s = Inr (r, s')"
  shows "m \<le> balance_of s (UserAvailable, Some u, x) \<and>
    posts (''withdrawal_reserve:'' @ w)
    [((UserAvailable, Some u, x), Debit, m), ((UserReserved, Some u, x), Credit, m)] r s s'"
proof -
  let ?p = "\<lambda>i j. posting_credit j x m (posting_debit i x m
     (with_description ''funds reserved for withdrawal'' (with_correlation c
     (posting_new WithdrawalReserve RefWithdrawal (Some w) (''withdrawal_reserve:'' @ w)))))"
  from assms(2) obtain i s1 j s2 l s3
    where a: "user_account UserAvailable u x s = Inr (i, s1)"
      and b: "user_account UserReserved u x s1 = Inr (j, s2)"
      and l: "lock_user_account UserAvailable u x s2 = Inr (l, s3)"
      and cur: "\<not> (case l of Some a \<Rightarrow> la_balance a | None \<Rightarrow> 0) < m"
      and p: "post_transaction (?p i j) s3 = Inr (r, s')"
    by (auto simp: reserve_withdrawal_def tx_simps Let_def split: if_splits)
  have r1: "resolved (UserAvailable, Some u, x) i s s1"
    using user_account_Inr [OF a assms(1)] .
  have r2: "resolved (UserReserved, Some u, x) j s1 s2"
    using user_account_Inr [OF b resolved_inv [OF r1]] .
  note l' = lock_user_account_Inr [OF l resolved_inv [OF r2]]
  have "posts (''withdrawal_reserve:'' @ w)
    [((UserAvailable, Some u, x), Debit, m), ((UserReserved, Some u, x), Credit, m)] r s s'"
    by (rule two_leg_posts [OF r1 r2, where p = "?p i j"])
      (use p l' in \<open>simp_all add: posting_build_defs\<close>)
  moreover have "balance_of s2 k = balance_of s k" for k
    using r1 r2 by (simp add: resolved_def del: split_paired_All)
  ultimately show ?thesis using l' cur by simp
qed

text \<open>
  The reversal of a credited deposit debits the available balance as far as it reaches and
  the user's deficit account for the rest.
\<close>

definition reversal_legs ::
  "uuid \<Rightarrow> uuid \<Rightarrow> amount \<Rightarrow> 'x ledger_db_scheme \<Rightarrow> (account_key \<times> direction \<times> amount) list" where
  "reversal_legs u x m s =
     (let b = balance_of s (UserAvailable, Some u, x);
          from_available = (if m \<le> b then m else max b 0);
          shortfall = m - from_available
      in ((ExchangeCustody, None, x), Credit, m) #
         (if 0 < from_available then [((UserAvailable, Some u, x), Debit, from_available)] else []) @
         (if 0 < shortfall then [((UserDeficit, Some u, x), Debit, shortfall)] else []))"

lemma resolved_balance: "resolved k i s s' \<Longrightarrow> balance_of s' k' = balance_of s k'"
  by (simp add: resolved_def del: split_paired_All)

lemma resolved_keeps: "resolved k i s s' \<Longrightarrow> key_of s j = Some k' \<Longrightarrow> key_of s' j = Some k'"
  by (simp add: resolved_def del: split_paired_All)

lemma reverse_deposit_credit_posts:
  assumes "ledger_inv s" "reverse_deposit_credit dep u x m c s = Inr (r, s')"
  shows "posts (''deposit_reversal:'' @ dep) (reversal_legs u x m s) r s s'"
proof -
  let ?b = "balance_of s (UserAvailable, Some u, x)"
  let ?f = "if m \<le> ?b then m else max ?b 0"
  let ?h = "with_description ''credited deposit invalidated by chain reorganisation''
     (with_correlation c (posting_new DepositReversal RefReorg (Some dep) (''deposit_reversal:'' @ dep)))"
  let ?p = "\<lambda>i j. if is_positive ?f then posting_debit j x ?f (posting_credit i x m ?h)
     else posting_credit i x m ?h"
  from assms(2) obtain i s1 j s2 l s3
    where a: "system_account ExchangeCustody x s = Inr (i, s1)"
      and b: "user_account UserAvailable u x s1 = Inr (j, s2)"
      and l: "lock_user_account UserAvailable u x s2 = Inr (l, s3)"
      and p: "(let current = (case l of Some a \<Rightarrow> la_balance a | None \<Rightarrow> 0);
          from_available = (if m \<le> current then m else max current 0)
        in tx_bind (tx_lift (checked_sub m from_available)) (\<lambda>shortfall.
           let p0 = posting_credit i x m ?h;
               p1 = (if is_positive from_available then posting_debit j x from_available p0 else p0)
           in if is_positive shortfall
              then tx_bind (user_account UserDeficit u x) (\<lambda>deficit.
                     post_transaction (posting_debit deficit x shortfall p1))
              else post_transaction p1)) s3 = Inr (r, s')"
    by (auto simp: reverse_deposit_credit_def tx_simps)
  have r1: "resolved (ExchangeCustody, None, x) i s s1"
    using system_account_Inr [OF a assms(1)] .
  have r2: "resolved (UserAvailable, Some u, x) j s1 s2"
    using user_account_Inr [OF b resolved_inv [OF r1]] .
  have keys: "key_of s2 i = Some (ExchangeCustody, None, x)" "key_of s2 j = Some (UserAvailable, Some u, x)"
    using resolved_key_kept [OF r1 r2] resolved_key [OF r2] by auto
  note l' = lock_user_account_Inr [OF l resolved_inv [OF r2]]
  have cur: "(case l of Some a \<Rightarrow> la_balance a | None \<Rightarrow> 0) = ?b" and s3: "s3 = s2"
    using l' resolved_balance [OF r1] resolved_balance [OF r2] by simp_all
  have body: "(if is_positive (m - ?f)
     then tx_bind (user_account UserDeficit u x) (\<lambda>deficit.
            post_transaction (posting_debit deficit x (m - ?f) (?p i j)))
     else post_transaction (?p i j)) s2 = Inr (r, s')"
    using p unfolding cur s3 Let_def tx_bind_Inr tx_lift_Inr by auto
  have assets: "er_asset e = x" if "e \<in> set (p_entries (?p i j))" for e
    using that by (auto simp: posting_build_defs split: if_splits)
  have "posts (''deposit_reversal:'' @ dep) (reversal_legs u x m s) r s2 s'"
  proof (cases "is_positive (m - ?f)")
    case True
    with body obtain q s4 where d: "user_account UserDeficit u x s2 = Inr (q, s4)"
      and q: "post_transaction (posting_debit q x (m - ?f) (?p i j)) s4 = Inr (r, s')"
      by (auto simp: tx_simps)
    have r3: "resolved (UserDeficit, Some u, x) q s2 s4"
      using user_account_Inr [OF d resolved_inv [OF r2]] .
    have keys': "key_of s4 i = Some (ExchangeCustody, None, x)"
      "key_of s4 j = Some (UserAvailable, Some u, x)" "key_of s4 q = Some (UserDeficit, Some u, x)"
      using resolved_keeps [OF r3] keys resolved_key [OF r3] by auto
    have "posts (''deposit_reversal:'' @ dep) (reversal_legs u x m s) r s4 s'"
    proof (rule post_transaction_posts [OF q resolved_inv [OF r3]])
      show "map (entry_leg s4) (p_entries (posting_debit q x (m - ?f) (?p i j))) = reversal_legs u x m s"
        using True keys'
        by (simp add: reversal_legs_def Let_def entry_leg_def posting_build_defs is_positive_def)
      show "er_asset e = x" if "e \<in> set (p_entries (posting_debit q x (m - ?f) (?p i j)))" for e
        using that assets by (auto simp: posting_debit_def entry_debit_def)
    qed (simp add: posting_build_defs)
    then show ?thesis by (rule posts_after_resolved [OF r3])
  next
    case False
    with body have q: "post_transaction (?p i j) s2 = Inr (r, s')" by simp
    show ?thesis
    proof (rule post_transaction_posts [OF q resolved_inv [OF r2] _ _ assets])
      show "map (entry_leg s2) (p_entries (?p i j)) = reversal_legs u x m s"
        using False keys
        by (simp add: reversal_legs_def Let_def entry_leg_def posting_build_defs is_positive_def)
    qed (simp_all add: posting_build_defs)
  qed
  then show ?thesis
    by (rule posts_after_resolved [OF r1 posts_after_resolved [OF r2]])
qed

lemma record_network_fee_posts:
  assumes "ledger_inv s" "record_network_fee w x m c s = Inr (r, s')"
  shows "(m = 0 \<and> r = None \<and> s' = s) \<or>
    (m \<noteq> 0 \<and> (\<exists>q. r = Some q \<and> posts (''network_fee:'' @ w)
       [((NetworkFeeAccount, None, x), Debit, m), ((ExchangeCustody, None, x), Credit, m)] q s s'))"
proof (cases "m = 0")
  case True
  with assms(2) show ?thesis by (simp add: record_network_fee_def tx_simps)
next
  case False
  let ?p = "\<lambda>i j. posting_credit i x m (posting_debit j x m
     (with_description ''gas paid for withdrawal'' (with_correlation c
     (posting_new NetworkFeeKind RefWithdrawal (Some w) (''network_fee:'' @ w)))))"
  from False assms(2) obtain q where r: "r = Some q"
    and q: "tx_then (tx_lift (require_positive m)) (tx_bind (system_account ExchangeCustody x) (\<lambda>i.
       tx_bind (system_account NetworkFeeAccount x) (\<lambda>j. post_transaction (?p i j)))) s = Inr (q, s')"
    by (auto simp: record_network_fee_def tx_simps)
  have "posts (''network_fee:'' @ w)
       [((NetworkFeeAccount, None, x), Debit, m), ((ExchangeCustody, None, x), Credit, m)] q s s'"
    by (rule credit_debit_posts [OF q assms(1) system_account_Inr system_account_Inr])
      (simp_all add: header_defs)
  with False r show ?thesis by blast
qed

section \<open>Interpretations\<close>

text \<open>Every operation meets the shared contract.\<close>

interpretation dc: posting_operation
  "\<lambda>(dep, u, x, m, c). credit_deposit dep u x m c"
  "\<lambda>(dep, u, x, m, c). ''deposit_credit:'' @ dep"
  "\<lambda>(dep, u, x, m, c) s. [((ExchangeCustody, None, x), Debit, m), ((UserAvailable, Some u, x), Credit, m)]"
  by unfold_locales (auto dest: credit_deposit_posts)

interpretation dr: posting_operation
  "\<lambda>(dep, u, x, m, c). reverse_deposit_credit dep u x m c"
  "\<lambda>(dep, u, x, m, c). ''deposit_reversal:'' @ dep"
  "\<lambda>(dep, u, x, m, c) s. reversal_legs u x m s"
  by unfold_locales (auto dest: reverse_deposit_credit_posts)

interpretation wr: posting_operation
  "\<lambda>(w, u, x, m, c). reserve_withdrawal w u x m c"
  "\<lambda>(w, u, x, m, c). ''withdrawal_reserve:'' @ w"
  "\<lambda>(w, u, x, m, c) s. [((UserAvailable, Some u, x), Debit, m), ((UserReserved, Some u, x), Credit, m)]"
  by unfold_locales (auto dest: reserve_withdrawal_Inr)

interpretation wl: posting_operation
  "\<lambda>(w, u, x, m, c). release_reservation w u x m c"
  "\<lambda>(w, u, x, m, c). ''withdrawal_release:'' @ w"
  "\<lambda>(w, u, x, m, c) s. [((UserReserved, Some u, x), Debit, m), ((UserAvailable, Some u, x), Credit, m)]"
  by unfold_locales (auto dest: release_reservation_posts)

interpretation wb: posting_operation
  "\<lambda>(w, x, m, c). record_broadcast w x m c"
  "\<lambda>(w, x, m, c). ''withdrawal_broadcast:'' @ w"
  "\<lambda>(w, x, m, c) s. [((WithdrawalClearing, None, x), Debit, m), ((ExchangeCustody, None, x), Credit, m)]"
  by unfold_locales (auto dest: record_broadcast_posts)

interpretation ws: posting_operation
  "\<lambda>(w, u, x, m, c). settle_withdrawal w u x m c"
  "\<lambda>(w, u, x, m, c). ''withdrawal_settle:'' @ w"
  "\<lambda>(w, u, x, m, c) s. [((UserReserved, Some u, x), Debit, m), ((WithdrawalClearing, None, x), Credit, m)]"
  by unfold_locales (auto dest: settle_withdrawal_posts)

interpretation wx: posting_operation
  "\<lambda>(w, x, m, c). reverse_broadcast w x m c"
  "\<lambda>(w, x, m, c). ''withdrawal_broadcast_reversal:'' @ w"
  "\<lambda>(w, x, m, c) s. [((ExchangeCustody, None, x), Debit, m), ((WithdrawalClearing, None, x), Credit, m)]"
  by unfold_locales (auto dest: reverse_broadcast_posts)

interpretation cf: posting_operation
  "\<lambda>(x, m, ref, c). fund_custody x m ref c"
  "\<lambda>(x, m, ref, c). ''custody_funding:'' @ ref"
  "\<lambda>(x, m, ref, c) s. [((ExchangeCustody, None, x), Debit, m), ((Treasury, None, x), Credit, m)]"
  by unfold_locales (auto dest: fund_custody_posts)

end
