(* ===== verification/Ledger_Run.thy ===== *)
theory Ledger_Run
  imports Ledger_Ops
begin

text \<open>
  When the ledger operations succeed, and what runs of them look like. The first part proves
  that an operation returns: on known accounts, with a positive amount in range and room in
  the column, the only thing that can stop a posting is a balance that may not go negative.
  The second part runs arbitrary sequences of operations, each in its own database transaction
  that commits or rolls back, and shows what holds at the end of every such run.
\<close>

section \<open>When a posting succeeds\<close>

definition entry_fits :: "'x ledger_db_scheme \<Rightarrow> entry_request \<Rightarrow> bool" where
  "entry_fits s e \<longleftrightarrow> (\<exists>a. find (\<lambda>x. la_id x = er_account e) (accounts s) = Some a \<and>
     la_asset a = er_asset e \<and> 0 < er_amount e \<and>
     numeric78 (la_balance a + natural_delta (la_normal a) (er_direction e) (er_amount e)) \<and>
     (la_allow_negative a \<or>
      0 \<le> la_balance a + natural_delta (la_normal a) (er_direction e) (er_amount e)))"

lemma entry_fits_other:
  assumes "entry_fits s e" "er_account e \<noteq> la_id a"
  shows "entry_fits (entry_effect txid e' a s) e"
proof -
  have "find (\<lambda>x. la_id x = er_account e) (accounts (entry_effect txid e' a s)) =
    map_option (\<lambda>x. if la_id x = la_id a then x\<lparr>la_balance := la_balance a +
       natural_delta (la_normal a) (er_direction e') (er_amount e')\<rparr> else x)
      (find (\<lambda>x. la_id x = er_account e) (accounts s))"
    by (simp add: entry_effect_def Let_def find_upd_where)
  moreover from assms(1) obtain x where x: "find (\<lambda>x. la_id x = er_account e) (accounts s) = Some x"
    by (auto simp: entry_fits_def)
  moreover from x assms(2) have "la_id x \<noteq> la_id a" by (auto dest: find_Some_setD)
  ultimately show ?thesis using assms(1) by (simp add: entry_fits_def)
qed

lemma tx_for_entries_ok:
  assumes "\<And>e. e \<in> set es \<Longrightarrow> entry_fits s e" "distinct (map er_account es)"
  shows "\<exists>s'. tx_for es (insert_entry txid) s = Inr ((), s')"
  using assms
proof (induction es arbitrary: s)
  case Nil
  then show ?case by (simp add: tx_return_def)
next
  case (Cons e es)
  have "entry_fits s e" using Cons.prems(1) by simp
  then obtain a where a: "find (\<lambda>x. la_id x = er_account e) (accounts s) = Some a"
    and ok: "insert_entry txid e s = Inr ((), entry_effect txid e a s)"
    using insert_entry_ok [of e s _ txid] by (auto simp: entry_fits_def)
  have "la_id a = er_account e" using a by (auto dest: find_Some_setD)
  then have "entry_fits (entry_effect txid e a s) e'" if "e' \<in> set es" for e'
    using that Cons.prems by (intro entry_fits_other) (auto simp: image_iff)
  with Cons show ?case by (simp add: tx_then_Inr_app [where m = "insert_entry txid e", OF ok])
qed

lemma entry_fits_insert_transaction:
  "insert_transaction p s = Inr (t, s') \<Longrightarrow> entry_fits s' e = entry_fits s e"
  by (auto simp: insert_transaction_def gen_uuid_def entry_fits_def tx_simps Let_def
      split: if_splits)

lemma post_transaction_ok:
  assumes "validate p = Inr ()" "\<And>e. e \<in> set (p_entries p) \<Longrightarrow> entry_fits s e"
    "distinct (map er_account (p_entries p))"
  shows "\<exists>r s'. post_transaction p s = Inr (r, s')"
proof (cases "\<exists>t\<in>set (ltransactions s). lt_key t = p_key p")
  case True
  then obtain t where "find (\<lambda>t. lt_key t = p_key p) (ltransactions s) = Some t"
    using find_None_set [of "\<lambda>t. lt_key t = p_key p" "ltransactions s"]
    by (cases "find (\<lambda>t. lt_key t = p_key p) (ltransactions s)") auto
  with True assms(1) show ?thesis
    by (auto simp: post_transaction_def insert_transaction_def get_transaction_by_key_def tx_eval)
next
  case False
  then obtain t s1 where i: "insert_transaction p s = Inr (Some t, s1)"
    by (auto simp: insert_transaction_def gen_uuid_def tx_eval Let_def)
  have "mset (map er_account (ordered_entries p)) = mset (map er_account (p_entries p))"
    by simp
  then have "distinct (map er_account (ordered_entries p))"
    using assms(3) by (metis mset_eq_imp_distinct_iff)
  then obtain s' where "tx_for (ordered_entries p) (insert_entry (lt_id t)) s1 = Inr ((), s')"
    using tx_for_entries_ok [of "ordered_entries p" s1 "lt_id t"] assms(2)
      entry_fits_insert_transaction [OF i]
    by auto
  with assms(1) i show ?thesis by (simp add: post_transaction_def tx_eval)
qed

text \<open>The same condition over keys instead of rows.\<close>

definition leg_fits :: "'x ledger_db_scheme \<Rightarrow> account_key \<times> direction \<times> amount \<Rightarrow> bool" where
  "leg_fits s leg = (case leg of (k, d, m) \<Rightarrow>
     0 < m \<and> numeric78 (balance_of s k + natural_delta (normal_balance (fst k)) d m) \<and>
     (allows_negative (fst k) \<or> 0 \<le> balance_of s k + natural_delta (normal_balance (fst k)) d m))"

definition known_account :: "'x ledger_db_scheme \<Rightarrow> account_key \<Rightarrow> bool" where
  "known_account s k = (case k of (t, owner, x) \<Rightarrow>
     (is_user_scoped t \<longleftrightarrow> owner \<noteq> None) \<and> x \<in> as_id ` set (assets s) \<and>
     (case owner of None \<Rightarrow> True | Some u \<Rightarrow> u \<in> u_id ` set (users s)))"

lemma key_of_account:
  assumes "ledger_inv s" "key_of s i = Some k"
  obtains a where "find (\<lambda>x. la_id x = i) (accounts s) = Some a" "acct_key a = k"
    "la_balance a = balance_of s k" "la_normal a = normal_balance (fst k)"
    "la_allow_negative a = allows_negative (fst k)" "la_asset a = snd (snd k)"
proof -
  from assms(2) obtain a where f: "find (\<lambda>x. la_id x = i) (accounts s) = Some a" "acct_key a = k"
    by (auto simp: key_of_def)
  then have "a \<in> set (accounts s)" by (auto dest: find_Some_setD)
  with assms(1) f show ?thesis
    using that [of a] balance_of_mem [of s a]
    by (auto simp: ledger_inv_def ledger_core_def accounts_ok_def account_ok_def acct_key_def)
qed

lemma entry_fits_leg:
  assumes "ledger_inv s" "key_of s (er_account e) = Some k" "snd (snd k) = er_asset e"
    "leg_fits s (k, er_direction e, er_amount e)"
  shows "entry_fits s e"
  by (rule key_of_account [OF assms(1,2)]) (use assms in \<open>auto simp: entry_fits_def leg_fits_def\<close>)

lemma balance_of_nonneg:
  assumes "ledger_inv s" "\<not> allows_negative (fst k)"
  shows "0 \<le> balance_of s k"
proof (cases "find (\<lambda>a. acct_key a = k) (accounts s)")
  case None
  then show ?thesis by (simp add: balance_of_def)
next
  case (Some a)
  then have "a \<in> set (accounts s)" "acct_key a = k" by (auto dest: find_Some_setD)
  with assms Some show ?thesis
    by (auto simp: balance_of_def ledger_inv_def ledger_core_def accounts_ok_def account_ok_def
        acct_key_def)
qed

lemma key_of_inj: "key_of s i = Some k \<Longrightarrow> key_of s j = Some k' \<Longrightarrow> k \<noteq> k' \<Longrightarrow> i \<noteq> j"
  by auto

lemma resolve_ok:
  assumes "ledger_inv s" "known_account s (t, owner, x)"
  obtains i s' where "resolve_account t owner x s = Inr (i, s')" "resolved (t, owner, x) i s s'"
  using assms resolve_account_ok [of t owner x s] resolve_account_Inr [of t owner x s]
  by (auto simp: known_account_def)

lemma known_account_resolved: "resolved k i s s' \<Longrightarrow> known_account s' k' = known_account s k'"
proof -
  assume "resolved k i s s'"
  then have "assets s' = assets s \<and> users s' = users s"
    unfolding resolved_def ledger_frame_def by blast
  then show ?thesis by (simp add: known_account_def split: prod.split option.split)
qed

lemma leg_fits_resolved: "resolved k i s s' \<Longrightarrow> leg_fits s' leg = leg_fits s leg"
  by (simp add: leg_fits_def resolved_balance)

definition key_ok :: "string \<Rightarrow> bool" where
  "key_ok key \<longleftrightarrow> trim key \<noteq> [] \<and> length key \<le> 200"

lemma validate_two_legs:
  assumes "p_entries p0 = []" "key_ok (p_key p0)" "0 < m" "in_i128 m"
  shows "validate (posting_credit c x m (posting_debit d x m p0)) = Inr ()"
proof -
  have "in_i128 (- m)" using assms(3,4) by (auto simp: in_i128_def)
  then have "net (posting_credit c x m (posting_debit d x m p0)) = Inr 0"
    using assms by (simp add: net_def posting_credit_def posting_debit_def entry_debit_def
        entry_credit_def add_signed_def checked_i128_def ok_or_def)
  then show ?thesis
    using assms by (auto simp: validate_Inr key_ok_def posting_credit_def posting_debit_def
        entry_debit_def entry_credit_def)
qed

lemma two_legs_ok:
  assumes "ledger_inv s" "key_of s d = Some kd" "key_of s c = Some kc" "kd \<noteq> kc"
    "snd (snd kd) = x" "snd (snd kc) = x" "leg_fits s (kd, Debit, m)" "leg_fits s (kc, Credit, m)"
    "p_entries p0 = []" "key_ok (p_key p0)" "in_i128 m"
  shows "\<exists>r s'. post_transaction (posting_credit c x m (posting_debit d x m p0)) s = Inr (r, s')"
proof (rule post_transaction_ok)
  have "0 < m" using assms(7) by (simp add: leg_fits_def)
  then show "validate (posting_credit c x m (posting_debit d x m p0)) = Inr ()"
    using assms validate_two_legs by blast
  have "d \<noteq> c" using assms(2-4) key_of_inj by blast
  then show "distinct (map er_account (p_entries (posting_credit c x m (posting_debit d x m p0))))"
    using assms(9) by (simp add: posting_credit_def posting_debit_def entry_debit_def entry_credit_def)
  fix e assume "e \<in> set (p_entries (posting_credit c x m (posting_debit d x m p0)))"
  then have "e = entry_debit d x m \<or> e = entry_credit c x m"
    using assms(9) by (simp add: posting_credit_def posting_debit_def)
  then show "entry_fits s e"
    using assms(1-8) by (auto simp: entry_debit_def entry_credit_def intro!: entry_fits_leg)
qed

text \<open>The prefix every two-account operation shares: a positive amount and two resolutions.\<close>

lemma two_accounts_ok:
  assumes "ledger_inv s" "known_account s (t, o1, x)" "known_account s (t', o2, x)" "0 < m"
  obtains i j s1 s2 where "resolve_account t o1 x s = Inr (i, s1)" "resolve_account t' o2 x s1 = Inr (j, s2)"
    "resolved (t, o1, x) i s s1" "resolved (t', o2, x) j s1 s2" "ledger_inv s2"
    "key_of s2 i = Some (t, o1, x)" "key_of s2 j = Some (t', o2, x)"
    "\<And>leg. leg_fits s2 leg = leg_fits s leg" "require_positive m = Inr ()"
proof -
  obtain i s1 where 1: "resolve_account t o1 x s = Inr (i, s1)" "resolved (t, o1, x) i s s1"
    using resolve_ok [OF assms(1,2)] .
  have "known_account s1 (t', o2, x)" using known_account_resolved [OF 1(2)] assms(3) by simp
  then obtain j s2 where 2: "resolve_account t' o2 x s1 = Inr (j, s2)" "resolved (t', o2, x) j s1 s2"
    using resolve_ok [OF resolved_inv [OF 1(2)]] by blast
  have "leg_fits s2 leg = leg_fits s leg" for leg
    using leg_fits_resolved [OF 1(2)] leg_fits_resolved [OF 2(2)] by simp
  then show ?thesis
    using that [OF 1(1) 2(1) 1(2) 2(2) resolved_inv [OF 2(2)] resolved_key_kept [OF 1(2) 2(2)]
        resolved_key [OF 2(2)]] assms(4)
    by (simp add: require_positive_def is_positive_def)
qed

lemma key_ok_append: "p \<noteq> [] \<Longrightarrow> \<not> is_ws (hd p) \<Longrightarrow> length p + length w \<le> 200 \<Longrightarrow> key_ok (p @ w)"
proof -
  assume a: "p \<noteq> []" "\<not> is_ws (hd p)" "length p + length w \<le> 200"
  then have "dropWhile is_ws (p @ w) = p @ w" by (intro dropWhile_hd_id) simp
  moreover have "dropWhile is_ws (rev (p @ w)) \<noteq> []" 
    using a hd_in_set [OF a(1)] by (auto simp: dropWhile_eq_Nil_conv)
  ultimately show "key_ok (p @ w)" using a(3) by (simp add: key_ok_def trim_def)
qed

lemma credit_deposit_ok:
  assumes "ledger_inv s" "known_account s (ExchangeCustody, None, x)"
    "known_account s (UserAvailable, Some u, x)"
    "leg_fits s ((ExchangeCustody, None, x), Debit, m)"
    "leg_fits s ((UserAvailable, Some u, x), Credit, m)" "in_i128 m" "length dep \<le> 36"
  shows "\<exists>r s'. credit_deposit dep u x m c s = Inr (r, s')"
proof -
  have m: "0 < m" using assms(4) by (simp add: leg_fits_def)
  obtain i j s1 s2 where a: "resolve_account ExchangeCustody None x s = Inr (i, s1)"
    "resolve_account UserAvailable (Some u) x s1 = Inr (j, s2)" "ledger_inv s2"
    "key_of s2 i = Some (ExchangeCustody, None, x)" "key_of s2 j = Some (UserAvailable, Some u, x)"
    "\<And>leg. leg_fits s2 leg = leg_fits s leg" "require_positive m = Inr ()"
    using two_accounts_ok [OF assms(1-3) m] by metis
  have k: "key_ok (''deposit_credit:'' @ dep)"
    using assms(7) by (intro key_ok_append) (simp_all add: is_ws_def)
  let ?p = "with_description ''deposit credited after confirmation'' (with_correlation c
    (posting_new DepositCredit RefDeposit (Some dep) (''deposit_credit:'' @ dep)))"
  obtain r s' where "post_transaction (posting_credit j x m (posting_debit i x m ?p)) s2 = Inr (r, s')"
    using two_legs_ok [OF a(3-5), of x m ?p] assms k a(6) by (auto simp: header_defs)
  then show ?thesis using a
    by (auto simp: credit_deposit_def system_account_def user_account_def is_user_scoped_def tx_eval)
qed

text \<open>Reserving succeeds exactly when the available balance covers the amount.\<close>

lemma reserve_withdrawal_iff:
  assumes "ledger_inv s" "known_account s (UserAvailable, Some u, x)" "0 < m" "in_i128 m"
    "in_i128 (balance_of s (UserAvailable, Some u, x))"
    "in_i128 (balance_of s (UserReserved, Some u, x))" "length w \<le> 36"
  shows "if m \<le> balance_of s (UserAvailable, Some u, x)
    then \<exists>r s'. reserve_withdrawal w u x m c s = Inr (r, s')
    else reserve_withdrawal w u x m c s =
      Inl (InsufficientBalance (display_amount (balance_of s (UserAvailable, Some u, x))) (display_amount m))"
proof -
  let ?b = "balance_of s (UserAvailable, Some u, x)"
  have "known_account s (UserReserved, Some u, x)"
    using assms(2) by (simp add: known_account_def is_user_scoped_def)
  then obtain i j s1 s2 where a: "resolve_account UserAvailable (Some u) x s = Inr (i, s1)"
    "resolve_account UserReserved (Some u) x s1 = Inr (j, s2)"
    "resolved (UserAvailable, Some u, x) i s s1" "resolved (UserReserved, Some u, x) j s1 s2"
    "ledger_inv s2"
    "key_of s2 i = Some (UserAvailable, Some u, x)" "key_of s2 j = Some (UserReserved, Some u, x)"
    "\<And>leg. leg_fits s2 leg = leg_fits s leg" "require_positive m = Inr ()"
    using two_accounts_ok [OF assms(1,2) _ assms(3)] by metis
  have b2: "balance_of s2 k = balance_of s k" for k
    using resolved_balance [OF a(3)] resolved_balance [OF a(4)] by simp
  obtain l where l: "lock_user_account UserAvailable u x s2 = Inr (l, s2)"
    "(case l of Some a \<Rightarrow> la_balance a | None \<Rightarrow> 0) = ?b"
    using assms(5) b2 [of "(UserAvailable, Some u, x)"]
    by (auto simp: lock_user_account_def balance_of_def decode_amount_def tx_eval split: option.splits)
  let ?p = "with_description ''funds reserved for withdrawal'' (with_correlation c
    (posting_new WithdrawalReserve RefWithdrawal (Some w) (''withdrawal_reserve:'' @ w)))"
  have run: "reserve_withdrawal w u x m c s = (if ?b < m
      then tx_fail (InsufficientBalance (display_amount ?b) (display_amount m))
      else post_transaction (posting_credit j x m (posting_debit i x m ?p))) s2"
    using a(1,2,9) l
    by (simp add: reserve_withdrawal_def user_account_def is_user_scoped_def tx_eval)
  show ?thesis
  proof (cases "m \<le> ?b")
    case True
    have k: "key_ok (''withdrawal_reserve:'' @ w)"
      using assms(7) by (intro key_ok_append) (simp_all add: is_ws_def)
    have "numeric78 (?b - m)" "numeric78 (balance_of s (UserReserved, Some u, x) + m)"
      using assms(3-6) True by (auto simp: numeric78_def in_i128_def)
    moreover have "0 \<le> balance_of s (UserReserved, Some u, x)"
      using balance_of_nonneg [OF assms(1)] by (simp add: allows_negative_def)
    ultimately have "leg_fits s ((UserAvailable, Some u, x), Debit, m)"
      "leg_fits s ((UserReserved, Some u, x), Credit, m)"
      using assms(3) True by (simp_all add: leg_fits_def natural_delta_def)
    then obtain r s' where "post_transaction (posting_credit j x m (posting_debit i x m ?p)) s2 = Inr (r, s')"
      using two_legs_ok [OF a(5-7), of x m ?p] assms(4) k a(8) by (auto simp: header_defs)
    then show ?thesis using run True by simp
  next
    case False
    then show ?thesis using run by (simp add: tx_fail_def)
  qed
qed

lemma release_reservation_ok:
  assumes "ledger_inv s" "known_account s (UserAvailable, Some u, x)"
    "leg_fits s ((UserReserved, Some u, x), Debit, m)"
    "leg_fits s ((UserAvailable, Some u, x), Credit, m)" "in_i128 m" "length w \<le> 36"
  shows "\<exists>r s'. release_reservation w u x m c s = Inr (r, s')"
proof -
  have m: "0 < m" using assms(3) by (simp add: leg_fits_def)
  have "known_account s (UserReserved, Some u, x)"
    using assms(2) by (simp add: known_account_def is_user_scoped_def)
  then obtain i j s1 s2 where a: "resolve_account UserAvailable (Some u) x s = Inr (i, s1)"
    "resolve_account UserReserved (Some u) x s1 = Inr (j, s2)" "ledger_inv s2"
    "key_of s2 i = Some (UserAvailable, Some u, x)" "key_of s2 j = Some (UserReserved, Some u, x)"
    "\<And>leg. leg_fits s2 leg = leg_fits s leg" "require_positive m = Inr ()"
    using two_accounts_ok [OF assms(1,2) _ m] by metis
  have k: "key_ok (''withdrawal_release:'' @ w)"
    using assms(6) by (intro key_ok_append) (simp_all add: is_ws_def)
  let ?p = "with_description ''withdrawal cancelled or failed before broadcast'' (with_correlation c
    (posting_new WithdrawalRelease RefWithdrawal (Some w) (''withdrawal_release:'' @ w)))"
  obtain r s' where "post_transaction (posting_credit i x m (posting_debit j x m ?p)) s2 = Inr (r, s')"
    using two_legs_ok [OF a(3,5,4), of x m ?p] assms k a(6) by (auto simp: header_defs)
  then show ?thesis using a
    by (auto simp: release_reservation_def user_account_def is_user_scoped_def tx_eval)
qed

section \<open>Runs\<close>

datatype ledger_call =
    CallCredit uuid uuid uuid amount "string option"
  | CallReverseCredit uuid uuid uuid amount "string option"
  | CallReserve uuid uuid uuid amount "string option"
  | CallRelease uuid uuid uuid amount "string option"
  | CallBroadcast uuid uuid amount "string option"
  | CallSettle uuid uuid uuid amount "string option"
  | CallReverseBroadcast uuid uuid amount "string option"
  | CallFee uuid uuid amount "string option"
  | CallFund uuid amount string "string option"

definition no_result :: "('s, 'a) db_tx \<Rightarrow> ('s, unit) db_tx" where
  "no_result m = tx_then m (tx_return ())"

fun run_ledger_call :: "ledger_call \<Rightarrow> ('x ledger_db_scheme, unit) db_tx" where
  "run_ledger_call (CallCredit d u x m c) = no_result (credit_deposit d u x m c)"
| "run_ledger_call (CallReverseCredit d u x m c) = no_result (reverse_deposit_credit d u x m c)"
| "run_ledger_call (CallReserve w u x m c) = no_result (reserve_withdrawal w u x m c)"
| "run_ledger_call (CallRelease w u x m c) = no_result (release_reservation w u x m c)"
| "run_ledger_call (CallBroadcast w x m c) = no_result (record_broadcast w x m c)"
| "run_ledger_call (CallSettle w u x m c) = no_result (settle_withdrawal w u x m c)"
| "run_ledger_call (CallReverseBroadcast w x m c) = no_result (reverse_broadcast w x m c)"
| "run_ledger_call (CallFee w x m c) = no_result (record_network_fee w x m c)"
| "run_ledger_call (CallFund x m ref c) = no_result (fund_custody x m ref c)"

text \<open>
  One database transaction: the body, then \<open>COMMIT\<close> with the deferred checks; any error rolls
  back. Concurrent callers are serialised by the row locks and the unique keys, so a history
  of the ledger is a sequence of such transactions.
\<close>

definition atomically :: "('x ledger_db_scheme, 'a) db_tx \<Rightarrow> 'x ledger_db_scheme \<Rightarrow> 'a res \<times> 'x ledger_db_scheme" where
  "atomically m s = (case tx_bind m (\<lambda>a. tx_then commit (tx_return a)) s of
     Inl e \<Rightarrow> (Inl e, s) | Inr (a, s') \<Rightarrow> (Inr a, s'))"

fun ledger_run :: "ledger_call list \<Rightarrow> 'x ledger_db_scheme \<Rightarrow> 'x ledger_db_scheme" where
  "ledger_run [] s = s"
| "ledger_run (c # cs) s = ledger_run cs (snd (atomically (run_ledger_call c) s))"

lemma commit_inv:
  assumes "ledger_inv s"
  shows "commit s = Inr ((), s)"
proof -
  have "assert_balanced (lentries s) (le_tx e) = Inr ()" if "e \<in> set (lentries s)" for e
  proof -
    from assms that obtain t where "t \<in> set (ltransactions s)" "le_tx e = lt_id t"
      by (auto simp: ledger_inv_def ledger_core_def entries_ok_def)
    with assms have "balanced_tx (lentries s) (le_tx e)" by (simp add: ledger_inv_def)
    then show ?thesis by (simp add: assert_balanced_def balanced_tx_def)
  qed
  then have "find (\<lambda>e. assert_balanced (lentries s) (le_tx e) \<noteq> Inr ()) (lentries s) = None"
    by (simp add: find_None_set)
  then show ?thesis by (simp add: commit_def)
qed

text \<open>The effect of one call: nothing, or one posting that balances in every asset.\<close>

definition ledger_step_ok :: "'x ledger_db_scheme \<Rightarrow> 'x ledger_db_scheme \<Rightarrow> bool" where
  "ledger_step_ok s s' \<longleftrightarrow> ledger_inv s' \<and> ledger_extends s s' \<and> (\<forall>x. asset_position s' x = asset_position s x)"

lemma posts_step_ok: "posts key legs r s s' \<Longrightarrow> ledger_step_ok s s'"
  by (simp add: posts_def ledger_step_ok_def)

lemma ledger_step_ok_refl: "ledger_inv s \<Longrightarrow> ledger_step_ok s s"
  by (simp add: ledger_step_ok_def)

lemma ledger_step_ok_trans:
  assumes "ledger_step_ok s t" "ledger_step_ok t u"
  shows "ledger_step_ok s u"
  using assms ledger_extends_trans [of s t u] by (simp add: ledger_step_ok_def)

lemmas op_posts_all = credit_deposit_posts reverse_deposit_credit_posts release_reservation_posts
  record_broadcast_posts settle_withdrawal_posts reverse_broadcast_posts fund_custody_posts

lemma ledger_call_step:
  assumes "ledger_inv s" "run_ledger_call c s = Inr (u, s')"
  shows "ledger_step_ok s s'"
proof (cases c)
  case (CallReserve w u x m c)
  with assms show ?thesis
    by (auto simp: no_result_def tx_simps dest!: reserve_withdrawal_Inr [OF assms(1)] posts_step_ok)
next
  case (CallFee w x m c)
  with assms show ?thesis
    by (auto simp: no_result_def tx_simps intro: ledger_step_ok_refl
        dest!: record_network_fee_posts [OF assms(1)] posts_step_ok)
qed (use assms in \<open>auto simp: no_result_def tx_simps dest!: op_posts_all [OF assms(1)] posts_step_ok\<close>)

lemma atomically_inv:
  assumes "\<And>a s'. m s = Inr (a, s') \<Longrightarrow> ledger_inv s'"
  shows "atomically m s = (case m s of Inl e \<Rightarrow> (Inl e, s) | Inr (a, s') \<Rightarrow> (Inr a, s'))"
proof (cases "m s")
  case (Inr r)
  then show ?thesis
    using assms commit_inv [of "snd r"] by (cases r) (auto simp: atomically_def tx_eval)
qed (simp add: atomically_def tx_eval)

lemma atomically_call:
  assumes "ledger_inv s"
  shows "ledger_step_ok s (snd (atomically (run_ledger_call c) s))"
    and "fst (atomically (run_ledger_call c) s) = Inl e \<Longrightarrow> run_ledger_call c s = Inl e"
proof -
  have a: "atomically (run_ledger_call c) s =
     (case run_ledger_call c s of Inl e \<Rightarrow> (Inl e, s) | Inr (a, s') \<Rightarrow> (Inr a, s'))"
    by (rule atomically_inv) (use ledger_call_step [OF assms] in \<open>auto simp: ledger_step_ok_def\<close>)
  show "ledger_step_ok s (snd (atomically (run_ledger_call c) s))"
    using assms ledger_call_step [OF assms, of c] ledger_step_ok_refl
    by (auto simp: a split: sum.splits)
  show "fst (atomically (run_ledger_call c) s) = Inl e \<Longrightarrow> run_ledger_call c s = Inl e"
    by (auto simp: a split: sum.splits)
qed

lemma ledger_run_step: "ledger_inv s \<Longrightarrow> ledger_step_ok s (ledger_run cs s)"
proof (induction cs arbitrary: s)
  case Nil
  then show ?case by (simp add: ledger_step_ok_refl)
next
  case (Cons c cs)
  have "ledger_step_ok s (snd (atomically (run_ledger_call c) s))" by (rule atomically_call(1) [OF Cons.prems])
  moreover from this have "ledger_inv (snd (atomically (run_ledger_call c) s))"
    by (simp add: ledger_step_ok_def)
  ultimately show ?case using Cons.IH ledger_step_ok_trans by auto
qed

text \<open>A database fresh from the migrations.\<close>

definition fresh_ledger :: "'x ledger_db_scheme \<Rightarrow> bool" where
  "fresh_ledger s \<longleftrightarrow> inj (id_src s) \<and> accounts s = [] \<and> ltransactions s = [] \<and> lentries s = []"

lemma fresh_ledger_inv: "fresh_ledger s \<Longrightarrow> ledger_inv s"
  by (simp add: fresh_ledger_def ledger_inv_def ledger_core_defs)

lemma fresh_ledger_position: "fresh_ledger s \<Longrightarrow> asset_position s x = 0"
  by (simp add: fresh_ledger_def asset_position_def)

end
