(* ===== verification/Retry.thy ===== *)
theory Retry
  imports Errors
begin

text \<open>
  The backoff policy (\<open>crates/common/src/retry.rs\<close>), in milliseconds. The jitter multiplies a
  span by a floating-point unit in \<open>[0, 1]\<close> and truncates; that product is the argument
  \<open>scale\<close> here, and what is used of it is \<open>scale n \<le> n\<close>.
\<close>

record backoff =
  bo_base :: nat
  bo_max :: nat
  bo_max_attempts :: nat
  bo_jitter_pct :: nat

definition backoff_default :: backoff where
  "backoff_default = \<lparr>bo_base = 200, bo_max = 30000, bo_max_attempts = 5, bo_jitter_pct = 50\<rparr>"

definition backoff_new :: "nat \<Rightarrow> nat \<Rightarrow> nat \<Rightarrow> backoff" where
  "backoff_new base_ms max_ms max_attempts =
     backoff_default\<lparr>bo_base := base_ms, bo_max := max_ms, bo_max_attempts := max_attempts\<rparr>"

abbreviation u128_max :: nat where "u128_max \<equiv> 2 ^ 128 - 1"

definition delay_with_jitter :: "backoff \<Rightarrow> nat \<Rightarrow> (nat \<Rightarrow> nat) \<Rightarrow> nat" where
  "delay_with_jitter b attempt scale =
     (if attempt = 0 then 0
      else let shift = min (attempt - 1) 31;
               scaled = min (min (bo_base b * 2 ^ shift) u128_max) (bo_max b)
           in if bo_jitter_pct b = 0 then scaled
              else let span = sat_mul_u64 scaled (min (bo_jitter_pct b) 100) div 100;
                       low = scaled - span div 2;
                       jittered = low + scale span
                   in min jittered (bo_max b))"

definition should_retry :: "backoff \<Rightarrow> nat \<Rightarrow> bool" where
  "should_retry b attempt \<longleftrightarrow> attempt < bo_max_attempts b"

definition worst_case_total :: "backoff \<Rightarrow> nat" where
  "worst_case_total b =
     sum_list (map (\<lambda>a. delay_with_jitter b a (\<lambda>n. n)) [1..<bo_max_attempts b + 1])"

section \<open>Bounds\<close>

lemma delay_zero: "delay_with_jitter b 0 scale = 0"
  by (simp add: delay_with_jitter_def)

lemma delay_le_max: "delay_with_jitter b attempt scale \<le> bo_max b"
  by (simp add: delay_with_jitter_def Let_def)

lemma delay_mono:
  "(\<And>n. scale n \<le> scale' n) \<Longrightarrow> delay_with_jitter b a scale \<le> delay_with_jitter b a scale'"
  by (auto simp: delay_with_jitter_def Let_def min_le_iff_disj intro!: min.mono)

lemma jitter_span: "sat_mul_u64 s (min p 100) div 100 \<le> s"
proof -
  have "sat_mul_u64 s (min p 100) \<le> s * 100"
    by (simp add: sat_mul_u64_def min_le_iff_disj)
  then show ?thesis using div_le_mono [of _ "s * 100" 100] by simp
qed

lemma half_span: "t \<le> m \<Longrightarrow> (p :: nat) \<le> t \<Longrightarrow> t \<le> 2 * min (t - p div 2 + y) m"
proof -
  assume "t \<le> m" "p \<le> t"
  moreover have "2 * (p div 2) \<le> p" by simp
  ultimately show ?thesis by (cases "t - p div 2 + y \<le> m") (simp_all add: min_absorb1 min_absorb2)
qed

text \<open>The delay never falls below half of the exponential schedule.\<close>

lemma delay_lower:
  assumes "0 < attempt"
  shows "min (min (bo_base b * 2 ^ min (attempt - 1) 31) u128_max) (bo_max b)
     \<le> 2 * delay_with_jitter b attempt scale"
proof -
  let ?s = "min (min (bo_base b * 2 ^ min (attempt - 1) 31) u128_max) (bo_max b)"
  have "?s \<le> 2 * min (?s - sat_mul_u64 ?s (min (bo_jitter_pct b) 100) div 100 div 2 + scale x) (bo_max b)" for x
  proof -
    define t where "t = ?s"
    have "t \<le> bo_max b" by (simp add: t_def)
    moreover note jitter_span [of t "bo_jitter_pct b"]
    ultimately have "t \<le> 2 * min (t - sat_mul_u64 t (min (bo_jitter_pct b) 100) div 100 div 2 + scale x) (bo_max b)"
      by (intro half_span)
    then show ?thesis by (simp only: t_def)
  qed
  then show ?thesis using assms unfolding delay_with_jitter_def Let_def by simp
qed



end
