(* ===== verification/Events.thy ===== *)
theory Events
  imports Ledger_Run Retry
begin

text \<open>
  Events: the envelope and payloads (\<open>crates/common/src/event.rs\<close>), the transactional outbox and
  the processed-event log (\<open>crates/database/src/repo/outbox.rs\<close>), the relay that moves outbox
  rows to the bus (\<open>crates/events/src/outbox.rs\<close>) and the consumer runtime
  (\<open>crates/events/src/consumer.rs\<close>). The bus and the version-5 UUID hash are arguments.
\<close>

section \<open>Payloads and envelopes\<close>

record block_observed =
  bo_chain :: string
  bo_block_number :: nat
  bo_block_hash :: hash32
  bo_parent_hash :: hash32
  bo_tx_count :: nat

record deposit_observed =
  do_chain :: string
  do_tx_hash :: hash32
  do_log_index :: int
  do_block_number :: nat
  do_block_hash :: hash32
  do_asset :: string
  do_user :: uuid
  do_deposit :: uuid
  do_amount :: amount

record deposit_confirmed =
  dcf_chain :: string
  dcf_deposit :: uuid
  dcf_user :: uuid
  dcf_tx_hash :: hash32
  dcf_block_number :: nat
  dcf_confirmations :: nat
  dcf_asset :: string
  dcf_amount :: amount

record deposit_credited =
  dcr_chain :: string
  dcr_deposit :: uuid
  dcr_user :: uuid
  dcr_asset :: string
  dcr_amount :: amount
  dcr_ledger_tx :: uuid

record deposit_reorged =
  dro_chain :: string
  dro_deposit :: uuid
  dro_user :: uuid
  dro_tx_hash :: string
  dro_orphaned_number :: nat
  dro_orphaned_hash :: string
  dro_reversal :: "uuid option"

record withdrawal_requested =
  wrq_withdrawal :: uuid
  wrq_user :: uuid
  wrq_chain :: string
  wrq_asset :: string
  wrq_amount :: amount
  wrq_destination :: string

record withdrawal_broadcast =
  wbr_withdrawal :: uuid
  wbr_user :: uuid
  wbr_chain :: string
  wbr_tx_hash :: string
  wbr_nonce :: nat

record withdrawal_completed =
  wco_withdrawal :: uuid
  wco_user :: uuid
  wco_chain :: string
  wco_tx_hash :: string
  wco_asset :: string
  wco_amount :: amount
  wco_fee :: amount
  wco_ledger_tx :: uuid

record withdrawal_failed =
  wfa_withdrawal :: uuid
  wfa_user :: uuid
  wfa_chain :: string
  wfa_code :: string
  wfa_reason :: string

datatype event_payload =
    BlockObserved block_observed
  | DepositObserved deposit_observed
  | DepositConfirmed deposit_confirmed
  | DepositCredited deposit_credited
  | DepositReorged deposit_reorged
  | WithdrawalRequested withdrawal_requested
  | WithdrawalBroadcastEvent withdrawal_broadcast
  | WithdrawalCompleted withdrawal_completed
  | WithdrawalFailed withdrawal_failed

fun payload_event_type :: "event_payload \<Rightarrow> string" where
  "payload_event_type (BlockObserved _) = ''chain.block_observed''"
| "payload_event_type (DepositObserved _) = ''deposit.observed''"
| "payload_event_type (DepositConfirmed _) = ''deposit.confirmed''"
| "payload_event_type (DepositCredited _) = ''deposit.credited''"
| "payload_event_type (DepositReorged _) = ''deposit.reorged''"
| "payload_event_type (WithdrawalRequested _) = ''withdrawal.requested''"
| "payload_event_type (WithdrawalBroadcastEvent _) = ''withdrawal.broadcast''"
| "payload_event_type (WithdrawalCompleted _) = ''withdrawal.completed''"
| "payload_event_type (WithdrawalFailed _) = ''withdrawal.failed''"

definition all_topics :: "string list" where
  "all_topics = [''chain.blocks'', ''deposits.observed'', ''deposits.confirmed'', ''deposits.credited'',
     ''withdrawals.requested'', ''withdrawals.broadcast'', ''withdrawals.completed'', ''system.dead-letter'']"

fun payload_topic :: "event_payload \<Rightarrow> string" where
  "payload_topic (BlockObserved _) = ''chain.blocks''"
| "payload_topic (DepositObserved _) = ''deposits.observed''"
| "payload_topic (DepositConfirmed _) = ''deposits.confirmed''"
| "payload_topic (DepositCredited _) = ''deposits.credited''"
| "payload_topic (DepositReorged _) = ''deposits.credited''"
| "payload_topic (WithdrawalRequested _) = ''withdrawals.requested''"
| "payload_topic (WithdrawalBroadcastEvent _) = ''withdrawals.broadcast''"
| "payload_topic (WithdrawalCompleted _) = ''withdrawals.completed''"
| "payload_topic (WithdrawalFailed _) = ''withdrawals.completed''"

fun payload_partition_key :: "event_payload \<Rightarrow> string" where
  "payload_partition_key (BlockObserved e) = bo_chain e"
| "payload_partition_key (DepositObserved e) = do_user e"
| "payload_partition_key (DepositConfirmed e) = dcf_user e"
| "payload_partition_key (DepositCredited e) = dcr_user e"
| "payload_partition_key (DepositReorged e) = dro_user e"
| "payload_partition_key (WithdrawalRequested e) = wrq_user e"
| "payload_partition_key (WithdrawalBroadcastEvent e) = wbr_user e"
| "payload_partition_key (WithdrawalCompleted e) = wco_user e"
| "payload_partition_key (WithdrawalFailed e) = wfa_user e"

record event_envelope =
  ev_id :: uuid
  ev_type :: string
  ev_version :: nat
  ev_timestamp :: timestamp
  ev_correlation :: string
  ev_payload :: event_payload

definition EVENT_VERSION :: nat where
  "EVENT_VERSION = 1"

definition envelope_new :: "uuid \<Rightarrow> timestamp \<Rightarrow> event_payload \<Rightarrow> string \<Rightarrow> event_envelope" where
  "envelope_new fresh now p corr =
     \<lparr>ev_id = fresh, ev_type = payload_event_type p, ev_version = EVENT_VERSION,
      ev_timestamp = now, ev_correlation = corr, ev_payload = p\<rparr>"

text \<open>\<open>Uuid::new_v5\<close> in the URL namespace is the argument \<open>v5\<close>.\<close>

definition deterministic_event_id :: "(string \<Rightarrow> uuid) \<Rightarrow> string \<Rightarrow> string \<Rightarrow> uuid" where
  "deterministic_event_id v5 ty key = v5 (''chainrail:'' @ ty @ '':'' @ key)"

definition with_deterministic_id :: "(string \<Rightarrow> uuid) \<Rightarrow> string \<Rightarrow> event_envelope \<Rightarrow> event_envelope" where
  "with_deterministic_id v5 key e = e\<lparr>ev_id := deterministic_event_id v5 (ev_type e) key\<rparr>"

definition envelope_topic :: "event_envelope \<Rightarrow> string" where
  "envelope_topic e = payload_topic (ev_payload e)"

definition envelope_partition_key :: "event_envelope \<Rightarrow> string" where
  "envelope_partition_key e = payload_partition_key (ev_payload e)"

definition is_supported_version :: "event_envelope \<Rightarrow> bool" where
  "is_supported_version e \<longleftrightarrow> ev_version e = EVENT_VERSION"

section \<open>The outbox and the processed-event log\<close>

text \<open>The payload column is JSON; \<open>None\<close> is JSON that does not decode as an envelope.\<close>

record outbox_row =
  ob_id :: uuid
  ob_event :: uuid
  ob_topic :: string
  ob_partition :: string
  ob_payload :: "event_envelope option"
  ob_correlation :: "string option"
  ob_published_at :: "timestamp option"
  ob_attempts :: nat
  ob_next_attempt :: timestamp
  ob_last_error :: "string option"
  ob_created_at :: timestamp

record processed_event =
  pe_consumer :: string
  pe_event :: uuid
  pe_type :: string
  pe_processed_at :: timestamp

record dead_letter =
  dl_id :: uuid
  dl_topic :: string
  dl_consumer :: "string option"
  dl_event :: "uuid option"
  dl_type :: "string option"
  dl_payload :: "event_envelope option"
  dl_error :: string
  dl_attempts :: nat
  dl_correlation :: "string option"

record event_db = ledger_db +
  outbox :: "outbox_row list"
  processed :: "processed_event list"
  dead_letters :: "dead_letter list"

definition enqueue :: "event_envelope \<Rightarrow> ('x event_db_scheme, unit) db_tx" where
  "enqueue e = (\<lambda>s.
     if ev_id e \<in> ob_event ` set (outbox s) then Inr ((), s)
     else tx_bind gen_uuid (\<lambda>i. tx_write (\<lambda>s. s\<lparr>outbox := outbox s @
       [\<lparr>ob_id = i, ob_event = ev_id e, ob_topic = envelope_topic e,
         ob_partition = envelope_partition_key e, ob_payload = Some e,
         ob_correlation = Some (ev_correlation e), ob_published_at = None, ob_attempts = 0,
         ob_next_attempt = clock s, ob_last_error = None, ob_created_at = clock s\<rparr>]\<rparr>)) s)"

text \<open>
  \<open>SELECT ... ORDER BY created_at LIMIT n FOR UPDATE SKIP LOCKED\<close>: rows another relay holds are
  \<open>locked\<close> and left out.
\<close>

definition claim_batch :: "uuid set \<Rightarrow> nat \<Rightarrow> ('x event_db_scheme, outbox_row list) db_tx" where
  "claim_batch locked limit = tx_read (\<lambda>s. take limit (sort_key ob_created_at
     (filter (\<lambda>r. ob_published_at r = None \<and> ob_next_attempt r \<le> clock s \<and> ob_id r \<notin> locked)
       (outbox s))))"

definition outbox_mark_published :: "uuid list \<Rightarrow> ('x event_db_scheme, unit) db_tx" where
  "outbox_mark_published ids =
     (if ids = [] then tx_return ()
      else tx_write (\<lambda>s. s\<lparr>outbox := upd_where (\<lambda>r. ob_id r \<in> set ids)
        (\<lambda>r. r\<lparr>ob_published_at := Some (clock s), ob_last_error := None\<rparr>) (outbox s)\<rparr>))"

definition outbox_mark_failed :: "uuid \<Rightarrow> string \<Rightarrow> nat \<Rightarrow> ('x event_db_scheme, unit) db_tx" where
  "outbox_mark_failed i err retry_in = tx_write (\<lambda>s. s\<lparr>outbox := upd_where (\<lambda>r. ob_id r = i)
     (\<lambda>r. r\<lparr>ob_attempts := ob_attempts r + 1, ob_last_error := Some (take 500 err),
            ob_next_attempt := clock s + retry_in\<rparr>) (outbox s)\<rparr>)"

definition pending_count :: "'x event_db_scheme \<Rightarrow> nat" where
  "pending_count s = rows_affected (\<lambda>r. ob_published_at r = None) (outbox s)"

definition prune_published :: "timestamp \<Rightarrow> ('x event_db_scheme, nat) db_tx" where
  "prune_published older = (\<lambda>s.
     let P = (\<lambda>r. case ob_published_at r of None \<Rightarrow> False | Some t \<Rightarrow> t < older)
     in Inr (rows_affected P (outbox s), s\<lparr>outbox := filter (\<lambda>r. \<not> P r) (outbox s)\<rparr>))"

definition claim_event :: "string \<Rightarrow> uuid \<Rightarrow> string \<Rightarrow> ('x event_db_scheme, bool) db_tx" where
  "claim_event consumer i ty = (\<lambda>s.
     if \<exists>p\<in>set (processed s). pe_consumer p = consumer \<and> pe_event p = i then Inr (False, s)
     else Inr (True, s\<lparr>processed := processed s @
       [\<lparr>pe_consumer = consumer, pe_event = i, pe_type = ty, pe_processed_at = clock s\<rparr>]\<rparr>))"

definition was_processed :: "string \<Rightarrow> uuid \<Rightarrow> 'x event_db_scheme \<Rightarrow> bool" where
  "was_processed consumer i s \<longleftrightarrow> (\<exists>p\<in>set (processed s). pe_consumer p = consumer \<and> pe_event p = i)"

definition prune_processed :: "timestamp \<Rightarrow> ('x event_db_scheme, nat) db_tx" where
  "prune_processed older = (\<lambda>s. Inr (rows_affected (\<lambda>p. pe_processed_at p < older) (processed s),
     s\<lparr>processed := filter (\<lambda>p. \<not> pe_processed_at p < older) (processed s)\<rparr>))"

definition record_dead_letter ::
  "string \<Rightarrow> string option \<Rightarrow> uuid option \<Rightarrow> string option \<Rightarrow> event_envelope option \<Rightarrow> string \<Rightarrow> nat \<Rightarrow>
   string option \<Rightarrow> ('x event_db_scheme, uuid) db_tx" where
  "record_dead_letter topic consumer i ty payload err attempts corr =
     tx_bind gen_uuid (\<lambda>k. tx_then (tx_write (\<lambda>s. s\<lparr>dead_letters := dead_letters s @
       [\<lparr>dl_id = k, dl_topic = topic, dl_consumer = consumer, dl_event = i, dl_type = ty,
         dl_payload = payload, dl_error = take 2000 err, dl_attempts = attempts,
         dl_correlation = corr\<rparr>]\<rparr>)) (tx_return k))"

definition claim :: "string \<Rightarrow> event_envelope \<Rightarrow> ('x event_db_scheme, bool) db_tx" where
  "claim consumer e = claim_event consumer (ev_id e) (ev_type e)"

end
