(* ===== verification/Delivery.thy ===== *)
theory Delivery
  imports Events
begin

text \<open>
  Moving events: the outbox relay (\<open>crates/events/src/outbox.rs\<close>), the in-memory bus
  (\<open>crates/events/src/bus.rs\<close>) and the consumer runtime (\<open>crates/events/src/consumer.rs\<close>).
  A bus is a state with a publish function; the relay is proved for every bus that meets the
  contract of the locale \<open>event_bus\<close>: a successful publish keeps the event, nothing is lost.
\<close>

section \<open>Buses\<close>

type_synonym 'b publish = "event_envelope \<Rightarrow> 'b \<Rightarrow> unit res \<times> 'b"

definition prefixed :: "string \<Rightarrow> string \<Rightarrow> string" where
  "prefixed pre topic = (if pre = [] then topic else pre @ topic)"

record memory_bus =
  mb_published :: "event_envelope list"
  mb_fail :: "string option"

definition memory_publish :: "memory_bus publish" where
  "memory_publish e b = (case mb_fail b of
     Some reason \<Rightarrow> (Inl (EventBus reason), b)
   | None \<Rightarrow> (Inr (), b\<lparr>mb_published := mb_published b @ [e]\<rparr>))"

definition set_failing :: "string option \<Rightarrow> memory_bus \<Rightarrow> memory_bus" where
  "set_failing reason b = b\<lparr>mb_fail := reason\<rparr>"

definition events_of_type :: "string \<Rightarrow> memory_bus \<Rightarrow> event_envelope list" where
  "events_of_type ty b = filter (\<lambda>e. ev_type e = ty) (mb_published b)"

fun publish_batch :: "'b publish \<Rightarrow> event_envelope list \<Rightarrow> 'b \<Rightarrow> unit res \<times> 'b" where
  "publish_batch publish [] b = (Inr (), b)"
| "publish_batch publish (e # es) b =
     (case publish e b of (Inl err, b') \<Rightarrow> (Inl err, b') | (Inr u, b') \<Rightarrow> publish_batch publish es b')"

locale event_bus =
  fixes publish :: "'b publish" and delivered :: "'b \<Rightarrow> event_envelope set"
  assumes keeps: "publish e b = (r, b') \<Longrightarrow> delivered b \<subseteq> delivered b'"
    and delivers: "publish e b = (Inr (), b') \<Longrightarrow> e \<in> delivered b'"
begin

lemma publish_batch_delivers:
  "publish_batch publish es b = (Inr (), b') \<Longrightarrow> set es \<subseteq> delivered b' \<and> delivered b \<subseteq> delivered b'"
proof (induction es arbitrary: b)
  case Nil
  then show ?case by simp
next
  case (Cons e es)
  then obtain b1 where b1: "publish e b = (Inr (), b1)" "publish_batch publish es b1 = (Inr (), b')"
    by (auto split: sum.splits prod.splits)
  with Cons.IH keeps delivers show ?case by (simp, blast)
qed

end

interpretation membus: event_bus memory_publish "\<lambda>b. set (mb_published b)"
  by unfold_locales (auto simp: memory_publish_def split: option.splits)

section \<open>The relay\<close>

record relay =
  rl_batch_size :: nat
  rl_backoff :: backoff
  rl_max_attempts :: nat

definition relay_new :: "int \<Rightarrow> nat \<Rightarrow> nat \<Rightarrow> nat \<Rightarrow> relay" where
  "relay_new outbox_batch_size base_ms max_ms attempts =
     \<lparr>rl_batch_size = nat (min 5000 (max 1 outbox_batch_size)),
      rl_backoff = backoff_new base_ms max_ms attempts, rl_max_attempts = attempts\<rparr>"

record relay_pass =
  rp_published :: nat
  rp_failed :: nat
  rp_dead :: nat

definition relay_pass_default :: relay_pass where
  "relay_pass_default = \<lparr>rp_published = 0, rp_failed = 0, rp_dead = 0\<rparr>"

definition relay_did_work :: "relay_pass \<Rightarrow> bool" where
  "relay_did_work p \<longleftrightarrow> rp_published p + rp_failed p + rp_dead p > 0"

text \<open>One iteration of the loop over the claimed batch: the ids to mark, the counters, the bus.\<close>

definition relay_row ::
  "relay \<Rightarrow> (nat \<Rightarrow> nat) \<Rightarrow> 'b publish \<Rightarrow> outbox_row \<Rightarrow> uuid list \<times> relay_pass \<times> 'b \<Rightarrow>
   ('x event_db_scheme, uuid list \<times> relay_pass \<times> 'b) db_tx" where
  "relay_row cfg jitter publish row acc = (case acc of (ids, pass, bus) \<Rightarrow>
     case ob_payload row of
       None \<Rightarrow>
         tx_then (record_dead_letter (ob_topic row) (Some ''outbox_relay'') (Some (ob_event row)) None
                    (ob_payload row) ''undeserializable envelope: '' (ob_attempts row) (ob_correlation row))
           (tx_return (ids @ [ob_id row], pass\<lparr>rp_dead := rp_dead pass + 1\<rparr>, bus))
     | Some e \<Rightarrow>
         (case publish e bus of
            (Inr u, bus') \<Rightarrow> tx_return (ids @ [ob_id row], pass\<lparr>rp_published := rp_published pass + 1\<rparr>, bus')
          | (Inl err, bus') \<Rightarrow>
              let attempts = ob_attempts row + 1 in
              if rl_max_attempts cfg \<le> attempts
              then tx_then (record_dead_letter (ob_topic row) (Some ''outbox_relay'') (Some (ob_event row))
                              (Some (ev_type e)) (ob_payload row) (error_display err) attempts
                              (ob_correlation row))
                     (tx_return (ids @ [ob_id row], pass\<lparr>rp_dead := rp_dead pass + 1\<rparr>, bus'))
              else tx_then (outbox_mark_failed (ob_id row) (error_display err)
                              (delay_with_jitter (rl_backoff cfg) attempts jitter))
                     (tx_return (ids, pass\<lparr>rp_failed := rp_failed pass + 1\<rparr>, bus'))))"

definition relay_run_once ::
  "relay \<Rightarrow> (nat \<Rightarrow> nat) \<Rightarrow> 'b publish \<Rightarrow> uuid set \<Rightarrow> 'b \<Rightarrow> ('x event_db_scheme, relay_pass \<times> 'b) db_tx" where
  "relay_run_once cfg jitter publish locked bus =
     tx_bind (claim_batch locked (rl_batch_size cfg)) (\<lambda>batch.
       if batch = [] then tx_return (relay_pass_default, bus)
       else tx_bind (tx_fold (relay_row cfg jitter publish) batch ([], relay_pass_default, bus))
              (\<lambda>(ids, pass, bus'). tx_then (outbox_mark_published ids) (tx_return (pass, bus'))))"

section \<open>The consumer runtime\<close>

datatype handler_outcome = Done | Rejected string

text \<open>
  A handler runs its own transactions, so it returns its result with the database it left,
  also when it fails.
\<close>

type_synonym 'x handler =
  "event_envelope \<Rightarrow> 'x event_db_scheme \<Rightarrow> handler_outcome res \<times> 'x event_db_scheme"

definition consumer_dead_letter ::
  "string \<Rightarrow> event_envelope \<Rightarrow> string \<Rightarrow> nat \<Rightarrow> ('x event_db_scheme, unit) db_tx" where
  "consumer_dead_letter consumer e err attempts =
     tx_then (record_dead_letter (envelope_topic e) (Some consumer) (Some (ev_id e)) (Some (ev_type e))
                (Some e) err attempts (Some (ev_correlation e)))
             (tx_return ())"

text \<open>The retry loop of \<open>process\<close>: \<open>left\<close> is how many attempts remain after this one.\<close>

fun process_loop ::
  "string \<Rightarrow> 'x handler \<Rightarrow> event_envelope \<Rightarrow> nat \<Rightarrow> nat \<Rightarrow> ('x event_db_scheme, unit) db_tx" where
  "process_loop consumer handle e attempt left = (\<lambda>s.
     case handle e s of
       (Inr Done, s') \<Rightarrow> Inr ((), s')
     | (Inr (Rejected reason), s') \<Rightarrow> consumer_dead_letter consumer e reason attempt s'
     | (Inl err, s') \<Rightarrow>
         (case left of
            0 \<Rightarrow> consumer_dead_letter consumer e (error_display err) attempt s'
          | Suc left' \<Rightarrow> process_loop consumer handle e (attempt + 1) left' s'))"

definition process ::
  "nat \<Rightarrow> string \<Rightarrow> 'x handler \<Rightarrow> event_envelope \<Rightarrow> ('x event_db_scheme, unit) db_tx" where
  "process max_delivery_attempts consumer handle e = (\<lambda>s.
     if \<not> is_supported_version e
     then consumer_dead_letter consumer e ''unsupported event version'' 0 s
     else if was_processed consumer (ev_id e) s then Inr ((), s)
     else process_loop consumer handle e 1 (max_delivery_attempts - 1) s)"

definition handle_once ::
  "string \<Rightarrow> event_envelope \<Rightarrow> ('x event_db_scheme, handler_outcome) db_tx \<Rightarrow>
   'x event_db_scheme \<Rightarrow> handler_outcome res \<times> 'x event_db_scheme" where
  "handle_once consumer e f = (\<lambda>s.
     case claim consumer e s of
       Inl err \<Rightarrow> (Inl err, s)
     | Inr (False, _) \<Rightarrow> (Inr Done, s)
     | Inr (True, s1) \<Rightarrow>
         (case f s1 of
            Inl err \<Rightarrow> (Inl err, s)
          | Inr (Rejected r, _) \<Rightarrow> (Inr (Rejected r), s)
          | Inr (Done, s2) \<Rightarrow>
              (case commit s2 of Inl err \<Rightarrow> (Inl err, s) | Inr (_, s3) \<Rightarrow> (Inr Done, s3))))"

definition validate_handler :: "string \<Rightarrow> string list \<Rightarrow> unit res" where
  "validate_handler name topics =
     (if topics = [] then Inl (Config (''handler `'' @ name @ ''` subscribes to no topics''))
      else case find (\<lambda>t. t \<notin> set all_topics) topics of
             Some t \<Rightarrow> Inl (Config (''handler `'' @ name @ ''` subscribes to unknown topic `'' @ t @ ''`''))
           | None \<Rightarrow> Inr ())"

section \<open>The relay loses no event\<close>

definition row_facts :: "outbox_row \<Rightarrow> uuid \<times> uuid \<times> event_envelope option \<times> timestamp option" where
  "row_facts r = (ob_id r, ob_event r, ob_payload r, ob_published_at r)"

definition dead_lettered :: "uuid \<Rightarrow> 'x event_db_scheme \<Rightarrow> bool" where
  "dead_lettered i s \<longleftrightarrow> (\<exists>d\<in>set (dead_letters s). dl_event d = Some i)"

lemma record_dead_letter_Inr:
  "record_dead_letter topic c i ty p err n corr s = Inr (k, s') \<Longrightarrow>
     outbox s' = outbox s \<and> clock s' = clock s \<and> set (dead_letters s) \<subseteq> set (dead_letters s') \<and>
     (\<forall>j. i = Some j \<longrightarrow> dead_lettered j s')"
  by (auto simp: record_dead_letter_def gen_uuid_def dead_lettered_def tx_simps)

lemma dead_lettered_mono:
  "set (dead_letters s) \<subseteq> set (dead_letters s') \<Longrightarrow> dead_lettered i s \<Longrightarrow> dead_lettered i s'"
  by (auto simp: dead_lettered_def)

context event_bus
begin

definition accounted :: "'b \<Rightarrow> 'x event_db_scheme \<Rightarrow> outbox_row \<Rightarrow> bool" where
  "accounted b s r \<longleftrightarrow> (\<exists>e. ob_payload r = Some e \<and> e \<in> delivered b) \<or> dead_lettered (ob_event r) s"

lemma accounted_mono:
  "accounted b s r \<Longrightarrow> delivered b \<subseteq> delivered b' \<Longrightarrow> set (dead_letters s) \<subseteq> set (dead_letters s') \<Longrightarrow>
   accounted b' s' r"
  by (auto simp: accounted_def dead_lettered_def)

lemma relay_row_step:
  assumes "relay_row cfg jitter publish row (ids, pass, b) s = Inr ((ids', pass', b'), s')"
  shows "map row_facts (outbox s') = map row_facts (outbox s) \<and> delivered b \<subseteq> delivered b' \<and>
    clock s' = clock s \<and> set (dead_letters s) \<subseteq> set (dead_letters s') \<and>
    (ids' = ids \<or> (ids' = ids @ [ob_id row] \<and> accounted b' s' row))"
proof (cases "ob_payload row")
  case None
  then show ?thesis using assms
    by (auto simp: relay_row_def tx_simps accounted_def dest!: record_dead_letter_Inr)
next
  case (Some e)
  obtain r b1 where p: "publish e b = (r, b1)" by force
  note k = keeps [OF p]
  show ?thesis
  proof (cases r)
    case (Inr u)
    then show ?thesis using assms Some p k delivers [of e b b1]
      by (auto simp: relay_row_def tx_simps accounted_def)
  next
    case (Inl err)
    have facts: "map row_facts (upd_where (\<lambda>r. ob_id r = i) (\<lambda>r. r\<lparr>ob_attempts := ob_attempts r + 1,
        ob_last_error := x, ob_next_attempt := t\<rparr>) rows) = map row_facts rows" for i x t rows
      by (rule map_upd_where) (simp add: row_facts_def)
    show ?thesis
    proof (cases "rl_max_attempts cfg \<le> ob_attempts row + 1")
      case True
      then show ?thesis using assms Some p k Inl
        by (auto simp: relay_row_def tx_simps accounted_def Let_def dest!: record_dead_letter_Inr)
    next
      case False
      then show ?thesis using assms Some p k Inl facts
        by (simp add: relay_row_def tx_simps Let_def outbox_mark_failed_def)
    qed
  qed
qed

lemma relay_fold:
  assumes "tx_fold (relay_row cfg jitter publish) rows (ids, pass, b) s = Inr ((ids', pass', b'), s')"
  shows "map row_facts (outbox s') = map row_facts (outbox s) \<and> delivered b \<subseteq> delivered b' \<and>
    clock s' = clock s \<and> set (dead_letters s) \<subseteq> set (dead_letters s') \<and>
    (\<forall>i\<in>set ids'. i \<in> set ids \<or> (\<exists>r\<in>set rows. ob_id r = i \<and> accounted b' s' r))"
  using assms
proof (induction rows arbitrary: ids pass b s)
  case Nil
  then show ?case by (simp add: tx_simps)
next
  case (Cons row rows)
  from Cons.prems obtain ids1 pass1 b1 s1 where
    1: "relay_row cfg jitter publish row (ids, pass, b) s = Inr ((ids1, pass1, b1), s1)" and
    2: "tx_fold (relay_row cfg jitter publish) rows (ids1, pass1, b1) s1 = Inr ((ids', pass', b'), s')"
    by (auto simp: tx_simps)
  note r = relay_row_step [OF 1] and IH = Cons.IH [OF 2]
  have "accounted b1 s1 row \<Longrightarrow> accounted b' s' row" using IH accounted_mono by blast
  then show ?case using r IH by fastforce
qed

text \<open>
  After a pass, a row that was pending is still pending, or its event was published, or it was
  dead-lettered; rows already published are not touched.
\<close>

lemma relay_loses_nothing:
  assumes "relay_run_once cfg jitter publish locked b s = Inr ((pass, b'), s')"
    and "unique_key ob_id (outbox s)" and "r \<in> set (outbox s)"
  shows "\<exists>r'\<in>set (outbox s'). ob_id r' = ob_id r \<and> ob_event r' = ob_event r \<and> ob_payload r' = ob_payload r \<and>
    (ob_published_at r' = ob_published_at r \<or> accounted b' s' r)"
proof (cases "take (rl_batch_size cfg) (sort_key ob_created_at
     (filter (\<lambda>r. ob_published_at r = None \<and> ob_next_attempt r \<le> clock s \<and> ob_id r \<notin> locked) (outbox s)))")
  case Nil
  with assms(1,3) show ?thesis
    by (auto simp: relay_run_once_def claim_batch_def tx_simps)
next
  case (Cons row rows)
  let ?batch = "row # rows"
  have sub: "set ?batch \<subseteq> set (outbox s)"
  proof -
    have "set ?batch \<subseteq> set (sort_key ob_created_at (filter (\<lambda>r. ob_published_at r = None \<and>
       ob_next_attempt r \<le> clock s \<and> ob_id r \<notin> locked) (outbox s)))"
      unfolding Cons [symmetric] by (rule set_take_subset)
    then show ?thesis by auto
  qed
  from assms(1) Cons obtain ids s1 where
    f: "tx_fold (relay_row cfg jitter publish) ?batch ([], relay_pass_default, b) s = Inr ((ids, pass, b'), s1)"
    and m: "outbox_mark_published ids s1 = Inr ((), s')"
    by (auto simp: relay_run_once_def claim_batch_def tx_simps simp del: tx_fold.simps)
  note F = relay_fold [OF f]
  have dl: "dead_letters s' = dead_letters s1"
    and ob: "outbox s' = (if ids = [] then outbox s1 else upd_where (\<lambda>r. ob_id r \<in> set ids)
        (\<lambda>r. r\<lparr>ob_published_at := Some (clock s1), ob_last_error := None\<rparr>) (outbox s1))"
    using m by (auto simp: outbox_mark_published_def tx_simps split: if_splits)
  from assms(3) have "row_facts r \<in> set (map row_facts (outbox s1))" using F by simp
  then obtain r1 where r1: "r1 \<in> set (outbox s1)" "row_facts r1 = row_facts r" by auto
  let ?r' = "if ids \<noteq> [] \<and> ob_id r1 \<in> set ids
     then r1\<lparr>ob_published_at := Some (clock s1), ob_last_error := None\<rparr> else r1"
  have in': "?r' \<in> set (outbox s')" using r1(1) ob by (auto simp: set_upd_where)
  have acc: "accounted b' s' r" if "ob_id r1 \<in> set ids"
  proof -
    from that F have "\<exists>q\<in>set ?batch. ob_id q = ob_id r1 \<and> accounted b' s1 q" by fastforce
    then obtain q where q: "q \<in> set ?batch" "ob_id q = ob_id r1" "accounted b' s1 q" by blast
    then have "q = r" using sub assms(2,3) r1(2) unique_keyD [of ob_id "outbox s" q r]
      by (auto simp: row_facts_def)
    with q(3) dl show ?thesis by (auto simp: accounted_def dead_lettered_def)
  qed
  show ?thesis using in' acc r1(2) by (intro bexI [of _ ?r']) (auto simp: row_facts_def)
qed

end

text \<open>
  C15: The relay loses no event: after a pass over the in-memory bus, every outbox row is still
  there, and either its publication state is what it was, or its event is on the bus, or a
  dead letter records it.
\<close>

theorem relay_no_event_lost:
  assumes "relay_run_once cfg jitter memory_publish locked b s = Inr ((pass, b'), s')"
    "unique_key ob_id (outbox s)" "r \<in> set (outbox s)"
  shows "\<exists>r'\<in>set (outbox s'). ob_id r' = ob_id r \<and> ob_event r' = ob_event r \<and> ob_payload r' = ob_payload r \<and>
    (ob_published_at r' = ob_published_at r \<or> (\<exists>e. ob_payload r = Some e \<and> e \<in> set (mb_published b')) \<or>
     dead_lettered (ob_event r) s')"
  using membus.relay_loses_nothing [OF assms] by (auto simp: membus.accounted_def)

definition demo_event :: event_envelope where
  "demo_event = envelope_new ''e1'' 0 (DepositConfirmed \<lparr>dcf_chain = ''c'', dcf_deposit = ''d'', dcf_user = ''u'',
     dcf_tx_hash = ''h'', dcf_block_number = 1, dcf_confirmations = 2, dcf_asset = ''ETH'', dcf_amount = 5\<rparr>) ''corr''"

definition demo_event_db :: event_db where
  "demo_event_db = \<lparr>id_src = (\<lambda>n. replicate n CHR ''i''), id_next = 1, clock = 0,
     users = [], assets = [], deposit_addresses = [], accounts = [], ltransactions = [], lentries = [],
     outbox = [], processed = [], dead_letters = []\<rparr>"

definition demo_relay_cfg :: relay where
  "demo_relay_cfg = \<lparr>rl_batch_size = 1,
     rl_backoff = \<lparr>bo_base = 0, bo_max = 0, bo_max_attempts = 1, bo_jitter_pct = 0\<rparr>,
     rl_max_attempts = 1\<rparr>"

definition demo_enqueued :: event_db where
  "demo_enqueued = final (enqueue demo_event demo_event_db)"

lemma demo_relay:
  "succeeds (relay_run_once demo_relay_cfg (\<lambda>n. n) memory_publish {}
     \<lparr>mb_published = [], mb_fail = Some ''down''\<rparr> demo_enqueued)"
  "map ob_id (outbox demo_enqueued) = [''i'']"
  by (simp_all add: demo_relay_cfg_def demo_enqueued_def demo_event_def demo_event_db_def envelope_new_def
      enqueue_def gen_uuid_def relay_run_once_def claim_batch_def relay_row_def memory_publish_def
      record_dead_letter_def outbox_mark_published_def tx_eval final_def succeeds_def)

theorem relay_no_event_lost_witness:
  "\<exists>r pass b' s'. outbox demo_enqueued = [r] \<and>
     relay_run_once demo_relay_cfg (\<lambda>n. n) memory_publish {}
       \<lparr>mb_published = [], mb_fail = Some ''down''\<rparr> demo_enqueued = Inr ((pass, b'), s') \<and>
     (\<exists>r'\<in>set (outbox s'). ob_event r' = ob_event r)"
proof -
  obtain r where r: "outbox demo_enqueued = [r]"
    using demo_relay(2) by (auto simp: map_eq_Cons_conv)
  obtain pass b' s' where p: "relay_run_once demo_relay_cfg (\<lambda>n. n) memory_publish {}
       \<lparr>mb_published = [], mb_fail = Some ''down''\<rparr> demo_enqueued = Inr ((pass, b'), s')"
    using succeeds_final [OF demo_relay(1)] by fast
  have "unique_key ob_id (outbox demo_enqueued)" "r \<in> set (outbox demo_enqueued)" by (simp_all add: r)
  from relay_no_event_lost [OF p this] r p show ?thesis by blast
qed

section \<open>Handling an event once\<close>

definition keeps_processed :: "('x event_db_scheme, 'a) db_tx \<Rightarrow> bool" where
  "keeps_processed f \<longleftrightarrow> (\<forall>s a s'. f s = Inr (a, s') \<longrightarrow> set (processed s) \<subseteq> set (processed s'))"

lemma claim_Inr:
  "claim c e s = Inr (b, s') \<longleftrightarrow> (if was_processed c (ev_id e) s then \<not> b \<and> s' = s
     else b \<and> s' = s\<lparr>processed := processed s @ [\<lparr>pe_consumer = c, pe_event = ev_id e, pe_type = ev_type e,
       pe_processed_at = clock s\<rparr>]\<rparr>)"
  by (auto simp: claim_def claim_event_def was_processed_def split: if_splits)

lemma commit_state: "commit s = Inr (u, s') \<Longrightarrow> s' = s"
  by (auto simp: commit_def split: option.splits sum.splits)

lemma handle_once_processed: "was_processed c (ev_id e) s \<Longrightarrow> handle_once c e f s = (Inr Done, s)"
  by (simp add: handle_once_def claim_def claim_event_def was_processed_def)

lemma handle_once_cases:
  assumes "\<not> was_processed c (ev_id e) s"
  obtains (failed) err where "handle_once c e f s = (Inl err, s)"
  | (rejected) r where "handle_once c e f s = (Inr (Rejected r), s)"
  | (handled) s1 s2 where "handle_once c e f s = (Inr Done, s2)" "was_processed c (ev_id e) s1"
      "f s1 = Inr (Done, s2)"
proof -
  let ?s1 = "s\<lparr>processed := processed s @ [\<lparr>pe_consumer = c, pe_event = ev_id e, pe_type = ev_type e,
       pe_processed_at = clock s\<rparr>]\<rparr>"
  have cl: "claim c e s = Inr (True, ?s1)" using assms by (simp add: claim_Inr)
  have w: "was_processed c (ev_id e) ?s1" by (auto simp: was_processed_def)
  show thesis
  proof (cases "f ?s1")
    case (Inl err)
    then show thesis using failed cl by (simp add: handle_once_def)
  next
    case (Inr r)
    obtain o2 s2 where r: "r = (o2, s2)" by force
    show thesis
    proof (cases o2)
      case (Rejected m)
      then show thesis using rejected cl Inr r by (simp add: handle_once_def)
    next
      case Done
      show thesis
      proof (cases "commit s2")
        case (Inl err)
        then show thesis using failed cl Inr r Done by (simp add: handle_once_def)
      next
        case Inr2: (Inr q)
        obtain u s3 where q: "q = (u, s3)" by (cases q)
        have "s3 = s2" using commit_state Inr2 q by blast
        then show thesis using handled [of s2 ?s1] w cl Inr r Done Inr2 q by (simp add: handle_once_def)
      qed
    qed
  qed
qed

text \<open>
  C16: The claim-then-act wrapper handles an event once: when it returns \<open>Done\<close> the event is
  recorded as processed, and from then on, in any state that still has the record, every
  redelivery returns \<open>Done\<close> without running the handler; when it fails or rejects, nothing
  changes, so a redelivery runs the handler again.
\<close>

theorem handle_once_exactly_once:
  fixes s :: "'x event_db_scheme"
  assumes "keeps_processed f" "handle_once c e f s = (r, s')"
  shows "(r = Inr Done \<longrightarrow> was_processed c (ev_id e) s' \<and>
           (\<forall>(t :: 'x event_db_scheme) g. set (processed s') \<subseteq> set (processed t) \<longrightarrow>
              handle_once c e g t = (Inr Done, t)))
       \<and> (r \<noteq> Inr Done \<longrightarrow> s' = s)"
proof -
  have later: "handle_once c e g t = (Inr Done, t)"
    if "was_processed c (ev_id e) s'" "set (processed s') \<subseteq> set (processed t)" for g and t :: "'x event_db_scheme"
    using that by (intro handle_once_processed) (auto simp: was_processed_def)
  show ?thesis
  proof (cases "was_processed c (ev_id e) s")
    case True
    then have "r = Inr Done" "s' = s" using assms(2) handle_once_processed [OF True, of f] by auto
    then show ?thesis using True later by blast
  next
    case False
    then show ?thesis
    proof (cases rule: handle_once_cases [of c e s f])
      case (handled s1 s2)
      then have "was_processed c (ev_id e) s2"
        using assms(1) by (fastforce simp: keeps_processed_def was_processed_def)
      moreover have "r = Inr Done" "s' = s2" using handled(1) assms(2) by auto
      ultimately show ?thesis using later by blast
    qed (use assms(2) in auto)
  qed
qed

theorem handle_once_exactly_once_witness:
  "handle_once ''c'' demo_event (\<lambda>s. Inr (Rejected ''run twice'', s))
     (snd (handle_once ''c'' demo_event (\<lambda>s. Inr (Done, s)) demo_event_db)) =
   (Inr Done, snd (handle_once ''c'' demo_event (\<lambda>s. Inr (Done, s)) demo_event_db))"
proof -
  let ?h = "handle_once ''c'' demo_event (\<lambda>s. Inr (Done, s)) demo_event_db"
  have k: "keeps_processed (\<lambda>s :: event_db. Inr (Done, s))" by (simp add: keeps_processed_def)
  have "fst ?h = Inr Done" by code_simp
  then have h: "?h = (Inr Done, snd ?h)" by (metis prod.collapse)
  from handle_once_exactly_once [OF k h] show ?thesis by blast
qed

end
