(* ===== verification/Chain_Types.thy ===== *)
theory Chain_Types
  imports Models
begin

text \<open>
  Chain identity, finality, addresses and hashes (\<open>crates/common/src/chain.rs\<close>). The Keccak-256
  hash of the EIP-55 checksum is the argument \<open>keccak\<close>; every fact here holds for any function.
\<close>

definition chain_id_new :: "string \<Rightarrow> string res" where
  "chain_id_new s =
     (if s \<noteq> [] \<and> length s \<le> 64 \<and> list_all (\<lambda>c. is_lower c \<or> is_digit c \<or> c = CHR ''-'') s
      then Inr s else Inl (UnsupportedChain s))"

datatype chain_kind = Evm | Solana

datatype finality_policy = Confirmations nat | Tag string

fun required_confirmations :: "finality_policy \<Rightarrow> nat option" where
  "required_confirmations (Confirmations n) = Some n"
| "required_confirmations (Tag _) = None"

definition confirmations_for :: "nat \<Rightarrow> nat \<Rightarrow> nat" where
  "confirmations_for head included_at = sat_add_u64 (head - included_at) 1"

fun is_confirmed :: "finality_policy \<Rightarrow> nat \<Rightarrow> nat \<Rightarrow> bool" where
  "is_confirmed (Confirmations blocks) head included_at =
     (max blocks 1 \<le> confirmations_for head included_at)"
| "is_confirmed (Tag _) head included_at = False"

section \<open>Addresses\<close>

definition upper_char :: "char \<Rightarrow> char" where
  "upper_char c = (if is_lower c then char_of (of_char c - 32 :: nat) else c)"

definition eip55_checksum :: "(nat list \<Rightarrow> nat list) \<Rightarrow> string \<Rightarrow> string" where
  "eip55_checksum keccak lower_body =
     (let hash = keccak (map of_char lower_body) in
      ''0x'' @ map (\<lambda>(i, c).
         let nibble = (if i mod 2 = 0 then hash ! (i div 2) div 16 else hash ! (i div 2) mod 16)
         in if is_digit c \<or> nibble < 8 then c else upper_char c)
       (enumerate 0 lower_body))"

definition parse_evm :: "(nat list \<Rightarrow> nat list) \<Rightarrow> string \<Rightarrow> address res" where
  "parse_evm keccak input =
     (case strip_prefix ''0x'' (trim input) of
        None \<Rightarrow> Inl (InvalidAddress ''evm'' ''must start with 0x'')
      | Some body \<Rightarrow>
          if length body \<noteq> 40
          then Inl (InvalidAddress ''evm'' (''expected 40 hex chars, got '' @ show_nat (length body)))
          else if \<not> list_all is_hexdigit body
          then Inl (InvalidAddress ''evm'' ''non-hex characters'')
          else let canonical = eip55_checksum keccak (to_ascii_lowercase body) in
            if list_ex is_upper body \<and> list_ex is_lower body \<and> drop 2 canonical \<noteq> body
            then Inl (InvalidAddress ''evm'' ''EIP-55 checksum mismatch'')
            else if list_all (\<lambda>c. c = CHR ''0'') body
            then Inl (InvalidAddress ''evm'' ''zero address is not a valid destination'')
            else Inr canonical)"

fun address_parse :: "(nat list \<Rightarrow> nat list) \<Rightarrow> chain_kind \<Rightarrow> string \<Rightarrow> address res" where
  "address_parse keccak Evm input = parse_evm keccak input"
| "address_parse keccak Solana input =
     Inl (InvalidAddress ''solana'' ''solana address validation is not implemented in v0.1'')"

definition storage_key :: "address \<Rightarrow> string" where
  "storage_key a = to_ascii_lowercase a"

section \<open>Hashes\<close>

definition truncate_for_log :: "string \<Rightarrow> string" where
  "truncate_for_log s =
     (if length s \<le> 80 then s else take 80 s @ ''...['' @ show_nat (length s) @ '' bytes]'')"

definition hash32_parse :: "string \<Rightarrow> hash32 res" where
  "hash32_parse input =
     (let s = trim input;
          body = (case strip_prefix ''0x'' s of None \<Rightarrow> s | Some b \<Rightarrow> b)
      in if length body \<noteq> 64 \<or> \<not> list_all is_hexdigit body
         then Inl (Validation (''invalid 32-byte hash: '' @ truncate_for_log s))
         else Inr (''0x'' @ to_ascii_lowercase body))"

section \<open>Finality\<close>

lemma confirmations_mono: "head \<le> head' \<Longrightarrow> confirmations_for head b \<le> confirmations_for head' b"
  by (auto simp: confirmations_for_def sat_add_u64_def)

text \<open>A growing head never takes a confirmation back.\<close>

lemma is_confirmed_mono: "is_confirmed p head b \<Longrightarrow> head \<le> head' \<Longrightarrow> is_confirmed p head' b"
  using confirmations_mono [of head head' b] by (cases p) auto

section \<open>Address round trips\<close>

lemma upper_char_lower: "is_hexdigit c \<Longrightarrow> \<not> is_upper c \<Longrightarrow> lower_char (upper_char c) = c"
  by (auto simp: upper_char_def lower_char_def is_upper_def is_lower_def Let_def)

lemma upper_char_hex: "is_hexdigit c \<Longrightarrow> is_hexdigit (upper_char c)"
  by (auto simp: upper_char_def is_hexdigit_def is_lower_def is_digit_def Let_def)

lemma lower_char_hex: "is_hexdigit c \<Longrightarrow> is_hexdigit (lower_char c)"
  by (auto simp: lower_char_def is_hexdigit_def is_upper_def is_digit_def Let_def)

lemma upper_char_zero: "upper_char c = CHR ''0'' \<longleftrightarrow> c = CHR ''0''"
proof (cases "is_lower c")
  case True
  then have n: "97 \<le> (of_char c :: nat)" "(of_char c :: nat) \<le> 122"
    by (simp_all add: is_lower_def Let_def)
  then have "of_char (upper_char c) = (of_char c - 32 :: nat)"
    using True by (simp add: upper_char_def of_char_of)
  with n have "(of_char (upper_char c) :: nat) \<noteq> of_char (CHR ''0'')" "(of_char c :: nat) \<noteq> of_char (CHR ''0'')"
    by auto
  then show ?thesis by metis
qed (simp add: upper_char_def)

text \<open>What \<open>eip55_checksum\<close> changes is the case of letters, nothing else.\<close>

definition checksum_char :: "nat list \<Rightarrow> nat \<times> char \<Rightarrow> char" where
  "checksum_char hash ic = (case ic of (i, c) \<Rightarrow>
     let nibble = (if i mod 2 = 0 then hash ! (i div 2) div 16 else hash ! (i div 2) mod 16)
     in if is_digit c \<or> nibble < 8 then c else upper_char c)"

lemma eip55_checksum_alt:
  "eip55_checksum keccak b = ''0x'' @ map (checksum_char (keccak (map of_char b))) (enumerate 0 b)"
  by (simp add: eip55_checksum_def checksum_char_def Let_def)

lemma checksum_char_cases: "checksum_char h (i, c) = c \<or> checksum_char h (i, c) = upper_char c"
  by (simp add: checksum_char_def Let_def)

lemma map_enumerate_lower:
  assumes "\<forall>c\<in>set b. is_hexdigit c \<and> \<not> is_upper c"
  shows "map lower_char (map (checksum_char h) (enumerate n b)) = b"
  using assms
proof (induction b arbitrary: n)
  case (Cons c b)
  moreover have "lower_char (checksum_char h (n, c)) = c"
    using checksum_char_cases [of h n c] Cons.prems upper_char_lower [of c] lower_char_id [of c] by auto
  ultimately show ?case by simp
qed simp

lemma checksum_chars:
  assumes "x \<in> set (map (checksum_char h) (enumerate n b))" "\<forall>c\<in>set b. is_hexdigit c"
  shows "is_hexdigit x"
proof -
  from assms(1) obtain i c where ic: "(i, c) \<in> set (enumerate n b)" "x = checksum_char h (i, c)" by auto
  then have "c \<in> set b" by (auto simp: in_set_enumerate_eq)
  then have "is_hexdigit c" using assms(2) by blast
  then show ?thesis using ic(2) checksum_char_cases [of h i c] upper_char_hex [of c] by auto
qed

lemma checksum_all_zero:
  "list_all (\<lambda>c. c = CHR ''0'') (map (checksum_char h) (enumerate n b)) \<longleftrightarrow> list_all (\<lambda>c. c = CHR ''0'') b"
proof (induction b arbitrary: n)
  case (Cons c b)
  then show ?case using checksum_char_cases [of h n c] upper_char_zero [of c] by auto
qed simp

lemma hex_not_ws: "is_hexdigit c \<Longrightarrow> \<not> is_ws c"
  by (auto simp: is_hexdigit_def is_ws_def is_digit_def Let_def)

lemma trim_0x:
  assumes "\<forall>c\<in>set b. is_hexdigit c"
  shows "trim (''0x'' @ b) = ''0x'' @ b"
proof (rule trim_id, rule disjI2)
  have "last (''0x'' @ b) \<in> set b \<or> last (''0x'' @ b) = CHR ''x''"
    by (cases b) auto
  then show "\<not> is_ws (hd (''0x'' @ b)) \<and> \<not> is_ws (last (''0x'' @ b))"
    using assms hex_not_ws by (auto simp: is_ws_def Let_def)
qed

lemma strip_0x: "strip_prefix ''0x'' (''0x'' @ b) = Some b"
  by (simp add: strip_prefix_def starts_with_def)

lemma lower_zero: "lower_char c = CHR ''0'' \<longleftrightarrow> c = CHR ''0''"
proof (cases "is_upper c")
  case True
  then have n: "65 \<le> (of_char c :: nat)" "(of_char c :: nat) \<le> 90"
    by (simp_all add: is_upper_def Let_def)
  then have "of_char (lower_char c) = (of_char c + 32 :: nat)"
    using True by (simp add: lower_char_def of_char_of)
  with n have "(of_char (lower_char c) :: nat) \<noteq> of_char (CHR ''0'')" "(of_char c :: nat) \<noteq> of_char (CHR ''0'')"
    by auto
  then show ?thesis by metis
qed (simp add: lower_char_def)

section \<open>Properties\<close>

lemma to_lower_hex:
  assumes "list_all is_hexdigit b"
  shows "\<forall>c\<in>set (to_ascii_lowercase b). is_hexdigit c \<and> \<not> is_upper c"
  using assms lower_char_hex by (auto simp: to_ascii_lowercase_def list_all_iff)

lemma lower_0x: "to_ascii_lowercase (''0x'' @ b) = ''0x'' @ to_ascii_lowercase b"
  by (simp add: to_ascii_lowercase_def lower_char_def is_upper_def)

text \<open>
  Parsing an address is stable: an accepted input yields the checksummed form of a nonzero
  20-byte value; that form is accepted again and parses to itself; and the key under which it
  is stored is the case-folded input, so inputs that differ only in case share a key.
\<close>

theorem address_parse_stable:
  assumes "address_parse keccak k input = Inr a"
  shows "address_parse keccak k a = Inr a \<and>
    (\<exists>body. strip_prefix ''0x'' (trim input) = Some body \<and> length body = 40 \<and>
       list_all is_hexdigit body \<and> \<not> list_all (\<lambda>c. c = CHR ''0'') body \<and>
       storage_key a = ''0x'' @ to_ascii_lowercase body)"
proof -
  from assms have k: "k = Evm" by (cases k) simp_all
  with assms have p: "parse_evm keccak input = Inr a" by simp
  then obtain body where b: "strip_prefix ''0x'' (trim input) = Some body" "length body = 40"
    "list_all is_hexdigit body" "\<not> list_all (\<lambda>c. c = CHR ''0'') body"
    "a = eip55_checksum keccak (to_ascii_lowercase body)"
    by (auto simp: parse_evm_def Let_def split: option.splits if_splits)
  define lb where "lb = to_ascii_lowercase body"
  define cb where "cb = map (checksum_char (keccak (map of_char lb))) (enumerate 0 lb)"
  have a: "a = ''0x'' @ cb" by (simp add: b(5) eip55_checksum_alt cb_def lb_def)
  have hex: "\<forall>c\<in>set lb. is_hexdigit c \<and> \<not> is_upper c" using to_lower_hex [OF b(3)] by (simp add: lb_def)
  then have lcb: "to_ascii_lowercase cb = lb"
    using map_enumerate_lower [of lb] by (simp add: to_ascii_lowercase_def cb_def)
  have hcb: "\<forall>c\<in>set cb. is_hexdigit c" using checksum_chars hex unfolding cb_def by blast
  have "list_all (\<lambda>c. c = CHR ''0'') lb = list_all (\<lambda>c. c = CHR ''0'') body"
    by (simp add: lb_def to_ascii_lowercase_def list.pred_map lower_zero comp_def)
  then have nz: "\<not> list_all (\<lambda>c. c = CHR ''0'') cb"
    using b(4) checksum_all_zero unfolding cb_def by blast
  have len: "length cb = 40" by (simp add: cb_def lb_def b(2))
  have "parse_evm keccak a = Inr a"
    unfolding parse_evm_def a trim_0x [OF hcb] strip_0x
    using len hcb nz by (simp add: list_all_iff lcb eip55_checksum_alt flip: cb_def)
  moreover have "storage_key a = ''0x'' @ lb"
    by (simp only: a storage_key_def lower_0x lcb)
  ultimately show ?thesis using k b by (auto simp: lb_def)
qed

definition demo_address :: string where
  "demo_address = ''0x'' @ replicate 39 CHR ''A'' @ ''1''"

lemma demo_address_parses: "succeeds (address_parse (\<lambda>_. replicate 32 0) Evm demo_address)"
  by code_simp

theorem address_parse_stable_witness:
  "\<exists>a. address_parse (\<lambda>_. replicate 32 0) Evm demo_address = Inr a \<and>
       address_parse (\<lambda>_. replicate 32 0) Evm a = Inr a"
  using demo_address_parses address_parse_stable [of "\<lambda>_. replicate 32 0" Evm demo_address]
  by (auto simp: succeeds_Inr simp del: address_parse.simps)

text \<open>
  Finality by confirmations: the including block counts as one, a block is confirmed exactly
  when the head is at least the required number of blocks on top of it (at least one), and a
  head that grows never takes a confirmation back. Finality by tag never confirms.
\<close>

theorem finality_exact:
  assumes "included_at \<le> head" "head < u64_max"
  shows "confirmations_for head included_at = head - included_at + 1
    \<and> (is_confirmed (Confirmations n) head included_at \<longleftrightarrow> included_at + max n 1 \<le> head + 1)
    \<and> (\<forall>p head'. head \<le> head' \<longrightarrow> is_confirmed p head included_at \<longrightarrow> is_confirmed p head' included_at)
    \<and> (\<forall>t. \<not> is_confirmed (Tag t) head included_at)"
proof -
  have c: "confirmations_for head included_at = head - included_at + 1"
    using assms(2) by (simp add: confirmations_for_def sat_add_u64_def)
  show ?thesis using assms(1) is_confirmed_mono by (auto simp: c)
qed

theorem finality_exact_witness:
  "is_confirmed (Confirmations 10) 109 100 \<and> \<not> is_confirmed (Confirmations 10) 108 100"
  using finality_exact [of 100 109 10, THEN conjunct2, THEN conjunct1]
    finality_exact [of 100 108 10, THEN conjunct2, THEN conjunct1]
  by (simp del: is_confirmed.simps)

text \<open>A parsed hash is in the canonical lower-case form, a fixed point of parsing.\<close>

lemma hash32_canonical:
  assumes "hash32_parse input = Inr h"
  shows "length h = 66 \<and> hash32_parse h = Inr h \<and> to_ascii_lowercase h = h"
proof -
  from assms obtain b where b: "length b = 64" "list_all is_hexdigit b" "h = ''0x'' @ to_ascii_lowercase b"
    by (auto simp: hash32_parse_def Let_def split: option.splits if_splits)
  let ?l = "to_ascii_lowercase b"
  have hex: "\<forall>c\<in>set ?l. is_hexdigit c" using to_lower_hex [OF b(2)] by blast
  have low: "to_ascii_lowercase h = h"
    by (simp only: b(3) lower_0x to_ascii_lowercase_idem)
  have "hash32_parse h = Inr h"
    unfolding hash32_parse_def Let_def b(3) trim_0x [OF hex] strip_0x
    using hex b(1) by (simp add: list_all_iff)
  with b low show ?thesis by simp
qed

end
