(* ===== verification/Chain_Db.thy ===== *)
theory Chain_Db
  imports Delivery Chain_Types
begin

text \<open>
  Persistence of the deposit side: block lineage, watcher cursor and observed transfers
  (\<open>crates/database/src/repo/chain.rs\<close>), deposits (\<open>crates/database/src/repo/deposits.rs\<close>), the
  reference lookups they need (\<open>repo/reference.rs\<close>), and the tables and constraints of
  \<open>migrations/0002_chain.sql\<close> and \<open>0004_deposits.sql\<close>. Heights are natural numbers below
  \<open>2 ^ 63\<close>, the range of the \<open>BIGINT\<close> columns.
\<close>

record chain_db = event_db +
  blocks :: "chain_block list"
  cursors :: "chain_cursor list"
  transfers :: "blockchain_transaction list"
  deposits :: "deposit list"

section \<open>Reference lookups\<close>

definition get_asset_by_id :: "uuid \<Rightarrow> ('x ref_db_scheme, asset) db_tx" where
  "get_asset_by_id i = (\<lambda>s. case find (\<lambda>a. as_id a = i) (assets s) of
     None \<Rightarrow> Inl (NotFound ''asset'') | Some a \<Rightarrow> Inr (a, s))"

definition get_asset :: "string \<Rightarrow> string \<Rightarrow> ('x ref_db_scheme, asset) db_tx" where
  "get_asset chain symbol = (\<lambda>s.
     case find (\<lambda>a. as_chain a = chain \<and> as_symbol a = symbol) (assets s) of
       None \<Rightarrow> Inl (UnsupportedAsset (symbol @ '' on '' @ chain)) | Some a \<Rightarrow> Inr (a, s))"

definition list_assets_for_chain :: "string \<Rightarrow> 'x ref_db_scheme \<Rightarrow> asset list" where
  "list_assets_for_chain chain s = sort_key as_symbol (filter (\<lambda>a. as_chain a = chain) (assets s))"

definition owner_of_address :: "string \<Rightarrow> string \<Rightarrow> 'x ref_db_scheme \<Rightarrow> uuid option" where
  "owner_of_address chain address_lower s =
     map_option da_user (find (\<lambda>d. da_chain d = chain \<and> da_address d = address_lower) (deposit_addresses s))"

definition db_tracked_addresses :: "string \<Rightarrow> 'x ref_db_scheme \<Rightarrow> (string \<times> uuid) list" where
  "db_tracked_addresses chain s =
     map (\<lambda>d. (da_address d, da_user d)) (filter (\<lambda>d. da_chain d = chain) (deposit_addresses s))"

section \<open>Blocks and cursor\<close>

definition canonical_at :: "string \<Rightarrow> nat \<Rightarrow> chain_block \<Rightarrow> bool" where
  "canonical_at chain h b \<longleftrightarrow> cb_chain b = chain \<and> cb_height b = h \<and> is_canonical b"

definition get_cursor :: "string \<Rightarrow> 'x chain_db_scheme \<Rightarrow> chain_cursor option" where
  "get_cursor chain s = find (\<lambda>c. cc_chain c = chain) (cursors s)"

definition set_cursor :: "string \<Rightarrow> nat \<Rightarrow> hash32 \<Rightarrow> nat \<Rightarrow> ('x chain_db_scheme, unit) db_tx" where
  "set_cursor chain height hash head = tx_write (\<lambda>s.
     let row = \<lparr>cc_chain = chain, cc_height = height, cc_hash = hash, cc_head = head\<rparr> in
     if \<exists>c\<in>set (cursors s). cc_chain c = chain
     then s\<lparr>cursors := upd_where (\<lambda>c. cc_chain c = chain) (\<lambda>_. row) (cursors s)\<rparr>
     else s\<lparr>cursors := cursors s @ [row]\<rparr>)"

text \<open>
  \<open>INSERT ... ON CONFLICT (chain, hash) DO UPDATE SET status = 'canonical'\<close> under the lower-case
  check and the partial unique index on canonical heights.
\<close>

definition insert_canonical_block ::
  "string \<Rightarrow> hash32 \<Rightarrow> nat \<Rightarrow> hash32 \<Rightarrow> ('x chain_db_scheme, unit) db_tx" where
  "insert_canonical_block chain hash height parent = (\<lambda>s.
     if to_ascii_lowercase hash \<noteq> hash \<or> to_ascii_lowercase parent \<noteq> parent
     then Inl (Validation ''check constraint violated: chain_blocks_lowercase'')
     else case find (\<lambda>b. cb_chain b = chain \<and> cb_hash b = hash) (blocks s) of
       Some b \<Rightarrow>
         if \<exists>q\<in>set (blocks s). canonical_at chain (cb_height b) q \<and> cb_hash q \<noteq> hash
         then Inl (Conflict ''another block is already canonical at that height; orphan it first'')
         else Inr ((), s\<lparr>blocks := upd_where (\<lambda>b. cb_chain b = chain \<and> cb_hash b = hash)
                          (\<lambda>b. b\<lparr>cb_status := Canonical\<rparr>) (blocks s)\<rparr>)
     | None \<Rightarrow>
         if \<exists>q\<in>set (blocks s). canonical_at chain height q
         then Inl (Conflict ''another block is already canonical at that height; orphan it first'')
         else Inr ((), s\<lparr>blocks := blocks s @
                [\<lparr>cb_chain = chain, cb_hash = hash, cb_height = height, cb_parent = parent,
                  cb_status = Canonical\<rparr>]\<rparr>))"

definition get_canonical_block_at :: "string \<Rightarrow> nat \<Rightarrow> 'x chain_db_scheme \<Rightarrow> chain_block option" where
  "get_canonical_block_at chain height s = find (canonical_at chain height) (blocks s)"

definition get_block :: "string \<Rightarrow> hash32 \<Rightarrow> 'x chain_db_scheme \<Rightarrow> chain_block option" where
  "get_block chain hash s = find (\<lambda>b. cb_chain b = chain \<and> cb_hash b = hash) (blocks s)"

definition canonical_blocks_from :: "string \<Rightarrow> nat \<Rightarrow> 'x chain_db_scheme \<Rightarrow> chain_block list" where
  "canonical_blocks_from chain from_height s = rev (sort_key cb_height
     (filter (\<lambda>b. cb_chain b = chain \<and> from_height \<le> cb_height b \<and> is_canonical b) (blocks s)))"

definition orphan_blocks_above :: "string \<Rightarrow> nat \<Rightarrow> ('x chain_db_scheme, hash32 list) db_tx" where
  "orphan_blocks_above chain h = (\<lambda>s.
     let P = (\<lambda>b. cb_chain b = chain \<and> h < cb_height b \<and> is_canonical b)
     in Inr (map cb_hash (filter P (blocks s)),
             s\<lparr>blocks := upd_where P (\<lambda>b. b\<lparr>cb_status := Orphaned\<rparr>) (blocks s)\<rparr>))"

definition highest_canonical_height :: "string \<Rightarrow> 'x chain_db_scheme \<Rightarrow> nat option" where
  "highest_canonical_height chain s =
     (let hs = map cb_height (filter (\<lambda>b. cb_chain b = chain \<and> is_canonical b) (blocks s))
      in if hs = [] then None else Some (Max (set hs)))"

definition prune_blocks_below :: "string \<Rightarrow> nat \<Rightarrow> ('x chain_db_scheme, nat) db_tx" where
  "prune_blocks_below chain height = (\<lambda>s.
     let P = (\<lambda>b. cb_chain b = chain \<and> cb_height b < height \<and>
                  \<not> (\<exists>t\<in>set (transfers s). bt_chain t = cb_chain b \<and> bt_block_hash t = cb_hash b))
     in Inr (rows_affected P (blocks s), s\<lparr>blocks := filter (\<lambda>b. \<not> P b) (blocks s)\<rparr>))"

section \<open>Transfers\<close>

definition transfer_key :: "blockchain_transaction \<Rightarrow> string \<times> hash32 \<times> int" where
  "transfer_key t = (bt_chain t, bt_tx_hash t, bt_log_index t)"

definition insert_transfer ::
  "observed_transfer \<Rightarrow> uuid \<Rightarrow> ('x chain_db_scheme, blockchain_transaction option) db_tx" where
  "insert_transfer t asset = (\<lambda>s.
     if \<not> 0 < ot_amount t
     then Inl (Validation ''check constraint violated: blockchain_transactions_amount_positive'')
     else if to_ascii_lowercase (ot_tx_hash t) \<noteq> ot_tx_hash t \<or> to_ascii_lowercase (ot_block_hash t) \<noteq> ot_block_hash t
     then Inl (Validation ''check constraint violated: blockchain_transactions_lowercase'')
     else if (ot_chain t, ot_tx_hash t, ot_log_index t) \<in> transfer_key ` set (transfers s) then Inr (None, s)
     else if asset \<notin> as_id ` set (assets s)
     then Inl (Validation ''referenced row does not exist (blockchain_transactions_asset_id_fkey)'')
     else if get_block (ot_chain t) (ot_block_hash t) s = None
     then Inl (Validation ''referenced row does not exist (blockchain_transactions_chain_block_hash_fkey)'')
     else tx_bind gen_uuid (\<lambda>i s.
       let row = \<lparr>bt_id = i, bt_chain = ot_chain t, bt_tx_hash = ot_tx_hash t, bt_log_index = ot_log_index t,
                  bt_block_number = ot_block_number t, bt_block_hash = ot_block_hash t,
                  bt_from = storage_key (ot_from t), bt_to = storage_key (ot_to t), bt_asset = asset,
                  bt_amount = ot_amount t, bt_status = TObserved\<rparr>
       in Inr (Some row, s\<lparr>transfers := transfers s @ [row]\<rparr>)) s)"

definition get_transfer_by_hash :: "hash32 \<Rightarrow> 'x chain_db_scheme \<Rightarrow> blockchain_transaction list" where
  "get_transfer_by_hash h s = sort_key bt_log_index (filter (\<lambda>t. bt_tx_hash t = h) (transfers s))"

definition mark_transfers_orphaned ::
  "string \<Rightarrow> hash32 list \<Rightarrow> ('x chain_db_scheme, uuid list) db_tx" where
  "mark_transfers_orphaned chain hashes =
     (if hashes = [] then tx_return []
      else (\<lambda>s. let P = (\<lambda>t. bt_chain t = chain \<and> bt_block_hash t \<in> set hashes \<and> bt_status t \<noteq> TOrphaned)
                in Inr (map bt_id (filter P (transfers s)),
                        s\<lparr>transfers := upd_where P (\<lambda>t. t\<lparr>bt_status := TOrphaned\<rparr>) (transfers s)\<rparr>)))"

section \<open>Deposits\<close>

definition create_deposit ::
  "uuid \<Rightarrow> uuid \<Rightarrow> uuid \<Rightarrow> amount \<Rightarrow> ('x chain_db_scheme, deposit) db_tx" where
  "create_deposit user btx asset amt = (\<lambda>s.
     if \<not> 0 < amt then Inl (Validation ''check constraint violated: deposits_amount_positive'')
     else case find (\<lambda>d. d_btx d = btx) (deposits s) of
       Some d \<Rightarrow> Inr (d, s)
     | None \<Rightarrow>
         if user \<notin> u_id ` set (users s)
         then Inl (Validation ''referenced row does not exist (deposits_user_id_fkey)'')
         else if btx \<notin> bt_id ` set (transfers s)
         then Inl (Validation ''referenced row does not exist (deposits_blockchain_transaction_id_fkey)'')
         else if asset \<notin> as_id ` set (assets s)
         then Inl (Validation ''referenced row does not exist (deposits_asset_id_fkey)'')
         else tx_bind gen_uuid (\<lambda>i s.
           let d = \<lparr>d_id = i, d_user = user, d_btx = btx, d_asset = asset, d_amount = amt,
                    d_confirmations = 0, d_status = DObserved, d_ledger_tx = None,
                    d_reversal_tx = None, d_failure_reason = None, d_credited_at = None,
                    d_created_at = clock s\<rparr>
           in Inr (d, s\<lparr>deposits := deposits s @ [d]\<rparr>)) s)"

definition get_deposit :: "uuid \<Rightarrow> ('x chain_db_scheme, deposit) db_tx" where
  "get_deposit i = (\<lambda>s. case find (\<lambda>d. d_id d = i) (deposits s) of
     None \<Rightarrow> Inl (NotFound ''deposit'') | Some d \<Rightarrow> Inr (d, s))"

definition lock_deposit :: "uuid \<Rightarrow> ('x chain_db_scheme, deposit) db_tx" where
  "lock_deposit i = get_deposit i"

definition list_deposits ::
  "uuid option \<Rightarrow> deposit_status option \<Rightarrow> (timestamp \<times> uuid) option \<Rightarrow> nat \<Rightarrow> 'x chain_db_scheme \<Rightarrow> deposit list" where
  "list_deposits user status after limit s =
     take limit (rev (sort_key (\<lambda>d. (d_created_at d, d_id d)) (filter (\<lambda>d.
       (case user of None \<Rightarrow> True | Some u \<Rightarrow> d_user d = u) \<and>
       (case status of None \<Rightarrow> True | Some st \<Rightarrow> d_status d = st) \<and>
       (case after of None \<Rightarrow> True | Some c \<Rightarrow> (d_created_at d, d_id d) < c)) (deposits s))))"

text \<open>The join of a deposit with its transfer and its asset.\<close>

definition pending_of :: "'x chain_db_scheme \<Rightarrow> deposit \<Rightarrow> pending_deposit option" where
  "pending_of s d =
     (case (find (\<lambda>t. bt_id t = d_btx d) (transfers s), find (\<lambda>a. as_id a = d_asset d) (assets s)) of
        (Some t, Some a) \<Rightarrow> Some
          \<lparr>pd_deposit = d_id d, pd_user = d_user d, pd_asset = d_asset d, pd_symbol = as_symbol a,
           pd_chain = bt_chain t, pd_tx_hash = bt_tx_hash t, pd_block_number = bt_block_number t,
           pd_block_hash = bt_block_hash t, pd_amount = d_amount d, pd_status = d_status d,
           pd_confirmations = d_confirmations d\<rparr>
      | _ \<Rightarrow> None)"

definition claim_pending_deposits ::
  "uuid set \<Rightarrow> string \<Rightarrow> nat \<Rightarrow> ('x chain_db_scheme, pending_deposit list) db_tx" where
  "claim_pending_deposits locked chain limit = tx_read (\<lambda>s. take limit (sort_key pd_block_number
     (filter (\<lambda>p. pd_chain p = chain) (List.map_filter (pending_of s)
       (filter (\<lambda>d. d_status d \<in> {DObserved, DConfirming, DConfirmed} \<and> d_id d \<notin> locked) (deposits s))))))"

definition deposit_update_confirmations ::
  "uuid \<Rightarrow> nat \<Rightarrow> deposit_status \<Rightarrow> deposit_status \<Rightarrow> ('x chain_db_scheme, bool) db_tx" where
  "deposit_update_confirmations i n expected next_status = (\<lambda>s.
     let P = (\<lambda>d. d_id d = i \<and> d_status d = expected)
     in Inr (rows_affected P (deposits s) = 1,
             s\<lparr>deposits := upd_where P (\<lambda>d. d\<lparr>d_confirmations := n, d_status := next_status\<rparr>) (deposits s)\<rparr>))"

definition mark_credited :: "uuid \<Rightarrow> uuid \<Rightarrow> ('x chain_db_scheme, bool) db_tx" where
  "mark_credited i ltx = (\<lambda>s.
     let P = (\<lambda>d. d_id d = i \<and> d_status d = DConfirmed)
     in Inr (rows_affected P (deposits s) = 1,
             s\<lparr>deposits := upd_where P (\<lambda>d. d\<lparr>d_status := DCredited, d_ledger_tx := Some ltx,
                  d_credited_at := Some (clock s)\<rparr>) (deposits s)\<rparr>))"

definition mark_reorged :: "uuid \<Rightarrow> uuid option \<Rightarrow> string \<Rightarrow> ('x chain_db_scheme, bool) db_tx" where
  "mark_reorged i reversal reason = (\<lambda>s.
     let P = (\<lambda>d. d_id d = i \<and> d_status d \<noteq> DReorged)
     in Inr (rows_affected P (deposits s) = 1,
             s\<lparr>deposits := upd_where P (\<lambda>d. d\<lparr>d_status := DReorged, d_reversal_tx := reversal,
                  d_failure_reason := Some reason\<rparr>) (deposits s)\<rparr>))"

definition deposits_for_transfers :: "uuid list \<Rightarrow> 'x chain_db_scheme \<Rightarrow> deposit list" where
  "deposits_for_transfers ids s = filter (\<lambda>d. d_btx d \<in> set ids) (deposits s)"

end
