(* ===== verification/Deposit_Engine.thy ===== *)
theory Deposit_Engine
  imports Chain_Db
begin

text \<open>
  The deposit pipeline up to the credit: the per-chain lookup tables
  (\<open>crates/deposits/src/context.rs\<close>), persisting a scan (\<open>engine.rs\<close>), the confirmation pass
  (\<open>confirmations.rs\<close>) and the credit handler (\<open>credit.rs\<close>).
\<close>

section \<open>The chain context\<close>

record tracked_asset =
  ta_symbol :: string
  ta_contract :: "address option"
  ta_deposits_enabled :: bool

record asset_ref =
  ar_id :: uuid
  ar_symbol :: string
  ar_decimals :: nat
  ar_contract :: "address option"

record snapshot =
  sn_addresses :: "(string \<times> uuid) list"
  sn_by_contract :: "string \<rightharpoonup> asset_ref"
  sn_by_symbol :: "string \<rightharpoonup> asset_ref"
  sn_native :: "asset_ref option"
  sn_refreshed_at :: "timestamp option"

definition snapshot_default :: snapshot where
  "snapshot_default = \<lparr>sn_addresses = [], sn_by_contract = Map.empty, sn_by_symbol = Map.empty,
     sn_native = None, sn_refreshed_at = None\<rparr>"

record chain_context =
  cx_chain :: string
  cx_ttl :: nat
  cx_tracked_assets :: "tracked_asset list"
  cx_snapshot :: snapshot

definition asset_ref_of :: "asset \<Rightarrow> asset_ref" where
  "asset_ref_of a = \<lparr>ar_id = as_id a, ar_symbol = as_symbol a, ar_decimals = decimals_u8 a,
     ar_contract = as_contract a\<rparr>"

fun index_assets ::
  "asset list \<Rightarrow> (string \<rightharpoonup> asset_ref) \<times> (string \<rightharpoonup> asset_ref) \<times> asset_ref option \<Rightarrow>
   (string \<rightharpoonup> asset_ref) \<times> (string \<rightharpoonup> asset_ref) \<times> asset_ref option" where
  "index_assets [] acc = acc"
| "index_assets (a # as) (by_contract, by_symbol, native) =
     (let r = asset_ref_of a in
      index_assets as
        (case ar_contract r of
           Some c \<Rightarrow> (by_contract(storage_key c \<mapsto> r), by_symbol(as_symbol a \<mapsto> r), native)
         | None \<Rightarrow> (by_contract, by_symbol(as_symbol a \<mapsto> r), Some r)))"

definition ctx_refresh :: "timestamp \<Rightarrow> chain_context \<Rightarrow> 'x chain_db_scheme \<Rightarrow> chain_context" where
  "ctx_refresh now ctx s =
     (case index_assets (list_assets_for_chain (cx_chain ctx) s) (Map.empty, Map.empty, None) of
        (by_contract, by_symbol, native) \<Rightarrow>
          ctx\<lparr>cx_snapshot := \<lparr>sn_addresses = db_tracked_addresses (cx_chain ctx) s,
                sn_by_contract = by_contract, sn_by_symbol = by_symbol, sn_native = native,
                sn_refreshed_at = Some now\<rparr>\<rparr>)"

definition refresh_if_stale :: "timestamp \<Rightarrow> chain_context \<Rightarrow> 'x chain_db_scheme \<Rightarrow> chain_context" where
  "refresh_if_stale now ctx s =
     (let stale = (case sn_refreshed_at (cx_snapshot ctx) of None \<Rightarrow> True | Some t \<Rightarrow> cx_ttl ctx \<le> now - t)
      in if stale then ctx_refresh now ctx s else ctx)"

definition ctx_tracked_addresses :: "chain_context \<Rightarrow> string set" where
  "ctx_tracked_addresses ctx = set (map fst (sn_addresses (cx_snapshot ctx)))"

definition resolve_asset :: "chain_context \<Rightarrow> address option \<Rightarrow> asset_ref option" where
  "resolve_asset ctx contract = (case contract of
     Some c \<Rightarrow> sn_by_contract (cx_snapshot ctx) (storage_key c)
   | None \<Rightarrow> sn_native (cx_snapshot ctx))"

section \<open>Persisting a scan\<close>

record block_ref =
  br_height :: nat
  br_hash :: hash32
  br_parent :: hash32
  br_tx_count :: nat

record scan_result =
  sc_headers :: "block_ref list"
  sc_transfers :: "observed_transfer list"

text \<open>An event whose id is derived from a natural key, enqueued in the running transaction.\<close>

definition emit :: "(string \<Rightarrow> uuid) \<Rightarrow> event_payload \<Rightarrow> string \<Rightarrow> string \<Rightarrow> ('x event_db_scheme, unit) db_tx" where
  "emit v5 p corr key = (\<lambda>s. enqueue (with_deterministic_id v5 key (envelope_new [] (clock s) p corr)) s)"

record persist_stats =
  ps_blocks :: nat
  ps_transfers_seen :: nat
  ps_created :: nat
  ps_duplicates :: nat
  ps_unknown_asset :: nat
  ps_unknown_address :: nat

definition persist_stats_default :: persist_stats where
  "persist_stats_default = \<lparr>ps_blocks = 0, ps_transfers_seen = 0, ps_created = 0, ps_duplicates = 0,
     ps_unknown_asset = 0, ps_unknown_address = 0\<rparr>"

definition persist_header ::
  "(string \<Rightarrow> uuid) \<Rightarrow> string \<Rightarrow> string \<Rightarrow> block_ref \<Rightarrow> ('x chain_db_scheme, unit) db_tx" where
  "persist_header v5 chain corr header =
     tx_bind (tx_read (get_canonical_block_at chain (br_height header))) (\<lambda>existing.
     tx_then (case existing of
                Some b \<Rightarrow> if cb_hash b \<noteq> br_hash header
                          then tx_then (orphan_blocks_above chain (br_height header - 1)) (tx_return ())
                          else tx_return ()
              | None \<Rightarrow> tx_return ())
     (tx_then (insert_canonical_block chain (br_hash header) (br_height header) (br_parent header))
     (emit v5 (BlockObserved \<lparr>bo_chain = chain, bo_block_number = br_height header,
                bo_block_hash = br_hash header, bo_parent_hash = br_parent header,
                bo_tx_count = br_tx_count header\<rparr>) corr (chain @ '':'' @ br_hash header))))"

datatype transfer_outcome = Created | Duplicate | UnknownAsset | UnknownAddress

definition persist_transfer ::
  "(string \<Rightarrow> uuid) \<Rightarrow> chain_context \<Rightarrow> string \<Rightarrow> observed_transfer \<Rightarrow> ('x chain_db_scheme, transfer_outcome) db_tx" where
  "persist_transfer v5 ctx corr t =
     (case resolve_asset ctx (ot_contract t) of
        None \<Rightarrow> tx_return UnknownAsset
      | Some asset \<Rightarrow>
          tx_bind (tx_read (owner_of_address (cx_chain ctx) (storage_key (ot_to t)))) (\<lambda>owner.
          case owner of
            None \<Rightarrow> tx_return UnknownAddress
          | Some user \<Rightarrow>
              tx_bind (insert_transfer t (ar_id asset)) (\<lambda>inserted.
              case inserted of
                None \<Rightarrow> tx_return Duplicate
              | Some btx \<Rightarrow>
                  tx_bind (create_deposit user (bt_id btx) (ar_id asset) (ot_amount t)) (\<lambda>d.
                  tx_then (emit v5 (DepositObserved \<lparr>do_chain = cx_chain ctx, do_tx_hash = ot_tx_hash t,
                             do_log_index = ot_log_index t, do_block_number = ot_block_number t,
                             do_block_hash = ot_block_hash t, do_asset = ar_symbol asset, do_user = user,
                             do_deposit = d_id d, do_amount = ot_amount t\<rparr>) corr
                             (cx_chain ctx @ '':'' @ ot_tx_hash t @ '':'' @ show_int (ot_log_index t)))
                          (tx_return Created)))))"

fun count_outcome :: "transfer_outcome \<Rightarrow> persist_stats \<Rightarrow> persist_stats" where
  "count_outcome Created st = st\<lparr>ps_created := ps_created st + 1\<rparr>"
| "count_outcome Duplicate st = st\<lparr>ps_duplicates := ps_duplicates st + 1\<rparr>"
| "count_outcome UnknownAsset st = st\<lparr>ps_unknown_asset := ps_unknown_asset st + 1\<rparr>"
| "count_outcome UnknownAddress st = st\<lparr>ps_unknown_address := ps_unknown_address st + 1\<rparr>"

definition persist_in_tx ::
  "(string \<Rightarrow> uuid) \<Rightarrow> chain_context \<Rightarrow> scan_result \<Rightarrow> nat \<Rightarrow> string \<Rightarrow> ('x chain_db_scheme, persist_stats) db_tx" where
  "persist_in_tx v5 ctx scan head corr =
     (let stats0 = persist_stats_default\<lparr>ps_blocks := length (sc_headers scan),
                     ps_transfers_seen := length (sc_transfers scan)\<rparr>
      in tx_then (tx_for (sc_headers scan) (persist_header v5 (cx_chain ctx) corr))
         (tx_bind (tx_fold (\<lambda>t st. tx_bind (persist_transfer v5 ctx corr t) (\<lambda>outcome.
                      tx_return (count_outcome outcome st))) (sc_transfers scan) stats0) (\<lambda>stats.
          tx_then (if sc_headers scan = [] then tx_return ()
                   else let tip = last (sc_headers scan)
                        in set_cursor (cx_chain ctx) (br_height tip) (br_hash tip) head)
                  (tx_return stats))))"

definition persist_scan ::
  "(string \<Rightarrow> uuid) \<Rightarrow> chain_context \<Rightarrow> scan_result \<Rightarrow> nat \<Rightarrow> string \<Rightarrow> 'x chain_db_scheme \<Rightarrow>
   persist_stats res \<times> 'x chain_db_scheme" where
  "persist_scan v5 ctx scan head corr s =
     (if sc_headers scan = [] then (Inr persist_stats_default, s)
      else atomically (persist_in_tx v5 ctx scan head corr) s)"

section \<open>Confirmations\<close>

record confirmation_pass =
  cp_examined :: nat
  cp_confirming :: nat
  cp_confirmed :: nat
  cp_non_canonical :: nat

definition pass_did_work :: "confirmation_pass \<Rightarrow> bool" where
  "pass_did_work p \<longleftrightarrow> 0 < cp_confirming p + cp_confirmed p"

definition confirm_one ::
  "(string \<Rightarrow> uuid) \<Rightarrow> finality_policy \<Rightarrow> string \<Rightarrow> nat \<Rightarrow> string \<Rightarrow> pending_deposit \<Rightarrow> confirmation_pass \<Rightarrow>
   ('x chain_db_scheme, confirmation_pass) db_tx" where
  "confirm_one v5 policy chain head corr d pass =
     tx_bind (tx_read (get_canonical_block_at chain (pd_block_number d))) (\<lambda>canonical.
     if \<not> (case canonical of Some b \<Rightarrow> cb_hash b = pd_block_hash d | None \<Rightarrow> False)
     then tx_return (pass\<lparr>cp_non_canonical := cp_non_canonical pass + 1\<rparr>)
     else let n = confirmations_for head (pd_block_number d);
              confirmed = is_confirmed policy head (pd_block_number d)
      in if confirmed \<and> pd_status d \<noteq> DConfirmed
         then tx_bind (deposit_update_confirmations (pd_deposit d) n (pd_status d) DConfirmed) (\<lambda>ok.
                if ok
                then tx_then (emit v5 (DepositConfirmed \<lparr>dcf_chain = chain, dcf_deposit = pd_deposit d,
                        dcf_user = pd_user d, dcf_tx_hash = pd_tx_hash d, dcf_block_number = pd_block_number d,
                        dcf_confirmations = n, dcf_asset = pd_symbol d, dcf_amount = pd_amount d\<rparr>) corr
                        (chain @ '':'' @ pd_deposit d))
                     (tx_return (pass\<lparr>cp_confirmed := cp_confirmed pass + 1\<rparr>))
                else tx_return pass)
         else if \<not> confirmed \<and> pd_status d = DObserved
         then tx_bind (deposit_update_confirmations (pd_deposit d) n DObserved DConfirming) (\<lambda>ok.
                tx_return (if ok then pass\<lparr>cp_confirming := cp_confirming pass + 1\<rparr> else pass))
         else if \<not> confirmed
         then tx_then (deposit_update_confirmations (pd_deposit d) n DConfirming DConfirming) (tx_return pass)
         else tx_return pass)"

definition confirmation_tx ::
  "(string \<Rightarrow> uuid) \<Rightarrow> finality_policy \<Rightarrow> uuid set \<Rightarrow> string \<Rightarrow> nat \<Rightarrow> string \<Rightarrow> ('x chain_db_scheme, confirmation_pass) db_tx" where
  "confirmation_tx v5 policy locked chain head corr =
     tx_bind (claim_pending_deposits locked chain 200) (\<lambda>pending.
       tx_fold (confirm_one v5 policy chain head corr) pending
         \<lparr>cp_examined = length pending, cp_confirming = 0, cp_confirmed = 0, cp_non_canonical = 0\<rparr>)"

text \<open>\<open>run_once\<close>: the head is asked of the adapter before the transaction begins.\<close>

definition confirmation_run_once ::
  "(string \<Rightarrow> uuid) \<Rightarrow> finality_policy \<Rightarrow> uuid set \<Rightarrow> string \<Rightarrow> block_ref res \<Rightarrow> string \<Rightarrow> 'x chain_db_scheme \<Rightarrow>
   confirmation_pass res \<times> 'x chain_db_scheme" where
  "confirmation_run_once v5 policy locked chain head corr s = (case head of
     Inl e \<Rightarrow> (Inl e, s)
   | Inr h \<Rightarrow> atomically (confirmation_tx v5 policy locked chain (br_height h) corr) s)"

section \<open>The credit handler\<close>

datatype credit_outcome = CreditedNow | AlreadyCredited | NoLongerValid deposit_status

definition credit_tail ::
  "(string \<Rightarrow> uuid) \<Rightarrow> deposit \<Rightarrow> uuid \<Rightarrow> string \<Rightarrow> ('x chain_db_scheme, unit) db_tx" where
  "credit_tail v5 d ltx corr =
     tx_bind (get_asset_by_id (d_asset d)) (\<lambda>asset.
       emit v5 (DepositCredited \<lparr>dcr_chain = as_chain asset, dcr_deposit = d_id d, dcr_user = d_user d,
          dcr_asset = as_symbol asset, dcr_amount = d_amount d, dcr_ledger_tx = ltx\<rparr>) corr
          (''credited:'' @ d_id d))"

definition credit ::
  "(string \<Rightarrow> uuid) \<Rightarrow> uuid \<Rightarrow> string \<Rightarrow> 'x chain_db_scheme \<Rightarrow> credit_outcome res \<times> 'x chain_db_scheme" where
  "credit v5 deposit_id corr s =
     (case lock_deposit deposit_id s of
        Inl e \<Rightarrow> (Inl e, s)
      | Inr (d, _) \<Rightarrow>
          (case d_status d of
             DCredited \<Rightarrow> (Inr AlreadyCredited, s)
           | DReorged \<Rightarrow> (Inr (NoLongerValid DReorged), s)
           | DFailed \<Rightarrow> (Inr (NoLongerValid DFailed), s)
           | DConfirmed \<Rightarrow>
               (case credit_deposit (d_id d) (d_user d) (d_asset d) (d_amount d) (Some corr) s of
                  Inl e \<Rightarrow> (Inl e, s)
                | Inr (posted, s1) \<Rightarrow>
                    (case mark_credited (d_id d) (post_result_id posted) s1 of
                       Inl e \<Rightarrow> (Inl e, s)
                     | Inr (False, _) \<Rightarrow> (Inr AlreadyCredited, s)
                     | Inr (True, s2) \<Rightarrow>
                         (case tx_then (credit_tail v5 d (post_result_id posted) corr) commit s2 of
                            Inl e \<Rightarrow> (Inl e, s)
                          | Inr (_, s3) \<Rightarrow> (Inr CreditedNow, s3))))
           | _ \<Rightarrow> (Inl (Conflict (''deposit '' @ deposit_id @ '' is '' @ deposit_status_str (d_status d) @
                               '', not yet confirmed'')), s)))"

text \<open>
  \<open>handle\<close> claims the event in a transaction of its own and then calls \<open>credit\<close>; the crediting
  step is an argument, so that what follows a failing one can be stated.
\<close>

definition credit_handle_with ::
  "(uuid \<Rightarrow> string \<Rightarrow> 'x chain_db_scheme \<Rightarrow> credit_outcome res \<times> 'x chain_db_scheme) \<Rightarrow>
   event_envelope \<Rightarrow> 'x chain_db_scheme \<Rightarrow> handler_outcome res \<times> 'x chain_db_scheme" where
  "credit_handle_with crediting e s =
     (case ev_payload e of
        DepositConfirmed p \<Rightarrow>
          (case atomically (claim ''deposit_credit'' e) s of
             (Inl err, s1) \<Rightarrow> (Inl err, s1)
           | (Inr first_time, s1) \<Rightarrow>
               if \<not> first_time then (Inr Done, s1)
               else (case crediting (dcf_deposit p) (ev_correlation e) s1 of
                       (Inr _, s2) \<Rightarrow> (Inr Done, s2)
                     | (Inl (NotFound ent), s2) \<Rightarrow>
                         (Inr (Rejected (''deposit '' @ dcf_deposit p @ '' does not exist'')), s2)
                     | (Inl err, s2) \<Rightarrow> (Inl err, s2)))
      | _ \<Rightarrow> (Inr (Rejected (''deposit_credit received '' @ ev_type e)), s))"

definition credit_handle ::
  "(string \<Rightarrow> uuid) \<Rightarrow> event_envelope \<Rightarrow> 'x chain_db_scheme \<Rightarrow> handler_outcome res \<times> 'x chain_db_scheme" where
  "credit_handle v5 = credit_handle_with (credit v5)"

end
