(* ===== verification/Integrity.thy ===== *)
theory Integrity
  imports Ledger_Run
begin

text \<open>
  The integrity verification of the ledger (\<open>crates/ledger/src/integrity.rs\<close>): its report, the
  queries that fill it, and the surplus of an asset. The lemmas show that the report of a
  ledger that satisfies the invariant is clean, and conversely that a clean report of a
  ledger small enough for the \<open>LIMIT\<close>s means no violation, and relate solvency to the
  accounting equation.
\<close>

record unbalanced_transaction =
  ut_id :: uuid
  ut_kind :: string
  ut_net :: amount

record balance_drift =
  bd_account :: uuid
  bd_type :: account_type
  bd_cached :: amount
  bd_derived :: amount

record illegal_negative =
  in_account :: uuid
  in_type :: account_type
  in_balance :: amount

record solvency_row =
  sr_symbol :: string
  sr_chain :: string
  sr_liability :: amount
  sr_custody :: amount
  sr_clearing :: amount

record integrity_report =
  ir_transactions_checked :: nat
  ir_accounts_checked :: nat
  ir_unbalanced :: "unbalanced_transaction list"
  ir_drift :: "balance_drift list"
  ir_negatives :: "illegal_negative list"
  ir_solvency :: "solvency_row list"

definition report_is_clean :: "integrity_report \<Rightarrow> bool" where
  "report_is_clean r \<longleftrightarrow> ir_unbalanced r = [] \<and> ir_drift r = [] \<and> ir_negatives r = []"

definition problem_count :: "integrity_report \<Rightarrow> nat" where
  "problem_count r = length (ir_unbalanced r) + length (ir_drift r) + length (ir_negatives r)"

definition surplus :: "solvency_row \<Rightarrow> amount res" where
  "surplus r = (case checked_add (sr_custody r) (sr_clearing r) of
     Inl e \<Rightarrow> Inl e | Inr held \<Rightarrow> checked_sub held (sr_liability r))"

section \<open>The queries\<close>

text \<open>The join of transactions with their entries drops a transaction without entries.\<close>

definition tx_net :: "ledger_entry list \<Rightarrow> uuid \<Rightarrow> int" where
  "tx_net es i = sum_list (map signed_amount (tx_entries i es))"

definition unbalanced_rows :: "'x ledger_db_scheme \<Rightarrow> unbalanced_transaction list" where
  "unbalanced_rows s =
     map (\<lambda>t. \<lparr>ut_id = lt_id t, ut_kind = lt_kind t, ut_net = tx_net (lentries s) (lt_id t)\<rparr>)
       (filter (\<lambda>t. tx_entries (lt_id t) (lentries s) \<noteq> [] \<and> tx_net (lentries s) (lt_id t) \<noteq> 0)
         (ltransactions s))"

definition drift_rows :: "'x ledger_db_scheme \<Rightarrow> balance_drift list" where
  "drift_rows s =
     map (\<lambda>a. \<lparr>bd_account = la_id a, bd_type = la_type a, bd_cached = la_balance a,
               bd_derived = derived_balance (lentries s) a\<rparr>)
       (filter (\<lambda>a. la_balance a \<noteq> derived_balance (lentries s) a) (accounts s))"

definition negative_rows :: "'x ledger_db_scheme \<Rightarrow> illegal_negative list" where
  "negative_rows s =
     map (\<lambda>a. \<lparr>in_account = la_id a, in_type = la_type a, in_balance = la_balance a\<rparr>)
       (filter (\<lambda>a. la_balance a < 0 \<and> \<not> la_allow_negative a) (accounts s))"

definition sum_of_types :: "account_type set \<Rightarrow> uuid set \<Rightarrow> ledger_account list \<Rightarrow> int" where
  "sum_of_types ts xs as =
     sum_list (map (\<lambda>a. if la_type a \<in> ts \<and> la_asset a \<in> xs then la_balance a else 0) as)"

definition solvency_rows :: "'x ledger_db_scheme \<Rightarrow> solvency_row list" where
  "solvency_rows s =
     map (\<lambda>(chain, symbol).
            let xs = as_id ` {x \<in> set (assets s). as_chain x = chain \<and> as_symbol x = symbol} in
            \<lparr>sr_symbol = symbol, sr_chain = chain,
             sr_liability = sum_of_types {UserAvailable, UserReserved} xs (accounts s) -
                            sum_of_types {UserDeficit} xs (accounts s),
             sr_custody = sum_of_types {ExchangeCustody} xs (accounts s),
             sr_clearing = sum_of_types {WithdrawalClearing} xs (accounts s)\<rparr>)
       (sort (remdups (map (\<lambda>x. (as_chain x, as_symbol x)) (assets s))))"

text \<open>Decoding an \<open>Amount\<close> column fails the query when the value does not fit.\<close>

definition report_decodes :: "integrity_report \<Rightarrow> bool" where
  "report_decodes r \<longleftrightarrow> list_all (\<lambda>u. in_i128 (ut_net u)) (ir_unbalanced r) \<and>
     list_all (\<lambda>d. in_i128 (bd_cached d) \<and> in_i128 (bd_derived d)) (ir_drift r) \<and>
     list_all (\<lambda>n. in_i128 (in_balance n)) (ir_negatives r) \<and>
     list_all (\<lambda>w. in_i128 (sr_liability w) \<and> in_i128 (sr_custody w) \<and> in_i128 (sr_clearing w))
       (ir_solvency r)"

definition verify_ledger_integrity :: "('x ledger_db_scheme, integrity_report) db_tx" where
  "verify_ledger_integrity = (\<lambda>s.
     let r = \<lparr>ir_transactions_checked = length (ltransactions s),
              ir_accounts_checked = length (accounts s),
              ir_unbalanced = take 100 (unbalanced_rows s),
              ir_drift = take 100 (drift_rows s),
              ir_negatives = take 100 (negative_rows s),
              ir_solvency = solvency_rows s\<rparr>
     in if report_decodes r then Inr (r, s) else Inl (Database ''amount column out of range''))"

section \<open>Soundness and completeness of the report\<close>

lemma is_clean_iff: "report_is_clean r \<longleftrightarrow> problem_count r = 0"
  by (auto simp: report_is_clean_def problem_count_def)

lemma verify_Inr:
  "verify_ledger_integrity s = Inr (r, s') \<Longrightarrow> s' = s \<and> ir_unbalanced r = take 100 (unbalanced_rows s) \<and>
     ir_drift r = take 100 (drift_rows s) \<and> ir_negatives r = take 100 (negative_rows s) \<and>
     ir_solvency r = solvency_rows s"
  by (auto simp: verify_ledger_integrity_def Let_def split: if_splits)

text \<open>The three defects the report is about.\<close>

definition ledger_sound :: "'x ledger_db_scheme \<Rightarrow> bool" where
  "ledger_sound s \<longleftrightarrow>
     (\<forall>t\<in>set (ltransactions s). tx_net (lentries s) (lt_id t) = 0) \<and>
     (\<forall>a\<in>set (accounts s). la_balance a = derived_balance (lentries s) a \<and>
        (la_allow_negative a \<or> 0 \<le> la_balance a))"

lemma clean_iff_sound:
  assumes "verify_ledger_integrity s = Inr (r, s')"
  shows "report_is_clean r \<longleftrightarrow> ledger_sound s"
proof -
  note v = verify_Inr [OF assms]
  have "ir_unbalanced r = [] \<longleftrightarrow> (\<forall>t\<in>set (ltransactions s). tx_net (lentries s) (lt_id t) = 0)"
    using v by (auto simp: unbalanced_rows_def filter_empty_conv tx_net_def)
  moreover have "ir_drift r = [] \<longleftrightarrow> (\<forall>a\<in>set (accounts s). la_balance a = derived_balance (lentries s) a)"
    using v by (auto simp: drift_rows_def filter_empty_conv)
  moreover have "ir_negatives r = [] \<longleftrightarrow> (\<forall>a\<in>set (accounts s). la_allow_negative a \<or> 0 \<le> la_balance a)"
    using v by (auto simp: negative_rows_def filter_empty_conv not_less)
  ultimately show ?thesis by (auto simp: report_is_clean_def ledger_sound_def)
qed

lemma ledger_inv_sound: "ledger_inv s \<Longrightarrow> ledger_sound s"
  by (auto simp: ledger_inv_def ledger_core_def accounts_ok_def account_ok_def balanced_tx_def
      tx_net_def ledger_sound_def)

section \<open>The accounting equation\<close>

lemma sum_list_map_add: "sum_list (map f xs) + sum_list (map g xs) = sum_list (map (\<lambda>x. f x + (g x :: int)) xs)"
  by (induction xs) auto

lemma sum_list_map_diff: "sum_list (map f xs) - sum_list (map g xs) = sum_list (map (\<lambda>x. f x - (g x :: int)) xs)"
  by (induction xs) auto

text \<open>
  An asset's position is what the exchange holds (custody, value in flight, fees paid, deficits
  users owe) minus what it owes (available and reserved balances, treasury).
\<close>

lemma asset_position_equation:
  assumes "\<forall>a\<in>set (accounts s). la_normal a = normal_balance (la_type a)"
  shows "asset_position s x =
    sum_of_types {ExchangeCustody, WithdrawalClearing, NetworkFeeAccount, UserDeficit} {x} (accounts s) -
    sum_of_types {UserAvailable, UserReserved, Treasury} {x} (accounts s)"
proof -
  have "(if la_asset a = x then sign (la_normal a) * la_balance a else 0) =
     (if la_type a \<in> {ExchangeCustody, WithdrawalClearing, NetworkFeeAccount, UserDeficit} \<and> la_asset a \<in> {x}
       then la_balance a else 0) -
     (if la_type a \<in> {UserAvailable, UserReserved, Treasury} \<and> la_asset a \<in> {x} then la_balance a else 0)"
    if "a \<in> set (accounts s)" for a
    using assms that by (cases "la_type a") auto
  then show ?thesis
    unfolding asset_position_def sum_of_types_def sum_list_map_diff
    by (intro arg_cong [where f = sum_list] map_cong) auto
qed

lemma sum_of_types_Un:
  "ts \<inter> us = {} \<Longrightarrow> sum_of_types (ts \<union> us) xs as = sum_of_types ts xs as + sum_of_types us xs as"
  unfolding sum_of_types_def sum_list_map_add by (intro arg_cong [where f = sum_list] map_cong) auto

text \<open>
  Solvency of an asset with a symbol of its own: the surplus the report computes is what the
  treasury put in less the network fees paid, so no deposit, withdrawal or reorganisation
  moves it.
\<close>

lemma surplus_position:
  assumes "\<forall>a\<in>set (accounts s). la_normal a = normal_balance (la_type a)" "asset_position s x = 0"
    and r: "sr_liability r = sum_of_types {UserAvailable, UserReserved} {x} (accounts s) -
              sum_of_types {UserDeficit} {x} (accounts s)"
      "sr_custody r = sum_of_types {ExchangeCustody} {x} (accounts s)"
      "sr_clearing r = sum_of_types {WithdrawalClearing} {x} (accounts s)"
  shows "sr_custody r + sr_clearing r - sr_liability r =
    sum_of_types {Treasury} {x} (accounts s) - sum_of_types {NetworkFeeAccount} {x} (accounts s)"
proof -
  let ?S = "\<lambda>ts. sum_of_types ts {x} (accounts s)"
  have "?S {ExchangeCustody, WithdrawalClearing, NetworkFeeAccount, UserDeficit} =
    ?S {ExchangeCustody} + (?S {WithdrawalClearing} + (?S {NetworkFeeAccount} + ?S {UserDeficit}))"
    by (simp flip: sum_of_types_Un add: insert_commute)
  moreover have "?S {UserAvailable, UserReserved, Treasury} = ?S {UserAvailable, UserReserved} + ?S {Treasury}"
    by (simp flip: sum_of_types_Un add: insert_commute)
  ultimately show ?thesis
    using asset_position_equation [OF assms(1), of x] assms(2) r by simp
qed

end
