(* ===== verification/Ledger_Spec.thy ===== *)
theory Ledger_Spec
  imports Integrity
begin

text \<open>
  What the ledger promises its callers. The abstract ledger is a balance per account key and a
  set of posted keys; \<open>acall\<close> says what each operation does to it, and the operations are
  proved to implement it. On top of that: histories of the ledger keep its invariant and the
  accounting equation, retries post at most once, a reservation succeeds exactly when it is
  covered, concurrent reservations never overdraw, and reversals take back what they credited.
\<close>

section \<open>Simulation\<close>

definition areversal_legs :: "uuid \<Rightarrow> uuid \<Rightarrow> amount \<Rightarrow> aledger \<Rightarrow> (account_key \<times> direction \<times> amount) list" where
  "areversal_legs u x m L =
     (let b = a_bal L (UserAvailable, Some u, x); f = min m (max b 0)
      in ((ExchangeCustody, None, x), Credit, m) #
         (if 0 < f then [((UserAvailable, Some u, x), Debit, f)] else []) @
         (if f < m then [((UserDeficit, Some u, x), Debit, m - f)] else []))"

fun acall :: "ledger_call \<Rightarrow> aledger \<Rightarrow> aledger" where
  "acall (CallCredit d u x m c) L = apost (''deposit_credit:'' @ d)
     [((ExchangeCustody, None, x), Debit, m), ((UserAvailable, Some u, x), Credit, m)] L"
| "acall (CallReverseCredit d u x m c) L =
     apost (''deposit_reversal:'' @ d) (areversal_legs u x m L) L"
| "acall (CallReserve w u x m c) L = apost (''withdrawal_reserve:'' @ w)
     [((UserAvailable, Some u, x), Debit, m), ((UserReserved, Some u, x), Credit, m)] L"
| "acall (CallRelease w u x m c) L = apost (''withdrawal_release:'' @ w)
     [((UserReserved, Some u, x), Debit, m), ((UserAvailable, Some u, x), Credit, m)] L"
| "acall (CallBroadcast w x m c) L = apost (''withdrawal_broadcast:'' @ w)
     [((WithdrawalClearing, None, x), Debit, m), ((ExchangeCustody, None, x), Credit, m)] L"
| "acall (CallSettle w u x m c) L = apost (''withdrawal_settle:'' @ w)
     [((UserReserved, Some u, x), Debit, m), ((WithdrawalClearing, None, x), Credit, m)] L"
| "acall (CallReverseBroadcast w x m c) L = apost (''withdrawal_broadcast_reversal:'' @ w)
     [((ExchangeCustody, None, x), Debit, m), ((WithdrawalClearing, None, x), Credit, m)] L"
| "acall (CallFee w x m c) L = (if m = 0 then L else apost (''network_fee:'' @ w)
     [((NetworkFeeAccount, None, x), Debit, m), ((ExchangeCustody, None, x), Credit, m)] L)"
| "acall (CallFund x m ref c) L = apost (''custody_funding:'' @ ref)
     [((ExchangeCustody, None, x), Debit, m), ((Treasury, None, x), Credit, m)] L"

lemma require_positive_Inr: "require_positive m = Inr u \<longleftrightarrow> 0 < m"
  by (simp add: require_positive_def is_positive_def)

lemma reversal_legs_abs: "0 < m \<Longrightarrow> areversal_legs u x m (abs_ledger s) = reversal_legs u x m s"
  by (auto simp: areversal_legs_def reversal_legs_def abs_ledger_def Let_def min_def max_def)

lemma reverse_deposit_credit_positive:
  "reverse_deposit_credit d u x m c s = Inr (r, s') \<Longrightarrow> 0 < m"
  by (auto simp: reverse_deposit_credit_def tx_simps require_positive_Inr)

lemma posts_abs: "posts key legs r s s' \<Longrightarrow> abs_ledger s' = apost key legs (abs_ledger s)"
  by (simp add: posts_def)

lemma run_ledger_call_refines:
  assumes "ledger_inv s" "run_ledger_call c s = Inr (u, s')"
  shows "abs_ledger s' = acall c (abs_ledger s)"
proof (cases c)
  case (CallReverseCredit d u x m c)
  with assms obtain r where r: "reverse_deposit_credit d u x m c s = Inr (r, s')"
    by (auto simp: no_result_def tx_simps)
  show ?thesis
    using posts_abs [OF reverse_deposit_credit_posts [OF assms(1) r]] CallReverseCredit
      reversal_legs_abs [OF reverse_deposit_credit_positive [OF r], of u x s] by simp
next
  case (CallReserve w u x m c)
  with assms show ?thesis
    by (auto simp: no_result_def tx_simps dest!: reserve_withdrawal_Inr [OF assms(1)] posts_abs)
next
  case (CallFee w x m c)
  with assms show ?thesis
    by (auto simp: no_result_def tx_simps dest!: record_network_fee_posts [OF assms(1)] posts_abs)
qed (use assms in \<open>auto simp: no_result_def tx_simps dest!: op_posts_all [OF assms(1)] posts_abs\<close>)

section \<open>Reservations\<close>

definition posted_key :: "'x ledger_db_scheme \<Rightarrow> string \<Rightarrow> bool" where
  "posted_key s k \<longleftrightarrow> k \<in> lt_key ` set (ltransactions s)"

lemma known_account_extends: "ledger_extends s s' \<Longrightarrow> known_account s' k = known_account s k"
  by (simp add: known_account_def ledger_extends_def ledger_frame_def split: prod.split option.split)

lemma posts_balance:
  assumes "posts key legs r s s'" "\<not> posted_key s key"
  shows "balance_of s' k = balance_of s k + sum_list (map (leg_delta k) legs)"
proof -
  have "balance_of s' = a_bal (abs_ledger s')" by (simp add: abs_ledger_def)
  also have "\<dots> = (\<lambda>k. balance_of s k + sum_list (map (leg_delta k) legs))"
    using assms by (simp add: posts_def apost_def abs_ledger_def posted_key_def)
  finally show ?thesis by simp
qed

lemma posts_posted_key:
  assumes "posts key legs r s s'"
  shows "posted_key s' k \<longleftrightarrow> posted_key s k \<or> k = key"
proof -
  have "lt_key ` set (ltransactions s') = a_posted (abs_ledger s')" by (simp add: abs_ledger_def)
  also have "\<dots> = insert key (lt_key ` set (ltransactions s))"
    using assms by (auto simp: posts_def apost_def abs_ledger_def)
  finally show ?thesis by (auto simp: posted_key_def)
qed

text \<open>Many callers reserve the same amount of one balance; the row lock puts them in an order.\<close>

fun reserve_each :: "uuid list \<Rightarrow> uuid \<Rightarrow> uuid \<Rightarrow> amount \<Rightarrow> 'x ledger_db_scheme \<Rightarrow> nat \<times> 'x ledger_db_scheme" where
  "reserve_each [] u x m s = (0, s)"
| "reserve_each (w # ws) u x m s =
     (case atomically (reserve_withdrawal w u x m None) s of
        (Inl e, s') \<Rightarrow> reserve_each ws u x m s'
      | (Inr r, s') \<Rightarrow> (case reserve_each ws u x m s' of (n, s'') \<Rightarrow> (Suc n, s'')))"

definition can_reserve :: "uuid list \<Rightarrow> uuid \<Rightarrow> uuid \<Rightarrow> 'x ledger_db_scheme \<Rightarrow> bool" where
  "can_reserve ws u x s \<longleftrightarrow> ledger_inv s \<and> known_account s (UserAvailable, Some u, x) \<and> distinct ws \<and>
     list_all (\<lambda>w. length w \<le> 36 \<and> \<not> posted_key s (''withdrawal_reserve:'' @ w)) ws \<and>
     in_i128 (balance_of s (UserAvailable, Some u, x) + balance_of s (UserReserved, Some u, x))"

lemma atomically_reserve:
  assumes "ledger_inv s"
  shows "atomically (reserve_withdrawal w u x m c) s =
    (case reserve_withdrawal w u x m c s of Inl e \<Rightarrow> (Inl e, s) | Inr (r, s') \<Rightarrow> (Inr r, s'))"
  by (rule atomically_inv) (use reserve_withdrawal_Inr [OF assms] in \<open>auto simp: posts_def\<close>)

lemma can_reserve_step:
  assumes "can_reserve (w # ws) u x s" "0 < m" "in_i128 m"
  shows "if m \<le> balance_of s (UserAvailable, Some u, x)
    then \<exists>r s'. atomically (reserve_withdrawal w u x m None) s = (Inr r, s') \<and> can_reserve ws u x s' \<and>
      balance_of s' (UserAvailable, Some u, x) = balance_of s (UserAvailable, Some u, x) - m \<and>
      balance_of s' (UserReserved, Some u, x) = balance_of s (UserReserved, Some u, x) + m
    else \<exists>e. atomically (reserve_withdrawal w u x m None) s = (Inl e, s) \<and> can_reserve ws u x s"
proof -
  let ?a = "(UserAvailable, Some u, x)" and ?r = "(UserReserved, Some u, x)"
  have c: "ledger_inv s" "known_account s ?a" "length w \<le> 36"
    "\<not> posted_key s (''withdrawal_reserve:'' @ w)" "w \<notin> set ws" "can_reserve ws u x s"
    using assms(1) by (auto simp: can_reserve_def)
  have nn: "0 \<le> balance_of s ?a" "0 \<le> balance_of s ?r"
    using balance_of_nonneg [OF c(1)] by (simp_all add: allows_negative_def)
  then have rng: "in_i128 (balance_of s ?a)" "in_i128 (balance_of s ?r)"
    using assms(1) by (auto simp: can_reserve_def in_i128_def)
  note iff = reserve_withdrawal_iff [OF c(1,2) assms(2,3) rng c(3), of None]
  show ?thesis
  proof (cases "m \<le> balance_of s ?a")
    case True
    with iff obtain r s' where run: "reserve_withdrawal w u x m None s = Inr (r, s')" by auto
    have p: "posts (''withdrawal_reserve:'' @ w) [(?a, Debit, m), (?r, Credit, m)] r s s'"
      using reserve_withdrawal_Inr [OF c(1) run] by blast
    have ext: "ledger_inv s'" "ledger_extends s s'" using p by (auto simp: posts_def)
    have "balance_of s' ?a = balance_of s ?a - m" "balance_of s' ?r = balance_of s ?r + m"
      using posts_balance [OF p c(4)] by (simp_all add: leg_delta_def natural_delta_def)
    moreover from this have "can_reserve ws u x s'"
      using c(5,6) ext known_account_extends [OF ext(2)] posts_posted_key [OF p]
      by (auto simp: can_reserve_def list_all_iff)
    ultimately show ?thesis using run True atomically_reserve [OF c(1)] by simp
  next
    case False
    then show ?thesis using iff c(6) atomically_reserve [OF c(1)] by simp
  qed
qed

lemma reserve_each_count:
  assumes "can_reserve ws u x s" "0 < m" "in_i128 m"
  shows "case reserve_each ws u x m s of (n, s') \<Rightarrow>
    n = min (length ws) (nat (balance_of s (UserAvailable, Some u, x) div m)) \<and>
    balance_of s' (UserAvailable, Some u, x) = balance_of s (UserAvailable, Some u, x) - m * int n \<and>
    balance_of s' (UserReserved, Some u, x) = balance_of s (UserReserved, Some u, x) + m * int n"
  using assms(1)
proof (induction ws arbitrary: s)
  case Nil
  then show ?case by simp
next
  case (Cons w ws)
  let ?a = "(UserAvailable, Some u, x)"
  note st = can_reserve_step [OF Cons.prems assms(2,3)]
  show ?case
  proof (cases "m \<le> balance_of s ?a")
    case True
    with st obtain r s' where s': "atomically (reserve_withdrawal w u x m None) s = (Inr r, s')"
      "can_reserve ws u x s'" "balance_of s' ?a = balance_of s ?a - m"
      "balance_of s' (UserReserved, Some u, x) = balance_of s (UserReserved, Some u, x) + m" by auto
    have "balance_of s ?a div m = (balance_of s ?a - m) div m + 1"
      using assms(2) div_add_self2 [of m "balance_of s ?a - m"] by simp
    moreover have "0 \<le> (balance_of s ?a - m) div m"
      using True assms(2) by (simp add: pos_imp_zdiv_nonneg_iff)
    ultimately have "nat (balance_of s ?a div m) = Suc (nat ((balance_of s ?a - m) div m))" by simp
    then show ?thesis using Cons.IH [OF s'(2)] s' by (auto simp: algebra_simps split: prod.splits)
  next
    case False
    with st obtain e where e: "atomically (reserve_withdrawal w u x m None) s = (Inl e, s)"
      "can_reserve ws u x s" by auto
    have "0 \<le> balance_of s ?a"
      using Cons.prems balance_of_nonneg [of s ?a] by (simp add: can_reserve_def allows_negative_def)
    then have "balance_of s ?a div m = 0" using False by (simp add: div_pos_pos_trivial)
    then show ?thesis using Cons.IH [OF e(2)] e(1) by (auto split: prod.splits)
  qed
qed

section \<open>Sequences of operations\<close>

definition run_all :: "ledger_call list \<Rightarrow> ('x ledger_db_scheme, unit) db_tx" where
  "run_all cs = tx_for cs run_ledger_call"

lemma run_all_refines:
  assumes "ledger_inv s" "run_all cs s = Inr (u, s')"
  shows "abs_ledger s' = fold acall cs (abs_ledger s)"
  using assms
proof (induction cs arbitrary: s)
  case Nil
  then show ?case by (simp add: run_all_def tx_simps)
next
  case (Cons c cs)
  from Cons.prems(2) obtain v s1 where c: "run_ledger_call c s = Inr (v, s1)"
    and cs: "run_all cs s1 = Inr (u, s')"
    by (auto simp: run_all_def tx_simps)
  have "ledger_inv s1" using ledger_call_step [OF Cons.prems(1) c] by (simp add: ledger_step_ok_def)
  with Cons.IH cs run_ledger_call_refines [OF Cons.prems(1) c] show ?case by simp
qed

lemma run_all_balance:
  "ledger_inv s \<Longrightarrow> run_all cs s = Inr (u, s') \<Longrightarrow> balance_of s' = a_bal (fold acall cs (abs_ledger s))"
  by (metis abs_ledger_def aledger.select_convs(1) run_all_refines)

section \<open>Properties\<close>

text \<open>
  Ledger operations of a concrete database: one asset, one user, identifiers \<open>i\<close>, \<open>ii\<close>, \<open>iii\<close>
  and so on. The witnesses below evaluate the operations on it.
\<close>

definition demo_db :: ledger_db where
  "demo_db = \<lparr>id_src = (\<lambda>n. replicate n CHR ''i''), id_next = 1, clock = 0,
     users = [\<lparr>u_id = ''u'', u_external_id = ''alice'', u_created_at = 0\<rparr>],
     assets = [\<lparr>as_id = ''x'', as_symbol = ''ETH'', as_chain = ''ethereum'', as_contract = None,
                as_decimals = 18\<rparr>],
     deposit_addresses = [], accounts = [], ltransactions = [], lentries = []\<rparr>"

definition demo_credited :: ledger_db where
  "demo_credited = snd (atomically (run_ledger_call (CallCredit ''d'' ''u'' ''x'' 100 None)) demo_db)"

lemma inj_replicate: "inj (\<lambda>n. replicate n c)"
  by (auto simp: inj_def dest: arg_cong [of _ _ length])

lemma demo_fresh: "fresh_ledger demo_db"
  by (simp add: demo_db_def fresh_ledger_def inj_replicate)

lemma demo_credited_inv: "ledger_inv demo_credited"
  using atomically_call(1) [OF fresh_ledger_inv [OF demo_fresh]]
  by (simp add: demo_credited_def ledger_step_ok_def del: run_ledger_call.simps)

lemma demo_credited_eval:
  "balance_of demo_credited (UserAvailable, Some ''u'', ''x'') = 100 \<and>
   balance_of demo_credited (UserReserved, Some ''u'', ''x'') = 0 \<and>
   known_account demo_credited (UserAvailable, Some ''u'', ''x'')"
  by code_simp

text \<open>
  C7: Whatever sequence of ledger operations runs against a fresh database, each in its own
  transaction, the ledger stays consistent: every transaction balances with at least two
  entries, every amount is positive, every cached balance equals the sum of its entries, no
  spendable balance is negative, every idempotency key and account key is unique. In every
  asset the debit-normal and credit-normal balances cancel, and the history only grows.
\<close>

theorem ledger_history_invariant:
  assumes "fresh_ledger s"
  shows "ledger_inv (ledger_run (cs @ ds) s)
    \<and> ledger_extends (ledger_run cs s) (ledger_run (cs @ ds) s)
    \<and> (\<forall>x. sum_of_types {ExchangeCustody, WithdrawalClearing, NetworkFeeAccount, UserDeficit} {x}
              (accounts (ledger_run (cs @ ds) s)) =
            sum_of_types {UserAvailable, UserReserved, Treasury} {x}
              (accounts (ledger_run (cs @ ds) s)))"
proof -
  let ?t = "ledger_run cs s" and ?u = "ledger_run (cs @ ds) s"
  have app: "?u = ledger_run ds ?t" by (induction cs arbitrary: s) simp_all
  have 1: "ledger_step_ok s ?t" using assms fresh_ledger_inv ledger_run_step by blast
  then have 2: "ledger_step_ok ?t ?u"
    unfolding app by (intro ledger_run_step) (simp add: ledger_step_ok_def)
  have "asset_position ?u x = 0" for x
    using 1 2 fresh_ledger_position [OF assms] by (simp add: ledger_step_ok_def)
  moreover have "\<forall>a\<in>set (accounts ?u). la_normal a = normal_balance (la_type a)"
    using 2 by (auto simp: ledger_step_ok_def ledger_inv_def ledger_core_def accounts_ok_def account_ok_def)
  ultimately show ?thesis
    using 2 asset_position_equation [of ?u] by (simp add: ledger_step_ok_def)
qed

theorem ledger_history_invariant_witness:
  "fresh_ledger demo_db \<and>
   ledger_inv (ledger_run ([CallCredit ''d'' ''u'' ''x'' 100 None] @ [CallReserve ''w'' ''u'' ''x'' 30 None]) demo_db)"
  using demo_fresh ledger_history_invariant [OF demo_fresh] by blast

text \<open>
  C8: The operations implement the abstract ledger: when an operation returns, the balances by
  account key and the set of posted keys are exactly those \<open>acall\<close> computes, with the effect
  of the operation if its natural key was new and no effect if it was already posted; and the
  commit that follows never fails.
\<close>

theorem ledger_operations_refine:
  assumes "ledger_inv s" "run_ledger_call c s = Inr (u, s')"
  shows "abs_ledger s' = acall c (abs_ledger s) \<and> commit s' = Inr ((), s')"
proof -
  have "ledger_inv s'" using ledger_call_step [OF assms] by (simp add: ledger_step_ok_def)
  then show ?thesis using run_ledger_call_refines [OF assms] commit_inv by blast
qed

lemma demo_reserve_run: "\<exists>s'. run_ledger_call (CallReserve ''w'' ''u'' ''x'' 30 None) demo_credited = Inr ((), s')"
proof -
  have "case run_ledger_call (CallReserve ''w'' ''u'' ''x'' 30 None) demo_credited of Inl e \<Rightarrow> False | Inr r \<Rightarrow> True"
    by code_simp
  then show ?thesis by (auto split: sum.splits)
qed

theorem ledger_operations_refine_witness:
  "\<exists>s'. run_ledger_call (CallReserve ''w'' ''u'' ''x'' 30 None) demo_credited = Inr ((), s') \<and>
     abs_ledger s' = acall (CallReserve ''w'' ''u'' ''x'' 30 None) (abs_ledger demo_credited)"
  using demo_reserve_run ledger_operations_refine [OF demo_credited_inv] by blast

text \<open>
  C9: Crediting a deposit is idempotent: after a first successful credit, whatever other ledger
  operations commit in between, a second call for the same deposit, even with other arguments,
  never changes a balance and returns the transaction of the first.
\<close>

theorem credit_deposit_at_most_once:
  assumes "ledger_inv s" "credit_deposit d u x m c s = Inr (r, s1)"
    "credit_deposit d u' x' m' c' (ledger_run cs s1) = Inr (r', s2)"
  shows "balance_of s2 = balance_of (ledger_run cs s1) \<and> r' = AlreadyPosted (post_result_transaction r)"
proof -
  have "ledger_inv s1" using dc.op_inv [of s "(d, u, x, m, c)"] assms by simp
  then have st: "ledger_step_ok s1 (ledger_run cs s1)" by (rule ledger_run_step)
  then have "abs_ledger s2 = abs_ledger (ledger_run cs s1)"
    "post_result_transaction r' = post_result_transaction r" "\<not> was_posted r'"
    using dc.op_at_most_once [of s "(d, u, x, m, c)" r s1 "ledger_run cs s1" "(d, u', x', m', c')" r' s2] assms
    by (simp_all add: ledger_step_ok_def)
  then show ?thesis by (cases r') (auto simp: abs_ledger_def)
qed

lemma demo_credit_twice:
  "succeeds (credit_deposit ''d'' ''u'' ''x'' 100 None demo_db)"
  "succeeds (credit_deposit ''d'' ''u'' ''x'' 7 None
     (ledger_run [CallReserve ''w'' ''u'' ''x'' 30 None] (final (credit_deposit ''d'' ''u'' ''x'' 100 None demo_db))))"
  by code_simp+

theorem credit_deposit_at_most_once_witness:
  "\<exists>r s1 r' s2. credit_deposit ''d'' ''u'' ''x'' 100 None demo_db = Inr (r, s1) \<and>
     credit_deposit ''d'' ''u'' ''x'' 7 None (ledger_run [CallReserve ''w'' ''u'' ''x'' 30 None] s1) = Inr (r', s2) \<and>
     r' = AlreadyPosted (post_result_transaction r)"
  using demo_credit_twice [THEN succeeds_final]
    credit_deposit_at_most_once [OF fresh_ledger_inv [OF demo_fresh]] by blast

text \<open>
  C10: Reserving funds succeeds exactly when the available balance covers the amount, and a
  refusal reports the balance and the amount; when it succeeds for a new withdrawal, exactly
  that amount moves from available to reserved and no other balance changes.
\<close>

theorem reserve_exact:
  assumes "ledger_inv s" "known_account s (UserAvailable, Some u, x)" "0 < m" "in_i128 m"
    "in_i128 (balance_of s (UserAvailable, Some u, x))"
    "in_i128 (balance_of s (UserReserved, Some u, x))" "length w \<le> 36"
    "\<not> posted_key s (''withdrawal_reserve:'' @ w)"
  shows "if m \<le> balance_of s (UserAvailable, Some u, x)
    then \<exists>r s'. reserve_withdrawal w u x m c s = Inr (r, s') \<and> balance_of s' = (balance_of s)
        ((UserAvailable, Some u, x) := balance_of s (UserAvailable, Some u, x) - m,
         (UserReserved, Some u, x) := balance_of s (UserReserved, Some u, x) + m)
    else reserve_withdrawal w u x m c s = Inl (InsufficientBalance
        (display_amount (balance_of s (UserAvailable, Some u, x))) (display_amount m))"
proof (cases "m \<le> balance_of s (UserAvailable, Some u, x)")
  case True
  with reserve_withdrawal_iff [OF assms(1-7), of c] obtain r s'
    where run: "reserve_withdrawal w u x m c s = Inr (r, s')" by auto
  from posts_balance [OF conjunct2 [OF reserve_withdrawal_Inr [OF assms(1) run]] assms(8)]
  have "balance_of s' = (balance_of s)
        ((UserAvailable, Some u, x) := balance_of s (UserAvailable, Some u, x) - m,
         (UserReserved, Some u, x) := balance_of s (UserReserved, Some u, x) + m)"
    by (simp add: fun_eq_iff leg_delta_def natural_delta_def)
  with True run show ?thesis by auto
next
  case False
  with reserve_withdrawal_iff [OF assms(1-7), of c] show ?thesis by simp
qed

theorem reserve_exact_witness:
  "(\<exists>r s'. reserve_withdrawal ''w'' ''u'' ''x'' 30 None demo_credited = Inr (r, s')) \<and>
   reserve_withdrawal ''w'' ''u'' ''x'' 101 None demo_credited = Inl (InsufficientBalance ''100'' ''101'')"
proof -
  have k: "\<not> posted_key demo_credited (''withdrawal_reserve:'' @ ''w'')"
    "display_amount 100 = ''100''" "display_amount 101 = ''101''"
    by code_simp+
  show ?thesis
    using reserve_exact [OF demo_credited_inv, of "''u''" "''x''" 30 "''w''" None]
      reserve_exact [OF demo_credited_inv, of "''u''" "''x''" 101 "''w''" None] demo_credited_eval k
    by (auto simp: in_i128_def)
qed

text \<open>
  C11: However many withdrawals of the same amount race for one balance, as many succeed as the
  balance covers and no more, and exactly their total moves to the reserved account.
\<close>

theorem concurrent_reservations:
  assumes "can_reserve ws u x s" "0 < m" "in_i128 m"
  shows "case reserve_each ws u x m s of (n, s') \<Rightarrow>
    n = min (length ws) (nat (balance_of s (UserAvailable, Some u, x) div m)) \<and>
    balance_of s' (UserAvailable, Some u, x) = balance_of s (UserAvailable, Some u, x) - m * int n \<and>
    balance_of s' (UserReserved, Some u, x) = balance_of s (UserReserved, Some u, x) + m * int n"
  by (rule reserve_each_count [OF assms])

theorem concurrent_reservations_witness:
  "fst (reserve_each [''w1'', ''w2'', ''w3'', ''w4''] ''u'' ''x'' 30 demo_credited) = 3"
proof -
  have "can_reserve [''w1'', ''w2'', ''w3'', ''w4''] ''u'' ''x'' demo_credited"
    using demo_credited_eval demo_credited_inv
    by (simp add: can_reserve_def in_i128_def) code_simp
  from concurrent_reservations [OF this, of 30] show ?thesis
    using demo_credited_eval by (auto simp: in_i128_def split: prod.splits)
qed

text \<open>The natural keys of a withdrawal's postings.\<close>

definition withdrawal_unposted :: "'x ledger_db_scheme \<Rightarrow> uuid \<Rightarrow> bool" where
  "withdrawal_unposted s w \<longleftrightarrow> list_all (\<lambda>p. \<not> posted_key s (p @ w))
     [''withdrawal_reserve:'', ''withdrawal_release:'', ''withdrawal_broadcast:'', ''withdrawal_settle:'',
      ''withdrawal_broadcast_reversal:'']"

lemma withdrawal_lives:
  assumes "ledger_inv s" "withdrawal_unposted s w"
  shows "run_all [CallReserve w u x m c, CallBroadcast w x m c, CallSettle w u x m c] s = Inr (v, s') \<Longrightarrow>
      balance_of s' = (balance_of s)
        ((UserAvailable, Some u, x) := balance_of s (UserAvailable, Some u, x) - m,
         (ExchangeCustody, None, x) := balance_of s (ExchangeCustody, None, x) - m)"
    and "run_all [CallReserve w u x m c, CallRelease w u x m c] s = Inr (v, s') \<Longrightarrow>
      balance_of s' = balance_of s"
    and "run_all [CallReserve w u x m c, CallBroadcast w x m c, CallReverseBroadcast w x m c,
        CallRelease w u x m c] s = Inr (v, s') \<Longrightarrow> balance_of s' = balance_of s"
proof -
  have keys: "\<not> posted_key s (p @ w)" if "p \<in> {''withdrawal_reserve:'', ''withdrawal_release:'',
      ''withdrawal_broadcast:'', ''withdrawal_settle:'', ''withdrawal_broadcast_reversal:''}" for p
    using assms(2) that by (auto simp: withdrawal_unposted_def)
  have np: "p @ w \<notin> a_posted (abs_ledger s)" if "p \<in> {''withdrawal_reserve:'', ''withdrawal_release:'',
      ''withdrawal_broadcast:'', ''withdrawal_settle:'', ''withdrawal_broadcast_reversal:''}" for p
    using keys [OF that] by (simp add: abs_ledger_def posted_key_def)
  have b: "a_bal (abs_ledger s) = balance_of s" by (simp add: abs_ledger_def)
  note ev = apost_def b leg_delta_def natural_delta_def fun_eq_iff
  show "balance_of s' = (balance_of s)
        ((UserAvailable, Some u, x) := balance_of s (UserAvailable, Some u, x) - m,
         (ExchangeCustody, None, x) := balance_of s (ExchangeCustody, None, x) - m)"
    if "run_all [CallReserve w u x m c, CallBroadcast w x m c, CallSettle w u x m c] s = Inr (v, s')"
    using run_all_balance [OF assms(1) that] np [of "''withdrawal_reserve:''"]
      np [of "''withdrawal_broadcast:''"] np [of "''withdrawal_settle:''"]
    by (simp add: ev)
  show "balance_of s' = balance_of s"
    if "run_all [CallReserve w u x m c, CallRelease w u x m c] s = Inr (v, s')"
    using run_all_balance [OF assms(1) that] np [of "''withdrawal_reserve:''"]
      np [of "''withdrawal_release:''"]
    by (simp add: ev)
  show "balance_of s' = balance_of s"
    if "run_all [CallReserve w u x m c, CallBroadcast w x m c, CallReverseBroadcast w x m c,
        CallRelease w u x m c] s = Inr (v, s')"
    using run_all_balance [OF assms(1) that] np [of "''withdrawal_reserve:''"]
      np [of "''withdrawal_release:''"] np [of "''withdrawal_broadcast:''"]
      np [of "''withdrawal_broadcast_reversal:''"]
    by (simp add: ev)
qed

text \<open>
  The three lives of a withdrawal on the ledger. Reserved, broadcast and settled, it takes
  its amount from the user's available balance and from custody, and leaves the reserved and
  clearing accounts as they were. Reserved and released, or reserved, broadcast, reversed and
  released, it leaves every balance as it was. (All postings are for the same amount, in one
  history where none of the withdrawal's keys was posted before.)
\<close>

theorem withdrawal_ledger_lives:
  assumes "ledger_inv s" "withdrawal_unposted s w"
  shows "(\<forall>v s'. run_all [CallReserve w u x m c, CallBroadcast w x m c, CallSettle w u x m c] s = Inr (v, s') \<longrightarrow>
      balance_of s' = (balance_of s)
        ((UserAvailable, Some u, x) := balance_of s (UserAvailable, Some u, x) - m,
         (ExchangeCustody, None, x) := balance_of s (ExchangeCustody, None, x) - m)) \<and>
    (\<forall>v s'. run_all [CallReserve w u x m c, CallRelease w u x m c] s = Inr (v, s') \<longrightarrow>
      balance_of s' = balance_of s) \<and>
    (\<forall>v s'. run_all [CallReserve w u x m c, CallBroadcast w x m c, CallReverseBroadcast w x m c,
        CallRelease w u x m c] s = Inr (v, s') \<longrightarrow> balance_of s' = balance_of s)"
  using withdrawal_lives [OF assms] by blast

lemma demo_lives:
  "succeeds (run_all [CallReserve ''w'' ''u'' ''x'' 30 None, CallBroadcast ''w'' ''x'' 30 None,
     CallSettle ''w'' ''u'' ''x'' 30 None] demo_credited)"
  "succeeds (run_all [CallReserve ''w'' ''u'' ''x'' 30 None, CallBroadcast ''w'' ''x'' 30 None,
     CallReverseBroadcast ''w'' ''x'' 30 None, CallRelease ''w'' ''u'' ''x'' 30 None] demo_credited)"
  "withdrawal_unposted demo_credited ''w''"
  by code_simp+

theorem withdrawal_ledger_lives_witness:
  "(\<exists>s'. run_all [CallReserve ''w'' ''u'' ''x'' 30 None, CallBroadcast ''w'' ''x'' 30 None,
       CallSettle ''w'' ''u'' ''x'' 30 None] demo_credited = Inr ((), s') \<and>
     balance_of s' (UserAvailable, Some ''u'', ''x'') = 70) \<and>
   (\<exists>s'. run_all [CallReserve ''w'' ''u'' ''x'' 30 None, CallBroadcast ''w'' ''x'' 30 None,
       CallReverseBroadcast ''w'' ''x'' 30 None, CallRelease ''w'' ''u'' ''x'' 30 None] demo_credited = Inr ((), s') \<and>
     balance_of s' = balance_of demo_credited)"
  using demo_lives(1,2) [THEN succeeds_final]
    withdrawal_ledger_lives [OF demo_credited_inv demo_lives(3), of "''u''" "''x''" 30 None] demo_credited_eval
  by auto

text \<open>
  C12: Reversing a credited deposit always takes back exactly what was credited: custody falls by
  the amount, and what the exchange owes the user (available balance less recorded deficit)
  falls by the amount; the available balance never goes negative, and a deficit is recorded
  only when the available balance is used up.
\<close>

theorem reversal_takes_back:
  assumes "ledger_inv s" "reverse_deposit_credit d u x m c s = Inr (r, s')"
    "\<not> posted_key s (''deposit_reversal:'' @ d)"
  shows "balance_of s' (ExchangeCustody, None, x) = balance_of s (ExchangeCustody, None, x) - m \<and>
    balance_of s' (UserAvailable, Some u, x) - balance_of s' (UserDeficit, Some u, x) =
      balance_of s (UserAvailable, Some u, x) - balance_of s (UserDeficit, Some u, x) - m \<and>
    0 \<le> balance_of s' (UserAvailable, Some u, x) \<and>
    (balance_of s' (UserDeficit, Some u, x) \<noteq> balance_of s (UserDeficit, Some u, x) \<longrightarrow>
      balance_of s' (UserAvailable, Some u, x) = 0)"
proof -
  note p = reverse_deposit_credit_posts [OF assms(1,2)]
  have inv: "ledger_inv s'" using p by (simp add: posts_def)
  have m: "0 < m" by (rule reverse_deposit_credit_positive [OF assms(2)])
  have nn: "0 \<le> balance_of s (UserAvailable, Some u, x)" "0 \<le> balance_of s' (UserAvailable, Some u, x)"
    using balance_of_nonneg [OF assms(1), of "(UserAvailable, Some u, x)"]
      balance_of_nonneg [OF inv, of "(UserAvailable, Some u, x)"] by (simp_all add: allows_negative_def)
  have "balance_of s' k = balance_of s k + sum_list (map (leg_delta k) (reversal_legs u x m s))" for k
    by (rule posts_balance [OF p assms(3)])
  with m nn show ?thesis
    by (auto simp: reversal_legs_def Let_def leg_delta_def natural_delta_def)
qed

lemma demo_reversal:
  "succeeds (reverse_deposit_credit ''d'' ''u'' ''x'' 100 None
     (final (reserve_withdrawal ''w'' ''u'' ''x'' 30 None demo_credited)))"
  "succeeds (reserve_withdrawal ''w'' ''u'' ''x'' 30 None demo_credited)"
  "\<not> posted_key (final (reserve_withdrawal ''w'' ''u'' ''x'' 30 None demo_credited)) (''deposit_reversal:'' @ ''d'')"
  "balance_of (final (reserve_withdrawal ''w'' ''u'' ''x'' 30 None demo_credited)) (ExchangeCustody, None, ''x'') = 100"
  by code_simp+

theorem reversal_takes_back_witness:
  "\<exists>r s s'. reverse_deposit_credit ''d'' ''u'' ''x'' 100 None s = Inr (r, s') \<and>
     s = final (reserve_withdrawal ''w'' ''u'' ''x'' 30 None demo_credited) \<and>
     balance_of s' (ExchangeCustody, None, ''x'') = 0"
proof -
  obtain r0 where r0: "reserve_withdrawal ''w'' ''u'' ''x'' 30 None demo_credited =
      Inr (r0, final (reserve_withdrawal ''w'' ''u'' ''x'' 30 None demo_credited))"
    using succeeds_final [OF demo_reversal(2)] by blast
  have inv: "ledger_inv (final (reserve_withdrawal ''w'' ''u'' ''x'' 30 None demo_credited))"
    using reserve_withdrawal_Inr [OF demo_credited_inv r0] by (simp add: posts_def)
  obtain r s' where r: "reverse_deposit_credit ''d'' ''u'' ''x'' 100 None
     (final (reserve_withdrawal ''w'' ''u'' ''x'' 30 None demo_credited)) = Inr (r, s')"
    using succeeds_final [OF demo_reversal(1)] by blast
  from reversal_takes_back [OF inv r demo_reversal(3)] r demo_reversal(4) show ?thesis by auto
qed

text \<open>
  C13: The integrity report of a ledger that returns is clean exactly when no transaction is
  unbalanced, no cached balance differs from its entries and no protected balance is negative
  (the limits of the queries never hide a defect); after any history of ledger operations on a
  fresh database it is clean.
\<close>

theorem integrity_report_exact:
  assumes "verify_ledger_integrity s = Inr (r, s')"
  shows "(report_is_clean r \<longleftrightarrow> ledger_sound s) \<and>
    (\<forall>s0 cs. fresh_ledger s0 \<and> s = ledger_run cs s0 \<longrightarrow> report_is_clean r \<and> problem_count r = 0)"
proof -
  have "report_is_clean r" if "fresh_ledger s0" "s = ledger_run cs s0" for s0 :: "'a ledger_db_scheme" and cs
    using ledger_run_step [OF fresh_ledger_inv [OF that(1)], of cs] that(2) clean_iff_sound [OF assms]
      ledger_inv_sound [of s] by (simp add: ledger_step_ok_def)
  then show ?thesis using clean_iff_sound [OF assms] is_clean_iff [of r] by blast
qed

lemma demo_integrity:
  "succeeds (verify_ledger_integrity (ledger_run [CallCredit ''d'' ''u'' ''x'' 100 None] demo_db))"
  by code_simp

theorem integrity_report_exact_witness:
  "\<exists>r. verify_ledger_integrity (ledger_run [CallCredit ''d'' ''u'' ''x'' 100 None] demo_db) =
      Inr (r, ledger_run [CallCredit ''d'' ''u'' ''x'' 100 None] demo_db) \<and> problem_count r = 0"
proof -
  obtain r s' where r: "verify_ledger_integrity (ledger_run [CallCredit ''d'' ''u'' ''x'' 100 None] demo_db) = Inr (r, s')"
    using demo_integrity by (auto simp: succeeds_Inr simp del: ledger_run.simps)
  then have "s' = ledger_run [CallCredit ''d'' ''u'' ''x'' 100 None] demo_db"
    using verify_Inr by blast
  with integrity_report_exact [OF r] demo_fresh r show ?thesis by blast
qed

text \<open>
  What the integrity report calls the surplus of an asset (custody and value in flight, less
  what users are owed) is, after any history, what the treasury put in less the network fees
  paid: no deposit, withdrawal or reversal creates or destroys value.
\<close>

theorem surplus_is_treasury_less_fees:
  assumes "fresh_ledger s0" "s = ledger_run cs s0" "row \<in> set (solvency_rows s)"
    "{a \<in> set (assets s). as_chain a = sr_chain row \<and> as_symbol a = sr_symbol row} = {a}"
    "surplus row = Inr v"
  shows "v = sum_of_types {Treasury} {as_id a} (accounts s) -
             sum_of_types {NetworkFeeAccount} {as_id a} (accounts s)"
proof -
  have st: "ledger_step_ok s0 s" using assms(1,2) fresh_ledger_inv ledger_run_step by blast
  have "asset_position s (as_id a) = 0"
    using st fresh_ledger_position [OF assms(1)] by (simp add: ledger_step_ok_def)
  moreover have "\<forall>a\<in>set (accounts s). la_normal a = normal_balance (la_type a)"
    using st by (auto simp: ledger_step_ok_def ledger_inv_def ledger_core_def accounts_ok_def account_ok_def)
  moreover have "sr_liability row = sum_of_types {UserAvailable, UserReserved} {as_id a} (accounts s) -
      sum_of_types {UserDeficit} {as_id a} (accounts s) \<and>
    sr_custody row = sum_of_types {ExchangeCustody} {as_id a} (accounts s) \<and>
    sr_clearing row = sum_of_types {WithdrawalClearing} {as_id a} (accounts s)"
    using assms(3,4) by (auto simp: solvency_rows_def Let_def)
  moreover have "v = sr_custody row + sr_clearing row - sr_liability row"
    using assms(5) by (auto simp: surplus_def split: sum.splits)
  ultimately show ?thesis using surplus_position [of s "as_id a" row] by simp
qed

definition demo_funded :: ledger_db where
  "demo_funded = ledger_run [CallFund ''x'' 40 ''ref'' None, CallFee ''w'' ''x'' 5 None] demo_db"

definition demo_row :: solvency_row where
  "demo_row = \<lparr>sr_symbol = ''ETH'', sr_chain = ''ethereum'', sr_liability = 0, sr_custody = 35, sr_clearing = 0\<rparr>"

lemma demo_funded_eval: "solvency_rows demo_funded = [demo_row]" "surplus demo_row = Inr 35"
  "map as_id (assets demo_funded) = [''x'']" "map as_chain (assets demo_funded) = [''ethereum'']"
  "map as_symbol (assets demo_funded) = [''ETH'']"
  by code_simp+

theorem surplus_is_treasury_less_fees_witness:
  "35 = sum_of_types {Treasury} {''x''} (accounts demo_funded) -
        sum_of_types {NetworkFeeAccount} {''x''} (accounts demo_funded)"
proof -
  obtain a where a: "assets demo_funded = [a]" "as_id a = ''x''" "as_chain a = ''ethereum''" "as_symbol a = ''ETH''"
    using demo_funded_eval(3-5) by (auto simp: map_eq_Cons_conv)
  have "{b \<in> set (assets demo_funded). as_chain b = sr_chain demo_row \<and> as_symbol b = sr_symbol demo_row} = {a}"
    using a by (auto simp: demo_row_def)
  with surplus_is_treasury_less_fees [OF demo_fresh demo_funded_def, of demo_row a 35] a demo_funded_eval
  show ?thesis by simp
qed

text \<open>
  C14: A reversal is refused, and every retry of it with the same ledger is refused, when the
  custody account holds less than the deposit: custody may not go negative, so the deficit
  account does not help once the deposited coins have left in a withdrawal.
\<close>

theorem reversal_blocked_by_custody:
  assumes "ledger_inv s" "\<not> posted_key s (''deposit_reversal:'' @ d)"
    "balance_of s (ExchangeCustody, None, x) < m"
  shows "\<exists>e. reverse_deposit_credit d u x m c s = Inl e"
proof (rule ccontr)
  assume "\<nexists>e. reverse_deposit_credit d u x m c s = Inl e"
  then obtain r s' where r: "reverse_deposit_credit d u x m c s = Inr (r, s')"
    by (cases "reverse_deposit_credit d u x m c s") auto
  note p = reverse_deposit_credit_posts [OF assms(1) r]
  have "balance_of s' (ExchangeCustody, None, x) = balance_of s (ExchangeCustody, None, x) - m"
    using posts_balance [OF p assms(2), of "(ExchangeCustody, None, x)"]
    by (simp add: reversal_legs_def Let_def leg_delta_def natural_delta_def)
  moreover have "0 \<le> balance_of s' (ExchangeCustody, None, x)"
    using p balance_of_nonneg [of s' "(ExchangeCustody, None, x)"]
    by (simp add: posts_def allows_negative_def)
  ultimately show False using assms(3) by simp
qed

definition demo_withdrawn :: ledger_db where
  "demo_withdrawn = ledger_run [CallCredit ''d'' ''u'' ''x'' 100 None, CallReserve ''w'' ''u'' ''x'' 100 None,
     CallBroadcast ''w'' ''x'' 100 None, CallSettle ''w'' ''u'' ''x'' 100 None] demo_db"

lemma demo_withdrawn_eval:
  "balance_of demo_withdrawn (ExchangeCustody, None, ''x'') = 0"
  "balance_of demo_withdrawn (UserReserved, Some ''u'', ''x'') = 0"
  "\<not> posted_key demo_withdrawn (''deposit_reversal:'' @ ''d'')"
  "posted_key demo_withdrawn ''withdrawal_settle:w''"
  by code_simp+

lemma demo_withdrawn_inv: "ledger_inv demo_withdrawn"
  using ledger_run_step [OF fresh_ledger_inv [OF demo_fresh]]
  by (simp add: demo_withdrawn_def ledger_step_ok_def del: ledger_run.simps)

theorem reversal_blocked_by_custody_witness:
  "posted_key demo_withdrawn ''withdrawal_settle:w'' \<and>
   (\<exists>e. reverse_deposit_credit ''d'' ''u'' ''x'' 100 None demo_withdrawn = Inl e)"
  using reversal_blocked_by_custody [OF demo_withdrawn_inv demo_withdrawn_eval(3), of "''x''" 100 "''u''" None]
    demo_withdrawn_eval by simp

end
