(* ===== verification/Deposit_Inv.thy ===== *)
theory Deposit_Inv
  imports Deposit_Engine Ledger_Spec
begin

text \<open>
  The invariant of the deposit side, over the ledger's: one deposit per on-chain transfer, one
  canonical block per height, and the ledger holds the credit of a deposit exactly when the
  deposit says so. Every operation of the pipeline keeps it.
\<close>

section \<open>Steps that leave the ledger alone\<close>

definition ledger_same :: "'x ledger_db_scheme \<Rightarrow> 'x ledger_db_scheme \<Rightarrow> bool" where
  "ledger_same s s' \<longleftrightarrow> id_src s' = id_src s \<and> id_next s \<le> id_next s' \<and> clock s' = clock s \<and>
     users s' = users s \<and> assets s' = assets s \<and> deposit_addresses s' = deposit_addresses s \<and>
     accounts s' = accounts s \<and> ltransactions s' = ltransactions s \<and> lentries s' = lentries s"

lemma ledger_same_refl [simp]: "ledger_same s s"
  by (simp add: ledger_same_def)

lemma ledger_same_trans: "ledger_same s t \<Longrightarrow> ledger_same t u \<Longrightarrow> ledger_same s u"
  by (auto simp: ledger_same_def)

lemma used_ids_mono: "id_src s' = id_src s \<Longrightarrow> id_next s \<le> id_next s' \<Longrightarrow> used_ids s \<subseteq> used_ids s'"
  by (auto simp: used_ids_def)

lemma ledger_same_used: "ledger_same s s' \<Longrightarrow> used_ids s \<subseteq> used_ids s'"
  by (simp add: ledger_same_def used_ids_mono)

lemma ledger_same_inv: "ledger_same s s' \<Longrightarrow> ledger_inv s \<Longrightarrow> ledger_inv s'"
  using ledger_same_used [of s s']
  by (auto simp: ledger_same_def ledger_inv_def ledger_core_defs)

lemma ledger_same_facts:
  "ledger_same s s' \<Longrightarrow> posted_key s' k = posted_key s k"
  "ledger_same s s' \<Longrightarrow> balance_of s' = balance_of s"
  "ledger_same s s' \<Longrightarrow> asset_position s' = asset_position s"
  "ledger_same s s' \<Longrightarrow> abs_ledger s' = abs_ledger s"
  by (simp_all add: ledger_same_def posted_key_def balance_of_def asset_position_def abs_ledger_def fun_eq_iff)

lemma gen_uuid_Inr:
  "gen_uuid s = Inr (i, s') \<longleftrightarrow> i = id_src s (id_next s) \<and> s' = s\<lparr>id_next := Suc (id_next s)\<rparr>"
  by (auto simp: gen_uuid_def)

section \<open>The invariant\<close>

definition credit_key :: "uuid \<Rightarrow> string" where
  "credit_key i = ''deposit_credit:'' @ i"

definition reversal_key :: "uuid \<Rightarrow> string" where
  "reversal_key i = ''deposit_reversal:'' @ i"

lemma key_injects [simp]:
  "credit_key i = credit_key j \<longleftrightarrow> i = j" "reversal_key i = reversal_key j \<longleftrightarrow> i = j"
  "credit_key i \<noteq> reversal_key j" "reversal_key i \<noteq> credit_key j"
  by (simp_all add: credit_key_def reversal_key_def)

text \<open>What the ledger holds of one deposit.\<close>

definition deposit_ok :: "'x chain_db_scheme \<Rightarrow> deposit \<Rightarrow> bool" where
  "deposit_ok s d \<longleftrightarrow> 0 < d_amount d \<and> d_status d \<noteq> DFailed \<and>
     (posted_key s (credit_key (d_id d)) \<longleftrightarrow> d_ledger_tx d \<noteq> None) \<and>
     (posted_key s (reversal_key (d_id d)) \<longleftrightarrow> d_ledger_tx d \<noteq> None \<and> d_status d = DReorged) \<and>
     (d_status d = DCredited \<longrightarrow> d_ledger_tx d \<noteq> None) \<and>
     (d_ledger_tx d \<noteq> None \<longrightarrow> d_status d \<in> {DCredited, DReorged})"

definition block_key :: "chain_block \<Rightarrow> string \<times> hash32" where
  "block_key b = (cb_chain b, cb_hash b)"

definition blocks_ok :: "chain_block list \<Rightarrow> bool" where
  "blocks_ok bs \<longleftrightarrow> unique_key block_key bs \<and>
     (\<forall>b\<in>set bs. \<forall>b'\<in>set bs. is_canonical b \<longrightarrow> is_canonical b' \<longrightarrow> cb_chain b = cb_chain b' \<longrightarrow>
        cb_height b = cb_height b' \<longrightarrow> cb_hash b = cb_hash b')"

definition chain_inv :: "'x chain_db_scheme \<Rightarrow> bool" where
  "chain_inv s \<longleftrightarrow> ledger_inv s \<and> blocks_ok (blocks s) \<and>
     unique_key bt_id (transfers s) \<and> unique_key transfer_key (transfers s) \<and>
     bt_id ` set (transfers s) \<subseteq> used_ids s \<and>
     unique_key d_id (deposits s) \<and> unique_key d_btx (deposits s) \<and>
     d_id ` set (deposits s) \<subseteq> used_ids s \<and> d_btx ` set (deposits s) \<subseteq> bt_id ` set (transfers s) \<and>
     (\<forall>i. posted_key s (credit_key i) \<or> posted_key s (reversal_key i) \<longrightarrow> i \<in> d_id ` set (deposits s)) \<and>
     (\<forall>d\<in>set (deposits s). deposit_ok s d)"

lemma chain_inv_ledger: "chain_inv s \<Longrightarrow> ledger_inv s"
  by (simp add: chain_inv_def)

text \<open>The four tables of this component.\<close>

definition chain_same :: "'x chain_db_scheme \<Rightarrow> 'x chain_db_scheme \<Rightarrow> bool" where
  "chain_same s s' \<longleftrightarrow> blocks s' = blocks s \<and> transfers s' = transfers s \<and> deposits s' = deposits s"

lemma deposit_ok_cong:
  "(\<And>k. posted_key s' k = posted_key s k) \<Longrightarrow> deposit_ok s' d = deposit_ok s d"
  by (simp add: deposit_ok_def)

lemma chain_inv_same:
  assumes "ledger_same s s'" "chain_same s s'" "chain_inv s"
  shows "chain_inv s'"
proof -
  note pk = ledger_same_facts(1) [OF assms(1)]
  have "ledger_inv s'" using assms ledger_same_inv chain_inv_ledger by blast
  then show ?thesis
    using assms(2,3) ledger_same_used [OF assms(1)] deposit_ok_cong [OF pk]
    unfolding chain_inv_def chain_same_def pk by auto
qed

section \<open>Events\<close>

lemma enqueue_cases:
  assumes "enqueue e s = Inr (u, s')"
  shows "s' = s \<or> (\<exists>row. s' = s\<lparr>id_next := Suc (id_next s), outbox := outbox s @ [row]\<rparr>)"
proof (cases "ev_id e \<in> ob_event ` set (outbox s)")
  case True
  with assms show ?thesis by (simp add: enqueue_def)
next
  case False
  with assms show ?thesis by (auto simp: enqueue_def gen_uuid_def tx_simps)
qed

lemma enqueue_Inr:
  "enqueue e s = Inr (u, s') \<Longrightarrow> ledger_same s s' \<and> event_db.more s' = event_db.more s \<and>
     processed s' = processed s \<and> dead_letters s' = dead_letters s \<and> prefix (outbox s) (outbox s')"
  using enqueue_cases [of e s u s'] by (auto simp: ledger_same_def)

lemma enqueue_ok: "\<exists>s'. enqueue e s = Inr ((), s')"
  by (simp add: enqueue_def gen_uuid_def tx_eval)

lemma event_more_chain:
  fixes s s' :: "'x chain_db_scheme"
  shows "event_db.more s' = event_db.more s \<Longrightarrow> chain_same s s' \<and> cursors s' = cursors s"
  by (cases s; cases s') (simp add: chain_same_def)

lemma emit_Inr:
  fixes s :: "'x chain_db_scheme"
  assumes "emit v5 p corr key s = Inr (u, s')"
  shows "ledger_same s s' \<and> chain_same s s' \<and> cursors s' = cursors s"
proof -
  note e = enqueue_Inr [OF assms [unfolded emit_def]]
  have "event_db.more s' = event_db.more s" using e by blast
  with e show ?thesis using event_more_chain [of s' s] by blast
qed

lemma emit_ok: "\<exists>s'. emit v5 p corr key s = Inr ((), s')"
  using enqueue_ok by (simp add: emit_def)

lemma emit_inv: "emit v5 p corr key s = Inr (u, s') \<Longrightarrow> chain_inv s \<Longrightarrow> chain_inv s'"
  using emit_Inr [of v5 p corr key s u s'] chain_inv_same [of s s'] by blast

section \<open>Blocks and transfers\<close>

lemma unique_key_filter: "unique_key k rows \<Longrightarrow> unique_key k (filter P rows)"
  by (simp add: unique_key_def distinct_map_filter)

lemma chain_inv_blocks:
  assumes "chain_inv s" "blocks_ok bs"
  shows "chain_inv (s\<lparr>blocks := bs\<rparr>)"
proof -
  have l: "ledger_same s (s\<lparr>blocks := bs\<rparr>)" by (simp add: ledger_same_def)
  note pk = ledger_same_facts(1) [OF l]
  have "ledger_inv (s\<lparr>blocks := bs\<rparr>)" using ledger_same_inv [OF l] assms(1) chain_inv_ledger by blast
  then show ?thesis
    using assms ledger_same_used [OF l] deposit_ok_cong [OF pk] unfolding chain_inv_def pk by auto
qed

lemma set_cursor_inv: "set_cursor chain h hash head s = Inr (u, s') \<Longrightarrow> chain_inv s \<Longrightarrow> chain_inv s'"
  by (rule chain_inv_same [of s])
    (auto simp: set_cursor_def tx_simps ledger_same_def chain_same_def Let_def split: if_splits)

lemma orphan_blocks_above_inv:
  assumes "orphan_blocks_above chain h s = Inr (hs, s')" "chain_inv s"
  shows "chain_inv s'"
proof -
  let ?P = "\<lambda>b. cb_chain b = chain \<and> h < cb_height b \<and> is_canonical b"
  have s': "s' = s\<lparr>blocks := upd_where ?P (\<lambda>b. b\<lparr>cb_status := Orphaned\<rparr>) (blocks s)\<rparr>"
    using assms(1) by (simp add: orphan_blocks_above_def Let_def)
  have ok: "blocks_ok (blocks s)" using assms(2) by (simp add: chain_inv_def)
  have "unique_key block_key (upd_where ?P (\<lambda>b. b\<lparr>cb_status := Orphaned\<rparr>) (blocks s))"
    using ok by (simp add: blocks_ok_def unique_key_upd_where block_key_def)
  moreover have "b \<in> set (blocks s)"
    if "b \<in> set (upd_where ?P (\<lambda>b. b\<lparr>cb_status := Orphaned\<rparr>) (blocks s))" "is_canonical b" for b
    using that by (auto simp: set_upd_where is_canonical_def split: if_splits)
  ultimately have "blocks_ok (upd_where ?P (\<lambda>b. b\<lparr>cb_status := Orphaned\<rparr>) (blocks s))"
    using ok unfolding blocks_ok_def by blast
  then show ?thesis unfolding s' by (rule chain_inv_blocks [OF assms(2)])
qed

lemma insert_canonical_block_inv:
  assumes "insert_canonical_block chain hash h parent s = Inr (u, s')" "chain_inv s"
  shows "chain_inv s'"
proof (cases "find (\<lambda>b. cb_chain b = chain \<and> cb_hash b = hash) (blocks s)")
  case None
  let ?b = "\<lparr>cb_chain = chain, cb_hash = hash, cb_height = h, cb_parent = parent, cb_status = Canonical\<rparr>"
  have ok: "blocks_ok (blocks s)" using assms(2) by (simp add: chain_inv_def)
  have s': "s' = s\<lparr>blocks := blocks s @ [?b]\<rparr>" and free: "\<forall>q\<in>set (blocks s). \<not> canonical_at chain h q"
    using assms(1) None by (auto simp: insert_canonical_block_def split: if_splits)
  have "block_key ?b \<notin> block_key ` set (blocks s)"
    using None by (auto simp: find_None_set block_key_def)
  moreover have "cb_hash b = cb_hash b'"
    if b: "b \<in> set (blocks s @ [?b])" "b' \<in> set (blocks s @ [?b])" "is_canonical b" "is_canonical b'"
      "cb_chain b = cb_chain b'" "cb_height b = cb_height b'" for b b'
  proof (cases "b \<in> set (blocks s) \<and> b' \<in> set (blocks s)")
    case True
    with ok b show ?thesis unfolding blocks_ok_def by blast
  next
    case False
    have "\<not> canonical_at chain h b \<or> b = ?b" "\<not> canonical_at chain h b' \<or> b' = ?b" using b(1,2) free by auto
    with False b show ?thesis by (auto simp: canonical_at_def)
  qed
  ultimately have "blocks_ok (blocks s @ [?b])"
    using ok unfolding blocks_ok_def unique_key_append by blast
  then show ?thesis unfolding s' by (rule chain_inv_blocks [OF assms(2)])
next
  case (Some b0)
  let ?P = "\<lambda>b. cb_chain b = chain \<and> cb_hash b = hash"
  let ?bs = "upd_where ?P (\<lambda>b. b\<lparr>cb_status := Canonical\<rparr>) (blocks s)"
  have ok: "blocks_ok (blocks s)" using assms(2) by (simp add: chain_inv_def)
  have b0: "b0 \<in> set (blocks s)" "?P b0" using Some by (auto dest: find_Some_setD)
  have s': "s' = s\<lparr>blocks := ?bs\<rparr>"
    and free: "\<forall>q\<in>set (blocks s). canonical_at chain (cb_height b0) q \<longrightarrow> cb_hash q = hash"
    using assms(1) Some by (auto simp: insert_canonical_block_def split: if_splits)
  have only: "b = b0" if "b \<in> set (blocks s)" "?P b" for b
    using that b0 ok unique_keyD [of block_key "blocks s" b b0] by (auto simp: blocks_ok_def block_key_def)
  have fact: "b \<in> set (blocks s) \<or> b = b0\<lparr>cb_status := Canonical\<rparr>" if "b \<in> set ?bs" for b
    using that only by (auto simp: set_upd_where)
  have new: "cb_hash b = hash"
    if "b \<in> set (blocks s)" "is_canonical b" "cb_chain b = chain" "cb_height b = cb_height b0" for b
    using that free by (auto simp: canonical_at_def)
  have uniq: "cb_hash b = cb_hash b'"
    if b: "b \<in> set ?bs" "b' \<in> set ?bs" "is_canonical b" "is_canonical b'" "cb_chain b = cb_chain b'" "cb_height b = cb_height b'"
    for b b'
  proof (cases "b \<in> set (blocks s) \<and> b' \<in> set (blocks s)")
    case True
    with ok b show ?thesis unfolding blocks_ok_def by blast
  next
    case False
    with fact [OF b(1)] fact [OF b(2)] b(3-6) b0(2) new [of b] new [of b'] show ?thesis by auto
  qed
  have "unique_key block_key ?bs"
    using ok by (simp add: blocks_ok_def unique_key_upd_where block_key_def)
  with uniq have "blocks_ok ?bs" unfolding blocks_ok_def by blast
  then show ?thesis unfolding s' by (rule chain_inv_blocks [OF assms(2)])
qed

lemma blocks_ok_filter: "blocks_ok bs \<Longrightarrow> blocks_ok (filter P bs)"
  using unique_key_filter [of block_key bs P] filter_is_subset [of P bs] unfolding blocks_ok_def by blast

lemma prune_blocks_below_inv:
  assumes "prune_blocks_below chain h s = Inr (n, s')" "chain_inv s"
  shows "chain_inv s'"
proof -
  let ?P = "\<lambda>b. \<not> (cb_chain b = chain \<and> cb_height b < h \<and>
      \<not> (\<exists>t\<in>set (transfers s). bt_chain t = cb_chain b \<and> bt_block_hash t = cb_hash b))"
  have s': "s' = s\<lparr>blocks := filter ?P (blocks s)\<rparr>"
    using assms(1) by (simp add: prune_blocks_below_def Let_def)
  have "blocks_ok (blocks s)" using assms(2) by (simp add: chain_inv_def)
  then have "blocks_ok (filter ?P (blocks s))" by (rule blocks_ok_filter)
  then show ?thesis unfolding s' by (rule chain_inv_blocks [OF assms(2)])
qed

lemma persist_header_inv:
  "persist_header v5 chain corr h s = Inr (u, s') \<Longrightarrow> chain_inv s \<Longrightarrow> chain_inv s'"
  by (auto simp: persist_header_def tx_simps split: option.splits if_splits
      dest: orphan_blocks_above_inv insert_canonical_block_inv emit_inv)

lemma mark_transfers_orphaned_inv:
  assumes "mark_transfers_orphaned chain hs s = Inr (ids, s')" "chain_inv s"
  shows "chain_inv s' \<and> deposits s' = deposits s \<and> ledger_same s s'"
proof (cases "hs = []")
  case True
  with assms show ?thesis by (simp add: mark_transfers_orphaned_def tx_simps)
next
  case False
  let ?P = "\<lambda>t. bt_chain t = chain \<and> bt_block_hash t \<in> set hs \<and> bt_status t \<noteq> TOrphaned"
  let ?ts = "upd_where ?P (\<lambda>t. t\<lparr>bt_status := TOrphaned\<rparr>) (transfers s)"
  have s': "s' = s\<lparr>transfers := ?ts\<rparr>"
    using assms(1) False by (simp add: mark_transfers_orphaned_def Let_def)
  have l: "ledger_same s s'" by (simp add: s' ledger_same_def)
  note pk = ledger_same_facts(1) [OF l]
  have k: "unique_key bt_id ?ts = unique_key bt_id (transfers s)"
    "unique_key transfer_key ?ts = unique_key transfer_key (transfers s)"
    "bt_id ` set ?ts = bt_id ` set (transfers s)"
    by (simp_all add: unique_key_upd_where image_upd_where transfer_key_def)
  have "ledger_inv s'" using ledger_same_inv [OF l] assms(2) chain_inv_ledger by blast
  then have "chain_inv s'"
    using assms(2) ledger_same_used [OF l] deposit_ok_cong [OF pk] k
    unfolding chain_inv_def pk by (auto simp: s')
  then show ?thesis using l by (simp add: s')
qed

lemma insert_transfer_inv:
  assumes "insert_transfer t asset s = Inr (r, s')" "chain_inv s"
  shows "chain_inv s' \<and> deposits s' = deposits s \<and> ledger_same s s' \<and>
    (case r of None \<Rightarrow> s' = s
     | Some b \<Rightarrow> b \<in> set (transfers s') \<and> bt_id b \<notin> bt_id ` set (transfers s) \<and> bt_amount b = ot_amount t)"
proof (cases "(ot_chain t, ot_tx_hash t, ot_log_index t) \<in> transfer_key ` set (transfers s)")
  case True
  with assms show ?thesis by (auto simp: insert_transfer_def split: if_splits)
next
  case False
  let ?b = "\<lparr>bt_id = id_src s (id_next s), bt_chain = ot_chain t, bt_tx_hash = ot_tx_hash t,
     bt_log_index = ot_log_index t, bt_block_number = ot_block_number t, bt_block_hash = ot_block_hash t,
     bt_from = storage_key (ot_from t), bt_to = storage_key (ot_to t), bt_asset = asset,
     bt_amount = ot_amount t, bt_status = TObserved\<rparr>"
  have s': "s' = s\<lparr>id_next := Suc (id_next s), transfers := transfers s @ [?b]\<rparr>" and r: "r = Some ?b"
    using assms(1) False
    by (auto simp: insert_transfer_def gen_uuid_def tx_simps Let_def split: if_splits)
  have l: "ledger_same s s'" by (simp add: s' ledger_same_def)
  note pk = ledger_same_facts(1) [OF l]
  have inj: "inj (id_src s)"
    using assms(2) by (simp add: chain_inv_def ledger_inv_def ledger_core_def accounts_ok_def)
  have fresh: "id_src s (id_next s) \<notin> bt_id ` set (transfers s)"
    using used_ids_fresh [OF inj] assms(2) by (auto simp: chain_inv_def)
  have u: "used_ids s' = insert (id_src s (id_next s)) (used_ids s)"
    by (simp add: s' used_ids_def lessThan_Suc)
  have k: "transfer_key ?b \<notin> transfer_key ` set (transfers s)"
    using False by (simp add: transfer_key_def)
  have "ledger_inv s'" using ledger_same_inv [OF l] assms(2) chain_inv_ledger by blast
  then have "chain_inv s'"
    using assms(2) u deposit_ok_cong [OF pk] k fresh
    unfolding chain_inv_def pk by (auto simp: s' unique_key_append)
  then show ?thesis using l r fresh by (simp add: s')
qed

section \<open>Deposits\<close>

text \<open>An update of deposit rows that keeps their identity and what the ledger says of them.\<close>

lemma chain_inv_deposits:
  assumes "chain_inv s" "\<And>d. P d \<Longrightarrow> d_id (f d) = d_id d \<and> d_btx (f d) = d_btx d"
    "\<And>d. d \<in> set (deposits s) \<Longrightarrow> P d \<Longrightarrow> deposit_ok s (f d)"
  shows "chain_inv (s\<lparr>deposits := upd_where P f (deposits s)\<rparr>)"
proof -
  let ?s = "s\<lparr>deposits := upd_where P f (deposits s)\<rparr>"
  have l: "ledger_same s ?s" by (simp add: ledger_same_def)
  note pk = ledger_same_facts(1) [OF l]
  have k: "unique_key d_id (deposits ?s) = unique_key d_id (deposits s)"
    "unique_key d_btx (deposits ?s) = unique_key d_btx (deposits s)"
    "d_id ` set (deposits ?s) = d_id ` set (deposits s)" "d_btx ` set (deposits ?s) = d_btx ` set (deposits s)"
    using assms(2) by (simp_all add: unique_key_upd_where image_upd_where)
  have "deposit_ok ?s d" if "d \<in> set (deposits ?s)" for d
    using that assms(1,3) deposit_ok_cong [OF pk] by (auto simp: set_upd_where chain_inv_def)
  moreover have "ledger_inv ?s" using ledger_same_inv [OF l] assms(1) chain_inv_ledger by blast
  ultimately show ?thesis
    using assms(1) ledger_same_used [OF l] k unfolding chain_inv_def pk by auto
qed

lemma create_deposit_inv:
  assumes "create_deposit user btx asset amt s = Inr (d, s')" "chain_inv s"
  shows "chain_inv s'"
proof (cases "find (\<lambda>d. d_btx d = btx) (deposits s)")
  case (Some d0)
  with assms show ?thesis by (auto simp: create_deposit_def split: if_splits)
next
  case None
  let ?d = "\<lparr>d_id = id_src s (id_next s), d_user = user, d_btx = btx, d_asset = asset, d_amount = amt,
     d_confirmations = 0, d_status = DObserved, d_ledger_tx = None, d_reversal_tx = None,
     d_failure_reason = None, d_credited_at = None, d_created_at = clock s\<rparr>"
  have s': "s' = s\<lparr>id_next := Suc (id_next s), deposits := deposits s @ [?d]\<rparr>"
    and ok: "0 < amt" "btx \<in> bt_id ` set (transfers s)"
    using assms(1) None
    by (auto simp: create_deposit_def gen_uuid_def tx_simps Let_def split: if_splits)
  have l: "ledger_same s s'" by (simp add: s' ledger_same_def)
  note pk = ledger_same_facts(1) [OF l]
  have inj: "inj (id_src s)"
    using assms(2) by (simp add: chain_inv_def ledger_inv_def ledger_core_def accounts_ok_def)
  have fresh: "id_src s (id_next s) \<notin> d_id ` set (deposits s)"
    using used_ids_fresh [OF inj] assms(2) by (auto simp: chain_inv_def)
  have u: "used_ids s' = insert (id_src s (id_next s)) (used_ids s)"
    by (simp add: s' used_ids_def lessThan_Suc)
  have nb: "btx \<notin> d_btx ` set (deposits s)" using None by (auto simp: find_None_set)
  have "\<not> posted_key s (credit_key (d_id ?d))" "\<not> posted_key s (reversal_key (d_id ?d))"
    using assms(2) fresh by (auto simp: chain_inv_def)
  then have d: "deposit_ok s ?d" using ok by (simp add: deposit_ok_def)
  have "ledger_inv s'" using ledger_same_inv [OF l] assms(2) chain_inv_ledger by blast
  then show ?thesis
    using assms(2) u deposit_ok_cong [OF pk] d fresh nb ok
    unfolding chain_inv_def pk by (auto simp: s' unique_key_append)
qed

lemma persist_transfer_inv:
  assumes "persist_transfer v5 ctx corr t s = Inr (r, s')" "chain_inv s"
  shows "chain_inv s'"
  using assms
  by (auto simp: persist_transfer_def tx_simps split: option.splits
      dest!: insert_transfer_inv create_deposit_inv dest: emit_inv)

text \<open>Progress of an uncredited deposit among the uncredited statuses keeps the invariant.\<close>

lemma deposit_update_confirmations_inv:
  assumes "deposit_update_confirmations i n a b s = Inr (ok, s')" "chain_inv s"
    "a \<in> {DObserved, DConfirming, DConfirmed}" "b \<in> {DObserved, DConfirming, DConfirmed}"
  shows "chain_inv s' \<and> ledger_same s s'"
proof -
  have s': "s' = s\<lparr>deposits := upd_where (\<lambda>d. d_id d = i \<and> d_status d = a)
      (\<lambda>d. d\<lparr>d_confirmations := n, d_status := b\<rparr>) (deposits s)\<rparr>"
    using assms(1) by (simp add: deposit_update_confirmations_def Let_def)
  have ok: "deposit_ok s (d\<lparr>d_confirmations := n, d_status := b\<rparr>)"
    if "d \<in> set (deposits s)" "d_status d = a" for d
    using that assms(2-4) by (auto simp: chain_inv_def deposit_ok_def)
  show ?thesis unfolding s'
    by (intro conjI chain_inv_deposits) (use assms(2) ok in \<open>auto simp: ledger_same_def\<close>)
qed

end
