(* ===== verification/Tx_Steps.thy ===== *)
theory Tx_Steps
  imports Prelude
begin

text \<open>
  Proof rules for transaction bodies. A component states what one of its steps guarantees as a
  relation between the states before and after, reflexive on the states of its invariant and
  transitive; the rules of this locale then carry the guarantee through sequencing, branching
  and loops, so that a composite operation is proved by its parts.
\<close>

locale tx_steps =
  fixes I :: "'s \<Rightarrow> bool" and R :: "'s \<Rightarrow> 's \<Rightarrow> bool"
  assumes R_refl: "I s \<Longrightarrow> R s s"
    and R_trans: "R s t \<Longrightarrow> R t u \<Longrightarrow> R s u"
    and R_inv: "R s t \<Longrightarrow> I t"
begin

definition steps :: "('s, 'e, 'a) tx \<Rightarrow> bool" where
  "steps m \<longleftrightarrow> (\<forall>s a s'. I s \<longrightarrow> m s = Inr (a, s') \<longrightarrow> R s s')"

lemma stepsI: "(\<And>s a s'. m s = Inr (a, s') \<Longrightarrow> I s \<Longrightarrow> R s s') \<Longrightarrow> steps m"
  by (auto simp: steps_def)

lemma stepsD: "steps m \<Longrightarrow> m s = Inr (a, s') \<Longrightarrow> I s \<Longrightarrow> R s s'"
  by (auto simp: steps_def)

lemma steps_bind: "steps m \<Longrightarrow> (\<And>a. steps (f a)) \<Longrightarrow> steps (tx_bind m f)"
  unfolding steps_def by (auto simp: tx_simps) (meson R_inv R_trans)

lemma steps_then: "steps m \<Longrightarrow> steps k \<Longrightarrow> steps (tx_then m k)"
  unfolding tx_then_def by (rule steps_bind)

lemma steps_return: "steps (tx_return a)"
  by (auto simp: steps_def tx_simps R_refl)

lemma steps_fail: "steps (tx_fail e)"
  by (simp add: steps_def tx_simps)

lemma steps_lift: "steps (tx_lift r)"
  by (auto simp: steps_def tx_simps R_refl)

lemma steps_read: "steps (tx_read f)"
  by (auto simp: steps_def tx_simps R_refl)

lemma steps_for: "(\<And>x. x \<in> set xs \<Longrightarrow> steps (f x)) \<Longrightarrow> steps (tx_for xs f)"
  by (induction xs) (simp_all add: steps_return steps_then)

lemma steps_fold: "(\<And>x b. x \<in> set xs \<Longrightarrow> steps (f x b)) \<Longrightarrow> steps (tx_fold f xs b)"
  by (induction xs arbitrary: b) (simp_all add: steps_return steps_bind)

lemma steps_if: "(c \<Longrightarrow> steps m) \<Longrightarrow> (\<not> c \<Longrightarrow> steps k) \<Longrightarrow> steps (if c then m else k)"
  by simp

lemma steps_option:
  "(x = None \<Longrightarrow> steps m) \<Longrightarrow> (\<And>y. x = Some y \<Longrightarrow> steps (f y)) \<Longrightarrow> steps (case x of None \<Rightarrow> m | Some y \<Rightarrow> f y)"
  by (cases x) simp_all

text \<open>A body that reads the state once.\<close>

lemma steps_with: "(\<And>t. steps (f t)) \<Longrightarrow> steps (\<lambda>s. f (g s) s)"
  by (simp add: steps_def)

lemmas step_rules = steps_bind steps_then steps_return steps_fail steps_lift steps_read steps_for
  steps_fold steps_if steps_option

end

end
