(* ===== verification/Deposit_Run.thy ===== *)
theory Deposit_Run
  imports Deposit_Inv Tx_Steps
begin

text \<open>
  The deposit pipeline as a sequence of steps over \<open>Deposit_Inv\<close>: persisting a scan, the
  confirmation pass and the credit handler. Besides the invariant, every step keeps the gap
  between what the ledger owes a user and the sum of the user's credited deposits.
\<close>

section \<open>The books against the deposits\<close>

definition user_position :: "'x ledger_db_scheme \<Rightarrow> uuid \<Rightarrow> uuid \<Rightarrow> int" where
  "user_position s u x = balance_of s (UserAvailable, Some u, x) + balance_of s (UserReserved, Some u, x) -
     balance_of s (UserDeficit, Some u, x)"

definition credited_amount :: "uuid \<Rightarrow> uuid \<Rightarrow> deposit \<Rightarrow> int" where
  "credited_amount u x d = (if d_user d = u \<and> d_asset d = x \<and> d_status d = DCredited then d_amount d else 0)"

definition credited_total :: "'x chain_db_scheme \<Rightarrow> uuid \<Rightarrow> uuid \<Rightarrow> int" where
  "credited_total s u x = sum_list (map (credited_amount u x) (deposits s))"

definition deposit_gap :: "'x chain_db_scheme \<Rightarrow> uuid \<Rightarrow> uuid \<Rightarrow> int" where
  "deposit_gap s u x = user_position s u x - credited_total s u x"

text \<open>How a deposit may change: its status along the lifecycle, never its owner or amount.\<close>

definition evolves :: "deposit \<Rightarrow> deposit \<Rightarrow> bool" where
  "evolves d d' \<longleftrightarrow> d_id d' = d_id d \<and> d_user d' = d_user d \<and> d_btx d' = d_btx d \<and> d_asset d' = d_asset d \<and>
     d_amount d' = d_amount d \<and> deposit_can_transition_to\<^sup>*\<^sup>* (d_status d) (d_status d')"

definition deposits_evolve :: "deposit list \<Rightarrow> deposit list \<Rightarrow> bool" where
  "deposits_evolve ds ds' \<longleftrightarrow> (\<forall>d\<in>set ds. \<exists>d'\<in>set ds'. evolves d d')"

lemma evolves_refl [simp]: "evolves d d"
  by (simp add: evolves_def)

lemma evolves_trans: "evolves a b \<Longrightarrow> evolves b c \<Longrightarrow> evolves a c"
  by (auto simp: evolves_def)

lemma deposits_evolve_refl [simp]: "deposits_evolve ds ds"
  unfolding deposits_evolve_def using evolves_refl by blast

lemma deposits_evolve_trans: "deposits_evolve a b \<Longrightarrow> deposits_evolve b c \<Longrightarrow> deposits_evolve a c"
  unfolding deposits_evolve_def by (meson evolves_trans)

lemma deposits_evolve_append: "deposits_evolve ds (ds @ es)"
  unfolding deposits_evolve_def set_append using evolves_refl by blast

lemma deposits_evolve_upd:
  assumes "\<And>d. d \<in> set ds \<Longrightarrow> P d \<Longrightarrow> evolves d (f d)"
  shows "deposits_evolve ds (upd_where P f ds)"
  unfolding deposits_evolve_def set_upd_where
proof
  fix d assume "d \<in> set ds"
  then show "\<exists>d'\<in>(\<lambda>r. if P r then f r else r) ` set ds. evolves d d'"
    using assms by (intro bexI [of _ "if P d then f d else d"]) simp_all
qed

text \<open>
  What the deposit side leaves to the withdrawal side: the tables it does not know, the
  idempotency keys that are not its own, and the balances of reserved and clearing accounts.
\<close>

definition deposit_keys :: "string set" where
  "deposit_keys = range credit_key \<union> range reversal_key"

definition withdrawals_kept :: "'x chain_db_scheme \<Rightarrow> 'x chain_db_scheme \<Rightarrow> bool" where
  "withdrawals_kept s s' \<longleftrightarrow> chain_db.more s' = chain_db.more s \<and>
     (\<forall>k. k \<notin> deposit_keys \<longrightarrow> posted_key s' k = posted_key s k) \<and>
     (\<forall>t o2 x. t \<in> {UserReserved, WithdrawalClearing} \<longrightarrow> balance_of s' (t, o2, x) = balance_of s (t, o2, x)) \<and>
     users s' = users s \<and> assets s' = assets s \<and> id_src s' = id_src s \<and> id_next s \<le> id_next s'"

lemma withdrawals_kept_refl [simp]: "withdrawals_kept s s"
  by (simp add: withdrawals_kept_def)

lemma withdrawals_kept_trans: "withdrawals_kept s t \<Longrightarrow> withdrawals_kept t u \<Longrightarrow> withdrawals_kept s u"
  by (simp add: withdrawals_kept_def)

lemma withdrawals_kept_same:
  fixes s s' :: "'x chain_db_scheme"
  assumes "ledger_same s s'" "chain_db.more s' = chain_db.more s"
  shows "withdrawals_kept s s'"
  using assms ledger_same_facts(1,2) [OF assms(1)] by (simp add: withdrawals_kept_def ledger_same_def)

text \<open>One step of the pipeline, or none.\<close>

definition deposit_step :: "'x chain_db_scheme \<Rightarrow> 'x chain_db_scheme \<Rightarrow> bool" where
  "deposit_step s s' \<longleftrightarrow> chain_inv s' \<and> deposit_gap s' = deposit_gap s \<and>
     (\<forall>x. asset_position s' x = asset_position s x) \<and> deposits_evolve (deposits s) (deposits s') \<and>
     withdrawals_kept s s'"

lemma deposit_step_refl: "chain_inv s \<Longrightarrow> deposit_step s s"
  by (simp add: deposit_step_def)

lemma deposit_step_trans: "deposit_step s t \<Longrightarrow> deposit_step t u \<Longrightarrow> deposit_step s u"
  using deposits_evolve_trans [of "deposits s" "deposits t" "deposits u"] withdrawals_kept_trans [of s t u]
  by (simp add: deposit_step_def)

lemma deposit_step_inv: "deposit_step s s' \<Longrightarrow> chain_inv s'"
  by (simp add: deposit_step_def)

interpretation ds: tx_steps chain_inv deposit_step
  by unfold_locales (blast intro: deposit_step_refl deposit_step_trans deposit_step_inv)+

lemma step_of_same:
  assumes "ledger_same s s'" "chain_inv s'" "\<And>u x. credited_total s' u x = credited_total s u x"
    "deposits_evolve (deposits s) (deposits s')" "chain_db.more s' = chain_db.more s"
  shows "deposit_step s s'"
  using assms ledger_same_facts(2,3) [OF assms(1)] withdrawals_kept_same [OF assms(1,5)]
  by (simp add: deposit_step_def deposit_gap_def user_position_def fun_eq_iff)

lemma step_of_same_deposits:
  "ledger_same s s' \<Longrightarrow> chain_inv s' \<Longrightarrow> deposits s' = deposits s \<Longrightarrow> chain_db.more s' = chain_db.more s \<Longrightarrow>
   deposit_step s s'"
  by (rule step_of_same) (simp_all add: credited_total_def)

lemma event_more_more:
  fixes s s' :: "'x chain_db_scheme"
  shows "event_db.more s' = event_db.more s \<Longrightarrow> chain_db.more s' = chain_db.more s"
  by (cases s; cases s') simp

lemma emit_more:
  fixes s :: "'x chain_db_scheme"
  assumes "emit v5 p corr key s = Inr (u, s')"
  shows "chain_db.more s' = chain_db.more s"
proof -
  have "event_db.more s' = event_db.more s" using enqueue_Inr [OF assms [unfolded emit_def]] by blast
  then show ?thesis by (rule event_more_more)
qed

section \<open>Steps without a posting\<close>

lemma emit_step: "emit v5 p corr key s = Inr (u, s') \<Longrightarrow> chain_inv s \<Longrightarrow> deposit_step s s'"
  using emit_Inr [of v5 p corr key s u s'] emit_inv [of v5 p corr key s u s'] emit_more [of v5 p corr key s u s']
  by (intro step_of_same_deposits) (auto simp: chain_same_def)

text \<open>The operations on blocks and cursor touch neither the ledger nor the deposits.\<close>

lemma block_tables_frame:
  "set_cursor chain h hash head s = Inr (u, s') \<Longrightarrow> ledger_same s s' \<and> deposits s' = deposits s \<and> chain_db.more s' = chain_db.more s"
  "orphan_blocks_above chain h s = Inr (hs, s') \<Longrightarrow> ledger_same s s' \<and> deposits s' = deposits s \<and> chain_db.more s' = chain_db.more s"
  "insert_canonical_block chain hash h parent s = Inr (u, s') \<Longrightarrow> ledger_same s s' \<and> deposits s' = deposits s \<and> chain_db.more s' = chain_db.more s"
  "prune_blocks_below chain h s = Inr (n, s') \<Longrightarrow> ledger_same s s' \<and> deposits s' = deposits s \<and> chain_db.more s' = chain_db.more s"
  by (auto simp: set_cursor_def orphan_blocks_above_def insert_canonical_block_def prune_blocks_below_def
      tx_simps ledger_same_def Let_def split: if_splits option.splits)

lemma set_cursor_step: "set_cursor chain h hash head s = Inr (u, s') \<Longrightarrow> chain_inv s \<Longrightarrow> deposit_step s s'"
  using block_tables_frame(1) set_cursor_inv by (blast intro: step_of_same_deposits)

lemma orphan_blocks_above_step:
  "orphan_blocks_above chain h s = Inr (hs, s') \<Longrightarrow> chain_inv s \<Longrightarrow> deposit_step s s'"
  using block_tables_frame(2) orphan_blocks_above_inv by (blast intro: step_of_same_deposits)

lemma insert_canonical_block_step:
  "insert_canonical_block chain hash h parent s = Inr (u, s') \<Longrightarrow> chain_inv s \<Longrightarrow> deposit_step s s'"
  using block_tables_frame(3) insert_canonical_block_inv by (blast intro: step_of_same_deposits)

lemma prune_blocks_below_step:
  "prune_blocks_below chain h s = Inr (n, s') \<Longrightarrow> chain_inv s \<Longrightarrow> deposit_step s s'"
  using block_tables_frame(4) prune_blocks_below_inv by (blast intro: step_of_same_deposits)

lemma transfer_more:
  "mark_transfers_orphaned chain hs s = Inr (ids, s') \<Longrightarrow> chain_db.more s' = chain_db.more s"
  "insert_transfer t asset s = Inr (r, s') \<Longrightarrow> chain_db.more s' = chain_db.more s"
  by (auto simp: mark_transfers_orphaned_def insert_transfer_def gen_uuid_def tx_simps Let_def split: if_splits)

lemma mark_transfers_orphaned_step:
  "mark_transfers_orphaned chain hs s = Inr (ids, s') \<Longrightarrow> chain_inv s \<Longrightarrow> deposit_step s s'"
  using mark_transfers_orphaned_inv [of chain hs s ids s'] transfer_more(1) [of chain hs s ids s']
  by (blast intro: step_of_same_deposits)

lemma insert_transfer_step:
  "insert_transfer t asset s = Inr (r, s') \<Longrightarrow> chain_inv s \<Longrightarrow> deposit_step s s'"
  using insert_transfer_inv [of t asset s r s'] transfer_more(2) [of t asset s r s'] by (blast intro: step_of_same_deposits)

lemma create_deposit_step:
  assumes "create_deposit user btx asset amt s = Inr (d, s')" "chain_inv s"
  shows "deposit_step s s'"
proof (rule step_of_same)
  show "chain_inv s'" by (rule create_deposit_inv [OF assms])
  show "ledger_same s s'" "credited_total s' u x = credited_total s u x"
    "deposits_evolve (deposits s) (deposits s')" "chain_db.more s' = chain_db.more s" for u x
    using assms(1)
    by (auto simp: create_deposit_def gen_uuid_def tx_simps Let_def ledger_same_def credited_total_def
        credited_amount_def deposits_evolve_append split: if_splits option.splits)
qed

lemma deposit_update_confirmations_step:
  assumes "deposit_update_confirmations i n a b s = Inr (ok, s')" "chain_inv s"
    "a \<in> {DObserved, DConfirming, DConfirmed}" "b \<in> {DObserved, DConfirming, DConfirmed}"
    "deposit_can_transition_to a b"
  shows "deposit_step s s'"
proof (rule step_of_same)
  note inv = deposit_update_confirmations_inv [OF assms(1-4)]
  then show "chain_inv s'" "ledger_same s s'" by simp_all
  show "credited_total s' u x = credited_total s u x" for u x
    using assms(1,3,4)
    by (auto simp: deposit_update_confirmations_def Let_def credited_total_def map_upd_where credited_amount_def)
  show "deposits_evolve (deposits s) (deposits s')"
    using assms(1,5)
    by (auto simp: deposit_update_confirmations_def Let_def evolves_def simp del: deposit_can_transition_to.simps
        intro!: deposits_evolve_upd)
  show "chain_db.more s' = chain_db.more s" using assms(1) by (auto simp: deposit_update_confirmations_def Let_def)
qed

text \<open>The composite operations are runs of such steps.\<close>

lemma persist_header_steps: "ds.steps (persist_header v5 chain corr h)"
  unfolding persist_header_def
  by (intro ds.step_rules ds.stepsI; erule (1) orphan_blocks_above_step insert_canonical_block_step emit_step)

lemma persist_transfer_steps: "ds.steps (persist_transfer v5 ctx corr t)"
  unfolding persist_transfer_def
  by (intro ds.step_rules ds.stepsI; erule (1) insert_transfer_step create_deposit_step emit_step)

lemma persist_in_tx_steps: "ds.steps (persist_in_tx v5 ctx scan head corr)"
  unfolding persist_in_tx_def Let_def
  by (intro ds.step_rules persist_header_steps persist_transfer_steps ds.stepsI; erule (1) set_cursor_step)

text \<open>A pass only touches deposits that are pending, so the compare-and-set starts uncredited.\<close>

lemma confirm_one_steps:
  "pd_status d \<in> {DObserved, DConfirming, DConfirmed} \<Longrightarrow> ds.steps (confirm_one v5 policy chain head corr d pass)"
  unfolding confirm_one_def Let_def
  by (intro ds.step_rules ds.stepsI; (erule (1) emit_step)?; (erule (1) deposit_update_confirmations_step)?; auto)

lemma claim_pending_Inr:
  assumes "claim_pending_deposits locked chain limit s = Inr (ps, s')"
  shows "s' = s" "\<And>p. p \<in> set ps \<Longrightarrow> pd_chain p = chain \<and> (\<exists>d\<in>set (deposits s). pending_of s d = Some p \<and>
    d_status d \<in> {DObserved, DConfirming, DConfirmed})"
proof -
  let ?ds = "filter (\<lambda>d. d_status d \<in> {DObserved, DConfirming, DConfirmed} \<and> d_id d \<notin> locked) (deposits s)"
  have ps: "ps = take limit (sort_key pd_block_number
      (filter (\<lambda>p. pd_chain p = chain) (List.map_filter (pending_of s) ?ds)))" and "s' = s"
    using assms by (simp_all add: claim_pending_deposits_def tx_simps)
  then show "s' = s" by simp
  fix p assume p: "p \<in> set ps"
  have "p \<in> set (filter (\<lambda>p. pd_chain p = chain) (List.map_filter (pending_of s) ?ds))"
    using in_set_takeD [OF p [unfolded ps]] by simp
  then show "pd_chain p = chain \<and> (\<exists>d\<in>set (deposits s). pending_of s d = Some p \<and>
      d_status d \<in> {DObserved, DConfirming, DConfirmed})"
    by (auto simp: List.map_filter_def simp del: bex_simps)
qed

lemma pending_of_Some:
  assumes "pending_of s d = Some p"
  shows "pd_deposit p = d_id d" "pd_status p = d_status d" "pd_amount p = d_amount d"
    "\<exists>t\<in>set (transfers s). bt_id t = d_btx d \<and> bt_block_number t = pd_block_number p \<and>
       bt_block_hash t = pd_block_hash p \<and> bt_chain t = pd_chain p"
  using assms by (auto simp: pending_of_def split: option.splits dest!: find_Some_setD)

lemma confirmation_tx_steps: "ds.steps (confirmation_tx v5 policy locked chain head corr)"
proof (rule ds.stepsI)
  fix s pass s' assume run: "confirmation_tx v5 policy locked chain head corr s = Inr (pass, s')" and inv: "chain_inv s"
  from run obtain ps s1 where c: "claim_pending_deposits locked chain 200 s = Inr (ps, s1)"
    and f: "tx_fold (confirm_one v5 policy chain head corr) ps
      \<lparr>cp_examined = length ps, cp_confirming = 0, cp_confirmed = 0, cp_non_canonical = 0\<rparr> s1 = Inr (pass, s')"
    by (auto simp: confirmation_tx_def tx_simps)
  have "ds.steps (confirm_one v5 policy chain head corr p b)" if "p \<in> set ps" for p b
    using claim_pending_Inr(2) [OF c that] pending_of_Some(2) by (intro confirm_one_steps) force
  then show "deposit_step s s'"
    using ds.stepsD [OF ds.steps_fold f] inv claim_pending_Inr(1) [OF c] by blast
qed

lemma atomically_deposit_step:
  assumes "ds.steps m" "chain_inv s"
  shows "deposit_step s (snd (atomically m s))"
    and "atomically m s = (case m s of Inl e \<Rightarrow> (Inl e, s) | Inr (a, s') \<Rightarrow> (Inr a, s'))"
proof -
  have "ledger_inv s'" if "m s = Inr (a, s')" for a s'
    using ds.stepsD [OF assms(1) that assms(2)] by (simp add: deposit_step_def chain_inv_ledger)
  then show a: "atomically m s = (case m s of Inl e \<Rightarrow> (Inl e, s) | Inr (a, s') \<Rightarrow> (Inr a, s'))"
    by (rule atomically_inv)
  show "deposit_step s (snd (atomically m s))"
    using ds.stepsD [OF assms(1)] assms(2) by (auto simp: a ds.R_refl split: sum.split)
qed

section \<open>Steps with a posting\<close>

text \<open>A ledger posting changes neither the tables of the chain side nor what is not its key.\<close>

lemma ledger_more_chain:
  fixes s s' :: "'x chain_db_scheme"
  shows "ledger_db.more s' = ledger_db.more s \<Longrightarrow> chain_same s s' \<and> cursors s' = cursors s \<and>
    processed s' = processed s \<and> outbox s' = outbox s \<and> chain_db.more s' = chain_db.more s"
  by (cases s; cases s') (simp add: chain_same_def)

lemma posts_chain:
  fixes s s' :: "'x chain_db_scheme"
  assumes "posts key legs r s s'"
  shows "chain_same s s'" "clock s' = clock s" "assets s' = assets s" "used_ids s \<subseteq> used_ids s'"
proof -
  have f: "ledger_db.more s' = ledger_db.more s" "id_src s' = id_src s" "id_next s \<le> id_next s'"
    "clock s' = clock s" "assets s' = assets s"
    using assms by (simp_all add: posts_def ledger_extends_def ledger_frame_def)
  then show "chain_same s s'" "clock s' = clock s" "assets s' = assets s"
    using ledger_more_chain [of s' s] by blast+
  show "used_ids s \<subseteq> used_ids s'" by (rule used_ids_mono [OF f(2,3)])
qed

lemma upd_where_mem: "r \<in> set (upd_where P f rows) \<Longrightarrow> \<exists>r0\<in>set rows. r = (if P r0 then f r0 else r0)"
  unfolding set_upd_where by blast

lemma upd_where_keyed:
  assumes "unique_key k rows" "a \<in> set rows" "Q a"
  shows "upd_where (\<lambda>r. k r = k a \<and> Q r) f rows = upd_where (\<lambda>r. k r = k a) f rows"
proof -
  have "r = a" if "r \<in> set rows" "k r = k a" for r by (rule unique_keyD [OF assms(1) that(1) assms(2) that(2)])
  then show ?thesis using assms(3) unfolding upd_where_def by (intro map_cong refl) (metis (full_types))
qed

lemma rows_affected_keyed:
  assumes "unique_key k rows" "a \<in> set rows" "Q a"
  shows "rows_affected (\<lambda>r. k r = k a \<and> Q r) rows = 1"
  using find_key_Some [OF assms(1), of "k a" a] assms rows_affected_key [OF assms(1), of "k a" Q] by simp

text \<open>
  A posting for deposit \<open>d\<close> under one of its two keys, followed by the update of its row: the
  invariant holds again when the new row says what the ledger now holds.
\<close>

lemma post_then_mark:
  fixes s s1 :: "'x chain_db_scheme"
  assumes inv: "chain_inv s" and d: "d \<in> set (deposits s)"
    and p: "posts key legs r s s1" and key: "key \<in> {credit_key (d_id d), reversal_key (d_id d)}"
    and f: "d_id (f d) = d_id d" "d_btx (f d) = d_btx d"
    and ok: "deposit_ok s1 (f d)"
    and s2: "s2 = s1\<lparr>deposits := upd_where (\<lambda>e. d_id e = d_id d) f (deposits s1)\<rparr>"
  shows "chain_inv s2"
proof -
  have uniq: "unique_key d_id (deposits s)" using inv by (simp add: chain_inv_def)
  note c = posts_chain [OF p, unfolded chain_same_def]
  have only: "e = d" if "e \<in> set (deposits s)" "d_id e = d_id d" for e
    by (rule unique_keyD [OF uniq that(1) d that(2)])
  have row: "d_id (if d_id e = d_id d then f e else e) = d_id e \<and> d_btx (if d_id e = d_id d then f e else e) = d_btx e"
    if "e \<in> set (deposits s)" for e using only [OF that] f by auto
  have maps: "map d_id (deposits s2) = map d_id (deposits s)" "map d_btx (deposits s2) = map d_btx (deposits s)"
    using row c(1) by (auto simp: s2 upd_where_def)
  then have ids: "d_id ` set (deposits s2) = d_id ` set (deposits s)" "d_btx ` set (deposits s2) = d_btx ` set (deposits s)"
    by (metis set_map)+
  have l: "ledger_same s1 s2" by (simp add: s2 ledger_same_def)
  note pk = ledger_same_facts(1) [OF l] and pk1 = posts_posted_key [OF p]
  have dok: "deposit_ok s2 e" if "e \<in> set (deposits s2)" for e
  proof -
    from that obtain e0 where e0: "e0 \<in> set (deposits s)" "e = (if d_id e0 = d_id d then f e0 else e0)"
      using c(1) by (auto simp: s2 set_upd_where)
    show ?thesis
    proof (cases "d_id e0 = d_id d")
      case True
      then have "e0 = d" by (rule only [OF e0(1)])
      with True e0(2) ok show ?thesis by (simp add: deposit_ok_cong [OF pk])
    next
      case False
      have "deposit_ok s e0" using inv e0 by (simp add: chain_inv_def)
      with False key have "deposit_ok s1 e0" by (auto simp: deposit_ok_def pk1)
      with False e0 show ?thesis by (simp add: deposit_ok_cong [OF pk])
    qed
  qed
  have "ledger_inv s2" using ledger_same_inv [OF l] p by (simp add: posts_def)
  moreover have "unique_key d_id (deposits s2)" "unique_key d_btx (deposits s2)"
    using inv maps by (simp_all add: chain_inv_def unique_key_def)
  moreover have "used_ids s \<subseteq> used_ids s2" using c(4) ledger_same_used [OF l] by blast
  moreover have "posted_key s2 (credit_key i) \<or> posted_key s2 (reversal_key i) \<Longrightarrow> i \<in> d_id ` set (deposits s2)" for i
    using inv key d by (auto simp: pk pk1 ids chain_inv_def)
  moreover have "blocks s2 = blocks s" "transfers s2 = transfers s" using c(1) by (simp_all add: s2)
  ultimately show ?thesis
    using inv dok ids unfolding chain_inv_def by auto
qed

lemma posts_position:
  assumes "posts key legs r s s'" "\<not> posted_key s key"
  shows "user_position s' u x = user_position s u x + sum_list (map (leg_delta (UserAvailable, Some u, x)) legs) +
    sum_list (map (leg_delta (UserReserved, Some u, x)) legs) - sum_list (map (leg_delta (UserDeficit, Some u, x)) legs)"
  by (simp add: user_position_def posts_balance [OF assms])

lemma posts_kept:
  fixes s s1 :: "'x chain_db_scheme"
  assumes p: "posts key legs r s s1" and "key \<in> deposit_keys" "\<not> posted_key s key"
    and z: "\<And>t o2 x. t \<in> {UserReserved, WithdrawalClearing} \<Longrightarrow> sum_list (map (leg_delta (t, o2, x)) legs) = 0"
  shows "withdrawals_kept s s1"
proof -
  have f: "ledger_db.more s1 = ledger_db.more s" "users s1 = users s" "assets s1 = assets s" "id_src s1 = id_src s"
    "id_next s \<le> id_next s1"
    using p by (simp_all add: posts_def ledger_extends_def ledger_frame_def)
  have "posted_key s1 k = posted_key s k" if "k \<notin> deposit_keys" for k
    using posts_posted_key [OF p, of k] that assms(2) by auto
  moreover have "balance_of s1 (t, o2, x) = balance_of s (t, o2, x)" if "t \<in> {UserReserved, WithdrawalClearing}" for t o2 x
    using posts_balance [OF p assms(3), of "(t, o2, x)"] z [OF that, of o2 x] by simp
  ultimately show ?thesis using f ledger_more_chain [OF f(1)] by (simp add: withdrawals_kept_def)
qed

lemma post_then_mark_step:
  fixes s s1 :: "'x chain_db_scheme"
  assumes inv: "chain_inv s" and d: "d \<in> set (deposits s)"
    and p: "posts key legs r s s1" and key: "key \<in> {credit_key (d_id d), reversal_key (d_id d)}" "\<not> posted_key s key"
    and f: "d_id (f d) = d_id d" "d_btx (f d) = d_btx d"
    and ok: "deposit_ok s1 (f d)"
    and s2: "s2 = s1\<lparr>deposits := upd_where (\<lambda>e. d_id e = d_id d) f (deposits s1)\<rparr>"
    and ev: "evolves d (f d)"
    and eq: "\<And>u x. sum_list (map (leg_delta (UserAvailable, Some u, x)) legs) +
      sum_list (map (leg_delta (UserReserved, Some u, x)) legs) -
      sum_list (map (leg_delta (UserDeficit, Some u, x)) legs) = credited_amount u x (f d) - credited_amount u x d"
    and z: "\<And>t o2 x. t \<in> {UserReserved, WithdrawalClearing} \<Longrightarrow> sum_list (map (leg_delta (t, o2, x)) legs) = 0"
  shows "deposit_step s s2"
proof -
  have l: "ledger_same s1 s2" by (simp add: s2 ledger_same_def)
  note b = ledger_same_facts(2,3) [OF l]
  have ds: "deposits s1 = deposits s" using posts_chain(1) [OF p] by (simp add: chain_same_def)
  have uniq: "unique_key d_id (deposits s)" using inv by (simp add: chain_inv_def)
  have "credited_total s2 u x = credited_total s u x + (credited_amount u x (f d) - credited_amount u x d)" for u x
    using sum_list_upd_key [OF uniq d, of "credited_amount u x" f] by (simp add: credited_total_def s2 ds)
  moreover have "user_position s2 u x = user_position s1 u x" for u x by (simp add: user_position_def b)
  ultimately have "deposit_gap s2 u x = deposit_gap s u x" for u x
    using posts_position [OF p key(2), of u x] eq [of u x] by (simp add: deposit_gap_def)
  then have "deposit_gap s2 = deposit_gap s" by (simp add: fun_eq_iff)
  moreover have "asset_position s2 x = asset_position s x" for x using p by (simp add: b posts_def)
  moreover have "deposits_evolve (deposits s) (deposits s2)"
  proof -
    have "evolves e (f e)" if "e \<in> set (deposits s)" "d_id e = d_id d" for e
      using ev unique_keyD [OF uniq that(1) d that(2)] by simp
    then show ?thesis unfolding s2 ds by (simp add: deposits_evolve_upd)
  qed
  moreover have "withdrawals_kept s s2"
  proof (rule withdrawals_kept_trans)
    show "withdrawals_kept s s1" by (rule posts_kept [OF p _ key(2) z]) (use key(1) in \<open>auto simp: deposit_keys_def\<close>)
    show "withdrawals_kept s1 s2" by (rule withdrawals_kept_same [OF l]) (simp add: s2)
  qed
  ultimately show ?thesis
    using post_then_mark [OF inv d p key(1) f ok s2] by (simp add: deposit_step_def)
qed

lemma get_deposit_Inr:
  assumes "get_deposit i s = Inr (d, s')"
  shows "s' = s" "d \<in> set (deposits s)" "d_id d = i"
  using assms by (auto simp: get_deposit_def split: option.splits dest!: find_Some_setD)

text \<open>The state in which a credit leaves the ledger and the deposit row, before its event.\<close>

lemma credit_mark:
  assumes inv: "chain_inv s" and d: "d \<in> set (deposits s)" "d_status d = DConfirmed"
    and c: "credit_deposit (d_id d) (d_user d) (d_asset d) (d_amount d) corr s = Inr (r, s1)"
    and m: "mark_credited (d_id d) (post_result_id r) s1 = Inr (ok, s2)"
  shows "ok" "was_posted r" "deposit_step s s2"
    "balance_of s2 = (balance_of s)
      ((ExchangeCustody, None, d_asset d) := balance_of s (ExchangeCustody, None, d_asset d) + d_amount d,
       (UserAvailable, Some (d_user d), d_asset d) := balance_of s (UserAvailable, Some (d_user d), d_asset d) + d_amount d)"
    "deposits s2 = upd_where (\<lambda>e. d_id e = d_id d)
      (\<lambda>e. e\<lparr>d_status := DCredited, d_ledger_tx := Some (post_result_id r), d_credited_at := Some (clock s)\<rparr>) (deposits s)"
proof -
  let ?f = "\<lambda>e. e\<lparr>d_status := DCredited, d_ledger_tx := Some (post_result_id r), d_credited_at := Some (clock s)\<rparr>"
  let ?x = "d_asset d" and ?u = "d_user d"
  note p = credit_deposit_posts [OF chain_inv_ledger [OF inv] c, folded credit_key_def]
  note ch = posts_chain [OF p, unfolded chain_same_def]
  have uniq: "unique_key d_id (deposits s1)" and ds: "deposits s1 = deposits s" "d \<in> set (deposits s1)"
    using inv d ch(1) by (simp_all add: chain_inv_def)
  have dok: "deposit_ok s d" using inv d by (simp add: chain_inv_def)
  then have fresh: "\<not> posted_key s (credit_key (d_id d))" and l: "d_ledger_tx d = None" and pos: "0 < d_amount d"
    and nr: "\<not> posted_key s (reversal_key (d_id d))"
    using d(2) by (auto simp: deposit_ok_def)
  show ok using m rows_affected_keyed [OF uniq ds(2), of "\<lambda>d. d_status d = DConfirmed"] d(2)
    by (simp add: mark_credited_def Let_def)
  show "was_posted r" using p fresh by (simp add: posts_def posted_key_def abs_ledger_def)
  have s2: "s2 = s1\<lparr>deposits := upd_where (\<lambda>e. d_id e = d_id d) ?f (deposits s1)\<rparr>"
    using m upd_where_keyed [OF uniq ds(2), of "\<lambda>d. d_status d = DConfirmed"] d(2) ch(2)
    by (simp add: mark_credited_def Let_def)
  have ok1: "deposit_ok s1 (?f d)"
    using pos nr by (simp add: deposit_ok_def posts_posted_key [OF p])
  show "deposit_step s s2"
    by (rule post_then_mark_step [OF inv d(1) p _ fresh _ _ ok1 s2])
      (use d(2) in \<open>auto simp: leg_delta_def natural_delta_def credited_amount_def evolves_def\<close>)
  have "balance_of s2 = balance_of s1" by (rule ledger_same_facts(2)) (simp add: s2 ledger_same_def)
  then show "balance_of s2 = (balance_of s)
      ((ExchangeCustody, None, ?x) := balance_of s (ExchangeCustody, None, ?x) + d_amount d,
       (UserAvailable, Some ?u, ?x) := balance_of s (UserAvailable, Some ?u, ?x) + d_amount d)"
    using posts_balance [OF p fresh] by (auto simp: fun_eq_iff leg_delta_def natural_delta_def simp del: split_paired_All)
  show "deposits s2 = upd_where (\<lambda>e. d_id e = d_id d) ?f (deposits s)" by (simp add: s2 ds)
qed

lemma credit_tail_Inr:
  assumes "credit_tail v5 d ltx corr s = Inr (u, s')"
  shows "ledger_same s s' \<and> chain_same s s' \<and> chain_db.more s' = chain_db.more s"
proof -
  from assms obtain p k where "emit v5 p corr k s = Inr (u, s')"
    by (auto simp: credit_tail_def tx_simps get_asset_by_id_def split: option.splits)
  then show ?thesis using emit_Inr emit_more by blast
qed

text \<open>The credit operation: credited now, or nothing changed.\<close>

lemma credit_cases:
  assumes inv: "chain_inv s" and run: "credit v5 i corr s = (r, s')"
  shows "r \<noteq> Inr CreditedNow \<Longrightarrow> s' = s"
    and "r = Inr CreditedNow \<Longrightarrow> \<exists>d posted s1 s2 ltx. d \<in> set (deposits s) \<and> d_id d = i \<and> d_status d = DConfirmed \<and>
      credit_deposit (d_id d) (d_user d) (d_asset d) (d_amount d) (Some corr) s = Inr (posted, s1) \<and>
      mark_credited (d_id d) (post_result_id posted) s1 = Inr (True, s2) \<and> credit_tail v5 d ltx corr s2 = Inr ((), s')"
proof -
  show "s' = s" if "r \<noteq> Inr CreditedNow"
    using run that
    by (auto simp: credit_def lock_deposit_def split: sum.splits prod.splits deposit_status.splits bool.splits)
  assume r: "r = Inr CreditedNow"
  from run r obtain d s0 posted s1 s2 u where l: "get_deposit i s = Inr (d, s0)" and st: "d_status d = DConfirmed"
    and c: "credit_deposit (d_id d) (d_user d) (d_asset d) (d_amount d) (Some corr) s = Inr (posted, s1)"
    and m: "mark_credited (d_id d) (post_result_id posted) s1 = Inr (True, s2)"
    and t: "tx_then (credit_tail v5 d (post_result_id posted) corr) commit s2 = Inr (u, s')"
    by (auto simp: credit_def lock_deposit_def split: sum.splits prod.splits deposit_status.splits bool.splits)
  from t obtain s3 where t3: "credit_tail v5 d (post_result_id posted) corr s2 = Inr ((), s3)"
    and cm: "commit s3 = Inr (u, s')" by (auto simp: tx_simps)
  note d = get_deposit_Inr [OF l]
  have "deposit_step s s2" by (rule credit_mark(3) [OF inv d(2) st c m])
  then have "chain_inv s3" using credit_tail_Inr [OF t3] chain_inv_same deposit_step_inv by blast
  then have "s' = s3" using cm commit_inv chain_inv_ledger by fastforce
  with d st c m t3 show "\<exists>d posted s1 s2 ltx. d \<in> set (deposits s) \<and> d_id d = i \<and> d_status d = DConfirmed \<and>
      credit_deposit (d_id d) (d_user d) (d_asset d) (d_amount d) (Some corr) s = Inr (posted, s1) \<and>
      mark_credited (d_id d) (post_result_id posted) s1 = Inr (True, s2) \<and> credit_tail v5 d ltx corr s2 = Inr ((), s')"
    by blast
qed

lemma credit_effect:
  assumes inv: "chain_inv s" and run: "credit v5 i corr s = (Inr CreditedNow, s')"
  obtains d ltx where "d \<in> set (deposits s)" "d_id d = i" "d_status d = DConfirmed" "deposit_step s s'"
    "balance_of s' = (balance_of s)
      ((ExchangeCustody, None, d_asset d) := balance_of s (ExchangeCustody, None, d_asset d) + d_amount d,
       (UserAvailable, Some (d_user d), d_asset d) := balance_of s (UserAvailable, Some (d_user d), d_asset d) + d_amount d)"
    "deposits s' = upd_where (\<lambda>e. d_id e = i)
      (\<lambda>e. e\<lparr>d_status := DCredited, d_ledger_tx := Some ltx, d_credited_at := Some (clock s)\<rparr>) (deposits s)"
proof -
  from credit_cases(2) [OF inv run refl] obtain d posted s1 s2 ltx where d: "d \<in> set (deposits s)" "d_id d = i"
    "d_status d = DConfirmed"
    and c: "credit_deposit (d_id d) (d_user d) (d_asset d) (d_amount d) (Some corr) s = Inr (posted, s1)"
    and m: "mark_credited (d_id d) (post_result_id posted) s1 = Inr (True, s2)"
    and t: "credit_tail v5 d ltx corr s2 = Inr ((), s')" by blast
  note cm = credit_mark [OF inv d(1,3) c m] and ct = credit_tail_Inr [OF t]
  have e: "deposits s' = deposits s2" "balance_of s' = balance_of s2"
    using ct ledger_same_facts(2) by (auto simp: chain_same_def)
  have "deposit_step s2 s'"
    using ct cm(3) chain_inv_same [of s2 s'] deposit_step_inv e(1) by (blast intro: step_of_same_deposits)
  with cm(3) have "deposit_step s s'" by (rule ds.R_trans)
  with that [of d "post_result_id posted"] d cm(4,5) e show ?thesis by simp
qed

lemma credit_step: "chain_inv s \<Longrightarrow> deposit_step s (snd (credit v5 i corr s))"
  by (cases "fst (credit v5 i corr s) = Inr CreditedNow")
    (metis credit_effect prod.collapse, metis credit_cases(1) ds.R_refl prod.collapse)

lemma claim_steps: "ds.steps (claim c e)"
proof (rule ds.stepsI)
  fix s b s' assume run: "claim c e s = Inr (b, s')" and inv: "chain_inv s"
  have f: "ledger_same s s'" "chain_same s s'" "chain_db.more s' = chain_db.more s"
    using run by (auto simp: claim_def claim_event_def tx_simps ledger_same_def chain_same_def split: if_splits)
  show "deposit_step s s'"
    using f chain_inv_same [OF f(1,2) inv] by (intro step_of_same_deposits) (auto simp: chain_same_def)
qed

lemma credit_handle_with_state:
  assumes "atomically (claim ''deposit_credit'' e) s = (rc, sc)"
  shows "snd (credit_handle_with f e s) \<in> {s, sc} \<union> (\<Union>i corr. {snd (f i corr sc)})"
proof (cases "ev_payload e")
  case (DepositConfirmed p)
  obtain rk sk where k: "f (dcf_deposit p) (ev_correlation e) sc = (rk, sk)" by fastforce
  then have sk: "sk = snd (f (dcf_deposit p) (ev_correlation e) sc)" by simp
  have "snd (credit_handle_with f e s) = sc \<or> snd (credit_handle_with f e s) = sk"
  proof (cases rc)
    case (Inr b)
    then show ?thesis using DepositConfirmed assms k
      by (cases rk rule: sum.exhaust) (auto simp: credit_handle_with_def split: error.split)
  qed (use DepositConfirmed assms in \<open>simp add: credit_handle_with_def\<close>)
  with sk show ?thesis by blast
qed (simp_all add: credit_handle_with_def)

lemma credit_handle_step:
  assumes inv: "chain_inv s"
  shows "deposit_step s (snd (credit_handle v5 e s))"
proof -
  obtain rc sc where a: "atomically (claim ''deposit_credit'' e) s = (rc, sc)" by fastforce
  have c: "deposit_step s sc" using atomically_deposit_step(1) [OF claim_steps inv, of "''deposit_credit''" e] a by simp
  have k: "deposit_step sc (snd (credit v5 i corr sc))" for i corr
    by (rule credit_step [OF deposit_step_inv [OF c]])
  from credit_handle_with_state [OF a, of "credit v5", folded credit_handle_def]
  consider "snd (credit_handle v5 e s) = s" | "snd (credit_handle v5 e s) = sc"
    | i corr where "snd (credit_handle v5 e s) = snd (credit v5 i corr sc)" by blast
  then show ?thesis
    by cases (use inv c k ds.R_trans [OF c k] in \<open>simp_all add: ds.R_refl\<close>)
qed

end
