(* ===== verification/Reorg.thy ===== *)
theory Reorg
  imports Deposit_Run
begin

text \<open>
  Chain reorganisations and the watcher: \<open>crates/deposits/src/reorg.rs\<close> (detection by walking
  back, recovery in one transaction) and the tick of \<open>crates/deposits/src/watcher.rs\<close>. The node is
  a parameter: \<open>header_at\<close> answers with a header, with nothing, or with an error. Within one
  walk every height is asked once, so a function of the height stands for any node.
\<close>

type_synonym header_at = "nat \<Rightarrow> block_ref option res"

section \<open>Detection\<close>

record reorg_report =
  rr_ancestor :: nat
  rr_orphaned_blocks :: nat
  rr_orphaned_transfers :: nat
  rr_deposits_reorged :: nat
  rr_credited_reversed :: nat
  rr_depth :: nat

datatype reorg_outcome = NoReorg | Uninitialised | Handled reorg_report

definition too_deep :: "string \<Rightarrow> nat \<Rightarrow> nat \<Rightarrow> error" where
  "too_deep chain scan_depth floor = Internal (''chain '' @ chain @ '': reorg deeper than reorg_scan_depth ('' @
     show_nat scan_depth @ ''); manual reconciliation required from height '' @ show_nat floor)"

text \<open>The loop of \<open>detect\<close>; the last argument before the state is \<open>height\<close>.\<close>

fun detect_walk ::
  "header_at \<Rightarrow> string \<Rightarrow> nat \<Rightarrow> nat \<Rightarrow> nat \<Rightarrow> nat \<Rightarrow> 'x chain_db_scheme \<Rightarrow> (nat \<times> nat) option res" where
  "detect_walk header_at chain depth tip flr 0 s = Inl (too_deep chain depth flr)"
| "detect_walk header_at chain depth tip flr (Suc h) s =
     (if Suc h \<le> flr then Inl (too_deep chain depth flr)
      else case get_canonical_block_at chain h s of
        None \<Rightarrow> Inr (Some (h, tip - h))
      | Some stored \<Rightarrow>
          (case header_at h of
             Inl e \<Rightarrow> Inl e
           | Inr None \<Rightarrow> detect_walk header_at chain depth tip flr h s
           | Inr (Some on_chain) \<Rightarrow>
               if br_hash on_chain = cb_hash stored then Inr (Some (h, tip - h))
               else detect_walk header_at chain depth tip flr h s))"

definition detect :: "header_at \<Rightarrow> string \<Rightarrow> nat \<Rightarrow> 'x chain_db_scheme \<Rightarrow> (nat \<times> nat) option res" where
  "detect header_at chain scan_depth s = (case get_cursor chain s of
     None \<Rightarrow> Inr None
   | Some cursor \<Rightarrow>
       (case header_at (cc_height cursor) of
          Inl e \<Rightarrow> Inl e
        | Inr None \<Rightarrow> Inr None
        | Inr (Some chain_tip) \<Rightarrow>
            if br_hash chain_tip = cc_hash cursor then Inr None
            else detect_walk header_at chain scan_depth (cc_height cursor)
                   (cc_height cursor - scan_depth) (cc_height cursor) s))"

definition find_common_ancestor :: "(nat \<times> hash32) list \<Rightarrow> (nat \<times> hash32) list \<Rightarrow> nat option" where
  "find_common_ancestor stored chain = (let chain_at = map_of (rev chain) in
     map_option fst (find (\<lambda>(height, hash). chain_at height = Some hash) stored))"

section \<open>Recovery\<close>

definition zero_hash :: hash32 where
  "zero_hash = ''0x'' @ replicate 64 CHR ''0''"

definition rewind_cursor :: "string \<Rightarrow> nat \<Rightarrow> ('x chain_db_scheme, unit) db_tx" where
  "rewind_cursor chain height =
     tx_bind (tx_read (get_canonical_block_at chain height)) (\<lambda>ancestor.
       set_cursor chain height (case ancestor of Some b \<Rightarrow> cb_hash b | None \<Rightarrow> zero_hash) height)"

definition reorg_deposit ::
  "(string \<Rightarrow> uuid) \<Rightarrow> string \<Rightarrow> string \<Rightarrow> deposit \<Rightarrow> reorg_report \<Rightarrow> ('x chain_db_scheme, reorg_report) db_tx" where
  "reorg_deposit v5 chain corr d report =
     (if d_status d = DReorged then tx_return report
      else tx_bind
        (if is_credited (d_status d)
         then tx_bind (reverse_deposit_credit (d_id d) (d_user d) (d_asset d) (d_amount d) (Some corr)) (\<lambda>posted.
                tx_return (Some (post_result_id posted), report\<lparr>rr_credited_reversed := rr_credited_reversed report + 1\<rparr>))
         else tx_return (None, report)) (\<lambda>(reversal, report).
        tx_bind (mark_reorged (d_id d) reversal
                   (if reversal \<noteq> None then ''block orphaned by reorg after the deposit was credited''
                    else ''block orphaned by reorg before crediting'')) (\<lambda>marked.
        tx_then (emit v5 (DepositReorged \<lparr>dro_chain = chain, dro_deposit = d_id d, dro_user = d_user d,
                   dro_tx_hash = [], dro_orphaned_number = 0, dro_orphaned_hash = [],
                   dro_reversal = reversal\<rparr>) corr (chain @ '':'' @ d_id d @ '':reorged''))
        (tx_return (if marked then report\<lparr>rr_deposits_reorged := rr_deposits_reorged report + 1\<rparr> else report)))))"

definition handle_in_tx ::
  "(string \<Rightarrow> uuid) \<Rightarrow> string \<Rightarrow> nat \<Rightarrow> nat \<Rightarrow> string \<Rightarrow> ('x chain_db_scheme, reorg_report) db_tx" where
  "handle_in_tx v5 chain ancestor depth corr =
     (let report = \<lparr>rr_ancestor = ancestor, rr_orphaned_blocks = 0, rr_orphaned_transfers = 0,
                    rr_deposits_reorged = 0, rr_credited_reversed = 0, rr_depth = depth\<rparr>
      in tx_bind (orphan_blocks_above chain ancestor) (\<lambda>orphaned.
         let report = report\<lparr>rr_orphaned_blocks := length orphaned\<rparr>
         in if orphaned = [] then tx_then (rewind_cursor chain ancestor) (tx_return report)
            else tx_bind (mark_transfers_orphaned chain orphaned) (\<lambda>transfer_ids.
                 tx_bind (tx_read (deposits_for_transfers transfer_ids)) (\<lambda>ds.
                 tx_bind (tx_fold (reorg_deposit v5 chain corr) ds
                            (report\<lparr>rr_orphaned_transfers := length transfer_ids\<rparr>)) (\<lambda>report.
                 tx_then (rewind_cursor chain ancestor) (tx_return report))))))"

definition reorg_handle ::
  "(string \<Rightarrow> uuid) \<Rightarrow> string \<Rightarrow> nat \<Rightarrow> nat \<Rightarrow> string \<Rightarrow> 'x chain_db_scheme \<Rightarrow> reorg_report res \<times> 'x chain_db_scheme" where
  "reorg_handle v5 chain ancestor depth corr = atomically (handle_in_tx v5 chain ancestor depth corr)"

definition reconcile ::
  "(string \<Rightarrow> uuid) \<Rightarrow> header_at \<Rightarrow> string \<Rightarrow> nat \<Rightarrow> string \<Rightarrow> 'x chain_db_scheme \<Rightarrow>
   reorg_outcome res \<times> 'x chain_db_scheme" where
  "reconcile v5 header_at chain scan_depth corr s =
     (case detect header_at chain scan_depth s of
        Inl e \<Rightarrow> (Inl e, s)
      | Inr None \<Rightarrow> (Inr (if get_cursor chain s = None then Uninitialised else NoReorg), s)
      | Inr (Some (ancestor, depth)) \<Rightarrow>
          (case reorg_handle v5 chain ancestor depth corr s of
             (Inl e, s') \<Rightarrow> (Inl e, s') | (Inr report, s') \<Rightarrow> (Inr (Handled report), s')))"

section \<open>The watcher\<close>

record watcher =
  wa_chain :: string
  wa_batch_size :: nat
  wa_reorg_scan_depth :: nat
  wa_start_block :: "nat option"
  wa_required_confirmations :: nat

datatype tick = Idle nat nat | Scanned nat nat nat persist_stats | Reorged reorg_report | Initialised nat

definition next_range :: "nat \<Rightarrow> nat \<Rightarrow> nat \<Rightarrow> (nat \<times> nat) option" where
  "next_range cursor head batch_size =
     (if head \<le> cursor then None
      else let from = cursor + 1 in Some (from, min head (from + max batch_size 1 - 1)))"

text \<open>
  \<open>head_again\<close> is the second answer to \<open>head\<close>, asked when the node has no block at the starting
  height.
\<close>

definition initialise_cursor ::
  "header_at \<Rightarrow> block_ref res \<Rightarrow> watcher \<Rightarrow> nat \<Rightarrow> 'x chain_db_scheme \<Rightarrow> nat res \<times> 'x chain_db_scheme" where
  "initialise_cursor header_at head_again w head s =
     (let at = (case wa_start_block w of Some b \<Rightarrow> b - 1 | None \<Rightarrow> head - wa_required_confirmations w);
          hash = (case header_at at of Inl e \<Rightarrow> Inl e | Inr (Some h) \<Rightarrow> Inr (br_hash h)
                  | Inr None \<Rightarrow> (case head_again of Inl e \<Rightarrow> Inl e | Inr h \<Rightarrow> Inr (br_hash h)))
      in case hash of
           Inl e \<Rightarrow> (Inl e, s)
         | Inr hash \<Rightarrow> atomically
             (tx_then (insert_canonical_block (wa_chain w) hash at zero_hash)
             (tx_then (set_cursor (wa_chain w) at hash head) (tx_return at))) s)"

text \<open>
  The forward scan of a tick. \<open>scan\<close> is the adapter's scan of a height range for the tracked
  addresses and assets.
\<close>

definition scan_forward ::
  "(string \<Rightarrow> uuid) \<Rightarrow> (nat \<Rightarrow> nat \<Rightarrow> string set \<Rightarrow> tracked_asset list \<Rightarrow> scan_result res) \<Rightarrow>
   watcher \<Rightarrow> nat \<Rightarrow> string \<Rightarrow> chain_context \<Rightarrow> 'x chain_db_scheme \<Rightarrow> tick res \<times> 'x chain_db_scheme" where
  "scan_forward v5 scan w head corr ctx s =
     (let cursor = (case get_cursor (wa_chain w) s of Some c \<Rightarrow> cc_height c | None \<Rightarrow> 0)
      in if head \<le> cursor then (Inr (Idle head cursor), s)
         else let from = cursor + 1;
                  to = min head (from + wa_batch_size w - 1)
           in case scan from to (ctx_tracked_addresses ctx) (cx_tracked_assets ctx) of
                Inl e \<Rightarrow> (Inl e, s)
              | Inr result \<Rightarrow>
                  (case persist_scan v5 ctx result head corr s of
                     (Inl e, s1) \<Rightarrow> (Inl e, s1)
                   | (Inr stats, s1) \<Rightarrow>
                       (Inr (Scanned from to head stats),
                        if wa_reorg_scan_depth w * 4 < to
                        then final (prune_blocks_below (wa_chain w) (to - wa_reorg_scan_depth w * 4) s1)
                        else s1)))"

text \<open>One tick; the result carries the refreshed lookup tables.\<close>

definition watcher_tick ::
  "(string \<Rightarrow> uuid) \<Rightarrow> block_ref res \<Rightarrow> header_at \<Rightarrow> block_ref res \<Rightarrow>
   (nat \<Rightarrow> nat \<Rightarrow> string set \<Rightarrow> tracked_asset list \<Rightarrow> scan_result res) \<Rightarrow>
   watcher \<Rightarrow> timestamp \<Rightarrow> string \<Rightarrow> chain_context \<Rightarrow> 'x chain_db_scheme \<Rightarrow>
   tick res \<times> chain_context \<times> 'x chain_db_scheme" where
  "watcher_tick v5 head header_at head_again scan w now corr ctx0 s =
     (let ctx = refresh_if_stale now ctx0 s
      in case head of
           Inl e \<Rightarrow> (Inl e, ctx, s)
         | Inr tip \<Rightarrow>
           (case reconcile v5 header_at (wa_chain w) (wa_reorg_scan_depth w) corr s of
              (Inl e, s1) \<Rightarrow> (Inl e, ctx, s1)
            | (Inr (Handled report), s1) \<Rightarrow> (Inr (Reorged report), ctx, s1)
            | (Inr Uninitialised, s1) \<Rightarrow>
                (case initialise_cursor header_at head_again w (br_height tip) s1 of
                   (Inl e, s2) \<Rightarrow> (Inl e, ctx, s2) | (Inr at, s2) \<Rightarrow> (Inr (Initialised at), ctx, s2))
            | (Inr NoReorg, s1) \<Rightarrow>
                (case scan_forward v5 scan w (br_height tip) corr ctx s1 of (r, s2) \<Rightarrow> (r, ctx, s2))))"

section \<open>What the walk finds\<close>

definition agrees :: "header_at \<Rightarrow> string \<Rightarrow> 'x chain_db_scheme \<Rightarrow> nat \<Rightarrow> bool" where
  "agrees header_at chain s h \<longleftrightarrow> (case get_canonical_block_at chain h s of
     None \<Rightarrow> True
   | Some b \<Rightarrow> (case header_at h of Inr (Some r) \<Rightarrow> br_hash r = cb_hash b | _ \<Rightarrow> False))"

lemma detect_walk_Some:
  "detect_walk header_at chain depth tip flr h s = Inr r \<Longrightarrow>
   \<exists>a. r = Some (a, tip - a) \<and> flr \<le> a \<and> a < h \<and> agrees header_at chain s a \<and>
       (\<forall>k. a < k \<longrightarrow> k < h \<longrightarrow> \<not> agrees header_at chain s k)"
proof (induction h)
  case (Suc h)
  show ?case
  proof (cases "agrees header_at chain s h")
    case True
    with Suc.prems have "r = Some (h, tip - h) \<and> flr \<le> h"
      by (auto simp: agrees_def split: if_splits option.splits sum.splits)
    with True show ?thesis by auto
  next
    case False
    with Suc.prems have "detect_walk header_at chain depth tip flr h s = Inr r"
      by (auto simp: agrees_def split: if_splits option.splits sum.splits)
    with Suc.IH False show ?thesis by (metis less_Suc_eq)
  qed
qed simp

lemma detect_walk_error:
  assumes "\<And>k. k < h \<Longrightarrow> flr \<le> k \<Longrightarrow> \<exists>x. header_at k = Inr x"
  shows "detect_walk header_at chain depth tip flr h s = Inl e \<Longrightarrow>
    e = too_deep chain depth flr \<and> (\<forall>k. flr \<le> k \<longrightarrow> k < h \<longrightarrow> \<not> agrees header_at chain s k)"
  using assms
proof (induction h)
  case (Suc h)
  show ?case
  proof (cases "Suc h \<le> flr")
    case True
    with Suc.prems show ?thesis by auto
  next
    case False
    with Suc.prems(2) [of h] obtain x where x: "header_at h = Inr x" by auto
    have na: "\<not> agrees header_at chain s h" and rest: "detect_walk header_at chain depth tip flr h s = Inl e"
      using Suc.prems(1) False x by (auto simp: agrees_def split: if_splits option.splits sum.splits)
    show ?thesis using Suc.IH [OF rest] Suc.prems(2) na by (auto simp: less_Suc_eq)
  qed
qed auto

section \<open>What the recovery does\<close>

text \<open>Rows with an id in \<open>ids\<close> become \<open>reorged\<close> and keep everything else, the others stay.\<close>

definition row_reorged :: "deposit \<Rightarrow> deposit \<Rightarrow> bool" where
  "row_reorged e e' \<longleftrightarrow> d_status e' = DReorged \<and>
     e' = e\<lparr>d_status := DReorged, d_reversal_tx := d_reversal_tx e', d_failure_reason := d_failure_reason e'\<rparr>"

definition rows_reorged :: "uuid set \<Rightarrow> deposit list \<Rightarrow> deposit list \<Rightarrow> bool" where
  "rows_reorged ids = list_all2 (\<lambda>e e'. if d_id e \<in> ids then row_reorged e e' else e' = e)"

lemma row_reorged_trans: "row_reorged a b \<Longrightarrow> row_reorged b c \<Longrightarrow> row_reorged a c"
  by (cases a; cases b; cases c) (simp add: row_reorged_def)

lemma row_reorged_id: "row_reorged a b \<Longrightarrow> d_id b = d_id a"
  by (cases a; cases b) (simp add: row_reorged_def)

lemma rows_reorged_empty: "rows_reorged {} ds ds"
  by (simp add: rows_reorged_def list.rel_refl)

lemma rows_reorged_trans:
  assumes "rows_reorged A xs ys" "rows_reorged B ys zs"
  shows "rows_reorged (A \<union> B) xs zs"
proof -
  have row: "if d_id a \<in> A \<union> B then row_reorged a c else c = a"
    if "if d_id a \<in> A then row_reorged a b else b = a" "if d_id b \<in> B then row_reorged b c else c = b" for a b c
    using that row_reorged_id [of a b] row_reorged_trans [of a b c] by (auto split: if_splits)
  note nth = assms [unfolded rows_reorged_def list_all2_conv_all_nth]
  show ?thesis unfolding rows_reorged_def list_all2_conv_all_nth
  proof (intro conjI allI impI)
    fix i assume "i < length xs"
    with nth show "if d_id (xs ! i) \<in> A \<union> B then row_reorged (xs ! i) (zs ! i) else zs ! i = xs ! i"
      by (intro row [of "xs ! i" "ys ! i" "zs ! i"]) simp_all
  qed (use nth in simp)
qed

lemma rows_reorged_upd:
  assumes "\<And>e. e \<in> set ds \<Longrightarrow> d_id e = i \<Longrightarrow> row_reorged e (f e)"
  shows "rows_reorged {i} ds (upd_where (\<lambda>e. d_id e = i) f ds)"
  using assms by (simp add: rows_reorged_def upd_where_def list_all2_map2 list.rel_refl_strong)

text \<open>The tables the recovery of one deposit leaves alone.\<close>

definition chain_tables :: "'x chain_db_scheme \<Rightarrow> chain_block list \<times> blockchain_transaction list \<times> chain_cursor list" where
  "chain_tables s = (blocks s, transfers s, cursors s)"

lemma emit_tables:
  "emit v5 p corr key s = Inr (u, s') \<Longrightarrow> chain_tables s' = chain_tables s \<and> deposits s' = deposits s"
  using emit_Inr [of v5 p corr key s u s'] by (simp add: chain_tables_def chain_same_def)

lemma posts_tables:
  fixes s s' :: "'x chain_db_scheme"
  assumes "posts key legs r s s'"
  shows "chain_tables s' = chain_tables s \<and> deposits s' = deposits s"
proof -
  have "ledger_db.more s' = ledger_db.more s" using assms by (simp add: posts_def ledger_extends_def ledger_frame_def)
  then show ?thesis using ledger_more_chain [of s' s] by (simp add: chain_tables_def chain_same_def)
qed

lemma mark_reorged_Inr:
  assumes "mark_reorged (d_id d) rv why s = Inr (ok, s')" "unique_key d_id (deposits s)" "d \<in> set (deposits s)"
    "d_status d \<noteq> DReorged"
  shows "ok" "s' = s\<lparr>deposits := upd_where (\<lambda>e. d_id e = d_id d)
    (\<lambda>e. e\<lparr>d_status := DReorged, d_reversal_tx := rv, d_failure_reason := Some why\<rparr>) (deposits s)\<rparr>"
  using assms(1) upd_where_keyed [OF assms(2,3), of "\<lambda>d. d_status d \<noteq> DReorged"]
    rows_affected_keyed [OF assms(2,3), of "\<lambda>d. d_status d \<noteq> DReorged"] assms(4)
  by (simp_all add: mark_reorged_def Let_def)

lemma reorg_transition: "deposit_ok s d \<Longrightarrow> deposit_can_transition_to\<^sup>*\<^sup>* (d_status d) DReorged"
  by (rule r_into_rtranclp) (cases "d_status d"; simp add: deposit_ok_def)

text \<open>A credited deposit is reversed on the ledger, then marked.\<close>

lemma reverse_mark:
  assumes inv: "chain_inv s" and d: "d \<in> set (deposits s)" "d_status d = DCredited"
    and c: "reverse_deposit_credit (d_id d) (d_user d) (d_asset d) (d_amount d) corr s = Inr (r, s1)"
    and m: "mark_reorged (d_id d) rv why s1 = Inr (ok, s2)"
  shows "ok" "deposit_step s s2" "chain_tables s2 = chain_tables s" "rows_reorged {d_id d} (deposits s) (deposits s2)"
proof -
  let ?f = "\<lambda>e. e\<lparr>d_status := DReorged, d_reversal_tx := rv, d_failure_reason := Some why\<rparr>"
  let ?x = "d_asset d" and ?u = "d_user d" and ?m = "d_amount d"
  note linv = chain_inv_ledger [OF inv]
  note p = reverse_deposit_credit_posts [OF linv c, folded reversal_key_def]
  have dok: "deposit_ok s d" using inv d by (simp add: chain_inv_def)
  have t: "chain_tables s1 = chain_tables s" "deposits s1 = deposits s" using posts_tables [OF p] by simp_all
  have uniq: "unique_key d_id (deposits s1)" "d \<in> set (deposits s1)" using inv d t by (simp_all add: chain_inv_def)
  note mk = mark_reorged_Inr [OF m uniq]
  from dok d(2) have pos: "0 < ?m" and k: "\<not> posted_key s (reversal_key (d_id d))"
    "posted_key s (credit_key (d_id d))" "d_ledger_tx d \<noteq> None" by (auto simp: deposit_ok_def)
  have nn: "0 \<le> balance_of s (UserAvailable, Some ?u, ?x)"
    using balance_of_nonneg [OF linv, of "(UserAvailable, Some ?u, ?x)"] by (simp add: allows_negative_def)
  have s2: "s2 = s1\<lparr>deposits := upd_where (\<lambda>e. d_id e = d_id d) ?f (deposits s1)\<rparr>" and ok
    using mk d(2) by simp_all
  then show ok by simp
  have ok1: "deposit_ok s1 (?f d)" using pos k by (simp add: deposit_ok_def posts_posted_key [OF p])
  have ev: "evolves d (?f d)" using reorg_transition [OF dok] by (simp add: evolves_def)
  show "deposit_step s s2"
    by (rule post_then_mark_step [OF inv d(1) p _ k(1) _ _ ok1 s2 ev])
      (use d(2) pos nn in \<open>auto simp: reversal_legs_def Let_def leg_delta_def natural_delta_def credited_amount_def\<close>)
  show "chain_tables s2 = chain_tables s" using t by (simp add: s2 chain_tables_def)
  show "rows_reorged {d_id d} (deposits s) (deposits s2)"
    by (simp add: s2 t) (rule rows_reorged_upd, simp add: row_reorged_def)
qed

text \<open>An uncredited one is only marked.\<close>

lemma uncredited_mark:
  assumes inv: "chain_inv s" and d: "d \<in> set (deposits s)" "d_status d \<noteq> DCredited" "d_status d \<noteq> DReorged"
    and m: "mark_reorged (d_id d) rv why s = Inr (ok, s')"
  shows "ok" "deposit_step s s'" "chain_tables s' = chain_tables s" "rows_reorged {d_id d} (deposits s) (deposits s')"
proof -
  let ?f = "\<lambda>e. e\<lparr>d_status := DReorged, d_reversal_tx := rv, d_failure_reason := Some why\<rparr>"
  have uniq: "unique_key d_id (deposits s)" using inv by (simp add: chain_inv_def)
  note mk = mark_reorged_Inr [OF m uniq d(1,3)]
  then show ok by simp
  have only: "e = d" if "e \<in> set (deposits s)" "d_id e = d_id d" for e by (rule unique_keyD [OF uniq that(1) d(1) that(2)])
  have dok: "deposit_ok s d" using inv d by (simp add: chain_inv_def)
  then have dok': "deposit_ok s (?f d)" using d(2,3) by (auto simp: deposit_ok_def)
  have ev: "evolves d (?f d)" using reorg_transition [OF dok] by (simp add: evolves_def)
  have inv': "chain_inv s'" unfolding mk(2)
    by (rule chain_inv_deposits [OF inv]) (use only dok' in auto)
  have l: "ledger_same s s'" by (simp add: mk(2) ledger_same_def)
  have tot: "credited_total s' u x = credited_total s u x" for u x
    using sum_list_upd_key [OF uniq d(1), of "credited_amount u x" ?f] d(2)
    by (simp add: mk(2) credited_total_def credited_amount_def [of _ _ d] credited_amount_def [of _ _ "?f d"])
  have "deposits_evolve (deposits s) (deposits s')" unfolding mk(2)
    using ev only by (auto intro!: deposits_evolve_upd)
  then show "deposit_step s s'" by (rule step_of_same [OF l inv' tot]) (simp add: mk(2))
  show "chain_tables s' = chain_tables s" by (simp add: mk(2) chain_tables_def)
  show "rows_reorged {d_id d} (deposits s) (deposits s')"
    by (simp add: mk(2)) (rule rows_reorged_upd, simp add: row_reorged_def)
qed

definition reorg_count :: "deposit \<Rightarrow> nat" where
  "reorg_count d = (if d_status d = DReorged then 0 else 1)"

definition reversal_count :: "deposit \<Rightarrow> nat" where
  "reversal_count d = (if d_status d = DCredited then 1 else 0)"

lemma reorg_deposit_effect:
  assumes inv: "chain_inv s" and d: "d \<in> set (deposits s)"
    and run: "reorg_deposit v5 chain corr d rep s = Inr (rep', s')"
  shows "deposit_step s s'" "chain_tables s' = chain_tables s" "rows_reorged {d_id d} (deposits s) (deposits s')"
    "rep' = rep\<lparr>rr_deposits_reorged := rr_deposits_reorged rep + reorg_count d,
                rr_credited_reversed := rr_credited_reversed rep + reversal_count d\<rparr>"
proof -
  have uniq: "unique_key d_id (deposits s)" using inv by (simp add: chain_inv_def)
  have "deposit_step s s' \<and> chain_tables s' = chain_tables s \<and> rows_reorged {d_id d} (deposits s) (deposits s') \<and>
    rep' = rep\<lparr>rr_deposits_reorged := rr_deposits_reorged rep + reorg_count d,
               rr_credited_reversed := rr_credited_reversed rep + reversal_count d\<rparr>"
  proof (cases "d_status d = DReorged")
    case True
    have "rows_reorged {d_id d} (deposits s) (deposits s)"
      unfolding rows_reorged_def
    proof (rule list.rel_refl_strong)
      fix e assume "e \<in> set (deposits s)"
      then show "if d_id e \<in> {d_id d} then row_reorged e e else e = e"
        using True unique_keyD [OF uniq _ d, of e] by (cases e) (auto simp: row_reorged_def)
    qed
    with True run inv show ?thesis
      by (simp add: reorg_deposit_def tx_simps ds.R_refl reorg_count_def reversal_count_def)
  next
    case False
    from run obtain ok rv why s2 p key where
      m: "deposit_step s s2 \<and> ok \<and> chain_tables s2 = chain_tables s \<and> rows_reorged {d_id d} (deposits s) (deposits s2)"
      and e: "emit v5 p corr key s2 = Inr ((), s')"
      and rep': "rep' = rep\<lparr>rr_deposits_reorged := rr_deposits_reorged rep + reorg_count d,
               rr_credited_reversed := rr_credited_reversed rep + reversal_count d\<rparr>"
    proof (cases "d_status d = DCredited")
      case True
      from run that show thesis
        using False True reverse_mark [OF inv d True]
        by (fastforce simp: reorg_deposit_def tx_simps is_credited_def reorg_count_def reversal_count_def)
    next
      case nc: False
      from run that show thesis
        using False nc uncredited_mark [OF inv d nc False]
        by (fastforce simp: reorg_deposit_def tx_simps is_credited_def reorg_count_def reversal_count_def)
    qed
    have "deposit_step s2 s'" using emit_step [OF e] m deposit_step_inv by blast
    then show ?thesis using m emit_tables [OF e] rep' ds.R_trans [of s s2 s'] by simp
  qed
  then show "deposit_step s s'" "chain_tables s' = chain_tables s" "rows_reorged {d_id d} (deposits s) (deposits s')"
    "rep' = rep\<lparr>rr_deposits_reorged := rr_deposits_reorged rep + reorg_count d,
                rr_credited_reversed := rr_credited_reversed rep + reversal_count d\<rparr>" by simp_all
qed

lemma rows_reorged_other:
  assumes "rows_reorged ids ds ds'" "e \<in> set ds" "d_id e \<notin> ids"
  shows "e \<in> set ds'"
  using assms by (auto simp: rows_reorged_def list_all2_conv_all_nth in_set_conv_nth)

lemma reorg_fold_effect:
  assumes "chain_inv s" "set es \<subseteq> set (deposits s)" "distinct (map d_id es)"
    "tx_fold (reorg_deposit v5 chain corr) es rep s = Inr (rep', s')"
  shows "deposit_step s s' \<and> chain_tables s' = chain_tables s \<and> rows_reorged (d_id ` set es) (deposits s) (deposits s') \<and>
    rep' = rep\<lparr>rr_deposits_reorged := rr_deposits_reorged rep + sum_list (map reorg_count es),
               rr_credited_reversed := rr_credited_reversed rep + sum_list (map reversal_count es)\<rparr>"
  using assms
proof (induction es arbitrary: s rep)
  case Nil
  then show ?case by (simp add: tx_simps ds.R_refl rows_reorged_empty)
next
  case (Cons d es)
  from Cons.prems(4) obtain rep1 s1 where d: "reorg_deposit v5 chain corr d rep s = Inr (rep1, s1)"
    and rest: "tx_fold (reorg_deposit v5 chain corr) es rep1 s1 = Inr (rep', s')" by (auto simp: tx_simps)
  have "d \<in> set (deposits s)" using Cons.prems(2) by simp
  note e = reorg_deposit_effect [OF Cons.prems(1) this d]
  have "set es \<subseteq> set (deposits s1)"
  proof
    fix x assume "x \<in> set es"
    then have "x \<in> set (deposits s)" and "d_id x \<in> d_id ` set es" using Cons.prems(2) by auto
    moreover from this have "d_id x \<notin> {d_id d}" using Cons.prems(3) by auto
    ultimately show "x \<in> set (deposits s1)" using rows_reorged_other [OF e(3)] by blast
  qed
  then have r: "deposit_step s1 s' \<and> chain_tables s' = chain_tables s1 \<and>
      rows_reorged (d_id ` set es) (deposits s1) (deposits s') \<and>
      rep' = rep1\<lparr>rr_deposits_reorged := rr_deposits_reorged rep1 + sum_list (map reorg_count es),
                  rr_credited_reversed := rr_credited_reversed rep1 + sum_list (map reversal_count es)\<rparr>"
    using Cons.IH [OF deposit_step_inv [OF e(1)] _ _ rest] Cons.prems(3) by simp
  then have rr: "rows_reorged (d_id ` set es) (deposits s1) (deposits s')" and st: "deposit_step s1 s'" by simp_all
  show ?case
    using r e(2,4) ds.R_trans [OF e(1) st] rows_reorged_trans [OF e(3) rr] by simp
qed

lemma rewind_cursor_steps: "ds.steps (rewind_cursor chain h)"
  unfolding rewind_cursor_def by (intro ds.step_rules ds.stepsI; erule (1) set_cursor_step)

lemma get_cursor_set: "set_cursor chain h hash head s = Inr (u, s') \<Longrightarrow>
  get_cursor chain s' = Some \<lparr>cc_chain = chain, cc_height = h, cc_hash = hash, cc_head = head\<rparr>"
proof -
  let ?row = "\<lparr>cc_chain = chain, cc_height = h, cc_hash = hash, cc_head = head\<rparr>"
  have "\<exists>c\<in>set cs. cc_chain c = chain \<Longrightarrow>
      find (\<lambda>c. cc_chain c = chain) (upd_where (\<lambda>c. cc_chain c = chain) (\<lambda>_. ?row) cs) = Some ?row" for cs
    by (induction cs) auto
  moreover have "\<not> (\<exists>c\<in>set cs. cc_chain c = chain) \<Longrightarrow> find (\<lambda>c. cc_chain c = chain) (cs @ [?row]) = Some ?row" for cs
    by (induction cs) auto
  moreover assume "set_cursor chain h hash head s = Inr (u, s')"
  ultimately show ?thesis by (auto simp: set_cursor_def tx_simps get_cursor_def Let_def split: if_splits)
qed

lemma rewind_cursor_Inr:
  assumes "rewind_cursor chain h s = Inr (u, s')"
  shows "get_cursor chain s' = Some \<lparr>cc_chain = chain, cc_height = h, cc_hash =
      (case get_canonical_block_at chain h s of Some b \<Rightarrow> cb_hash b | None \<Rightarrow> zero_hash), cc_head = h\<rparr>"
    "blocks s' = blocks s" "transfers s' = transfers s" "deposits s' = deposits s" "ledger_same s s'"
    "processed s' = processed s"
proof -
  let ?hash = "case get_canonical_block_at chain h s of Some b \<Rightarrow> cb_hash b | None \<Rightarrow> zero_hash"
  have c: "set_cursor chain h ?hash h s = Inr (u, s')"
    using assms by (simp add: rewind_cursor_def tx_simps)
  show "get_cursor chain s' = Some \<lparr>cc_chain = chain, cc_height = h, cc_hash = ?hash, cc_head = h\<rparr>"
    by (rule get_cursor_set [OF c])
  show "blocks s' = blocks s" "transfers s' = transfers s" "deposits s' = deposits s" "ledger_same s s'"
    "processed s' = processed s"
    using c by (auto simp: set_cursor_def tx_simps Let_def ledger_same_def split: if_splits)
qed

text \<open>The deposits whose transfer sits in one of the given blocks and was not orphaned before.\<close>

definition hit_by :: "string \<Rightarrow> hash32 set \<Rightarrow> 'x chain_db_scheme \<Rightarrow> deposit \<Rightarrow> bool" where
  "hit_by chain hs s d \<longleftrightarrow> (\<exists>t\<in>set (transfers s). bt_id t = d_btx d \<and> bt_chain t = chain \<and>
     bt_block_hash t \<in> hs \<and> bt_status t \<noteq> TOrphaned)"

definition abandoned :: "string \<Rightarrow> nat \<Rightarrow> 'x chain_db_scheme \<Rightarrow> hash32 set" where
  "abandoned chain a s = cb_hash ` {b \<in> set (blocks s). cb_chain b = chain \<and> a < cb_height b \<and> is_canonical b}"

lemma orphan_blocks_above_Inr:
  assumes "orphan_blocks_above chain a s = Inr (hs, s')"
  shows "set hs = abandoned chain a s" "transfers s' = transfers s" "deposits s' = deposits s" "cursors s' = cursors s"
    "\<And>b. b \<in> set (blocks s') \<Longrightarrow> cb_chain b = chain \<Longrightarrow> is_canonical b \<Longrightarrow> cb_height b \<le> a"
    "\<And>h. h \<le> a \<Longrightarrow> get_canonical_block_at chain h s' = get_canonical_block_at chain h s"
proof -
  let ?P = "\<lambda>b. cb_chain b = chain \<and> a < cb_height b \<and> is_canonical b"
  have e: "hs = map cb_hash (filter ?P (blocks s))"
    "s' = s\<lparr>blocks := upd_where ?P (\<lambda>b. b\<lparr>cb_status := Orphaned\<rparr>) (blocks s)\<rparr>"
    using assms by (simp_all add: orphan_blocks_above_def Let_def)
  show "set hs = abandoned chain a s" by (auto simp: e(1) abandoned_def)
  show "transfers s' = transfers s" "deposits s' = deposits s" "cursors s' = cursors s" by (simp_all add: e(2))
  show "cb_height b \<le> a" if "b \<in> set (blocks s')" "cb_chain b = chain" "is_canonical b" for b
  proof -
    from that(1) obtain b0 where b0: "b = (if ?P b0 then b0\<lparr>cb_status := Orphaned\<rparr> else b0)"
      using upd_where_mem [of b ?P] by (auto simp: e(2) simp del: if_split)
    with that(3) have "\<not> ?P b0 \<and> b = b0" by (auto simp: is_canonical_def split: if_splits)
    with that(2,3) show ?thesis by (simp add: not_less)
  qed
  show "get_canonical_block_at chain h s' = get_canonical_block_at chain h s" if "h \<le> a" for h
  proof -
    have "find (canonical_at chain h) (upd_where ?P (\<lambda>b. b\<lparr>cb_status := Orphaned\<rparr>) bs) = find (canonical_at chain h) bs" for bs
      using that by (induction bs) (auto simp: canonical_at_def is_canonical_def)
    then show ?thesis by (simp add: get_canonical_block_at_def e(2))
  qed
qed

lemma mark_transfers_orphaned_Inr:
  assumes "mark_transfers_orphaned chain hs s = Inr (ids, s')"
  shows "set ids = bt_id ` {t \<in> set (transfers s). bt_chain t = chain \<and> bt_block_hash t \<in> set hs \<and> bt_status t \<noteq> TOrphaned}"
    "blocks s' = blocks s" "deposits s' = deposits s" "cursors s' = cursors s"
  using assms by (auto simp: mark_transfers_orphaned_def tx_simps Let_def split: if_splits)

lemma reversal_count_sum: "sum_list (map reversal_count ds) = length (filter (\<lambda>d. d_status d = DCredited) ds)"
  by (induction ds) (simp_all add: reversal_count_def)

lemma handle_in_tx_effect:
  assumes inv: "chain_inv s" and run: "handle_in_tx v5 chain a depth corr s = Inr (rep, s')"
  shows "deposit_step s s'"
    "\<forall>b\<in>set (blocks s'). cb_chain b = chain \<longrightarrow> is_canonical b \<longrightarrow> cb_height b \<le> a"
    "get_cursor chain s' = Some \<lparr>cc_chain = chain, cc_height = a, cc_hash =
      (case get_canonical_block_at chain a s of Some b \<Rightarrow> cb_hash b | None \<Rightarrow> zero_hash), cc_head = a\<rparr>"
    "rows_reorged (d_id ` {d \<in> set (deposits s). hit_by chain (abandoned chain a s) s d}) (deposits s) (deposits s')"
    "rr_ancestor rep = a \<and> rr_depth rep = depth \<and> rr_credited_reversed rep =
      length (filter (\<lambda>d. hit_by chain (abandoned chain a s) s d \<and> d_status d = DCredited) (deposits s))"
    "get_canonical_block_at chain h s' = (if h \<le> a then get_canonical_block_at chain h s else None)"
proof -
  from run obtain hs s1 where o1: "orphan_blocks_above chain a s = Inr (hs, s1)" by (auto simp: handle_in_tx_def tx_simps Let_def)
  note o = orphan_blocks_above_Inr [OF o1] and st1 = orphan_blocks_above_step [OF o1 inv]
  define rep0 where "rep0 = \<lparr>rr_ancestor = a, rr_orphaned_blocks = length hs, rr_orphaned_transfers = 0,
    rr_deposits_reorged = 0, rr_credited_reversed = 0, rr_depth = depth\<rparr>"
  let ?hit = "hit_by chain (abandoned chain a s) s"
  have main: "\<exists>s2. deposit_step s1 s2 \<and> blocks s2 = blocks s1 \<and> rewind_cursor chain a s2 = Inr ((), s') \<and>
    rows_reorged (d_id ` {d \<in> set (deposits s). ?hit d}) (deposits s) (deposits s2) \<and>
    rr_ancestor rep = a \<and> rr_depth rep = depth \<and>
    rr_credited_reversed rep = length (filter (\<lambda>d. ?hit d \<and> d_status d = DCredited) (deposits s))"
  proof (cases "hs = []")
    case True
    then have "\<not> ?hit d" for d using o(1) by (simp add: hit_by_def)
    moreover have "rewind_cursor chain a s1 = Inr ((), s')" "rep = rep0"
      using run o1 True by (simp_all add: handle_in_tx_def tx_simps Let_def rep0_def)
    ultimately show ?thesis
      using ds.R_refl [OF deposit_step_inv [OF st1]] o(3) by (intro exI [of _ s1]) (simp add: rows_reorged_empty rep0_def)
  next
    case False
    then obtain ids s2 s3 where m: "mark_transfers_orphaned chain hs s1 = Inr (ids, s2)"
      and f: "tx_fold (reorg_deposit v5 chain corr) (deposits_for_transfers ids s2)
        (rep0\<lparr>rr_orphaned_transfers := length ids\<rparr>) s2 = Inr (rep, s3)" and w: "rewind_cursor chain a s3 = Inr ((), s')"
      using run o1 by (auto simp: handle_in_tx_def tx_simps Let_def rep0_def)
    note mt = mark_transfers_orphaned_Inr [OF m] and st2 = mark_transfers_orphaned_step [OF m deposit_step_inv [OF st1]]
    have d2: "deposits s2 = deposits s" using o(3) mt(3) by simp
    have "(d_btx d \<in> set ids) = ?hit d" for d
      unfolding mt(1) o(1,2) hit_by_def image_iff by (simp add: o(1)) metis
    then have es: "deposits_for_transfers ids s2 = filter ?hit (deposits s)"
      by (simp add: deposits_for_transfers_def d2)
    have uniq: "unique_key d_id (deposits s)" using inv by (simp add: chain_inv_def)
    have fe: "deposit_step s2 s3 \<and> chain_tables s3 = chain_tables s2 \<and>
      rows_reorged (d_id ` set (filter ?hit (deposits s))) (deposits s2) (deposits s3) \<and>
      rep = rep0\<lparr>rr_orphaned_transfers := length ids\<rparr>
        \<lparr>rr_deposits_reorged := 0 + sum_list (map reorg_count (filter ?hit (deposits s))),
         rr_credited_reversed := 0 + sum_list (map reversal_count (filter ?hit (deposits s)))\<rparr>"
      using reorg_fold_effect [OF deposit_step_inv [OF st2] _ _ f] uniq d2
      by (simp add: es distinct_map_filter unique_key_def rep0_def)
    then show ?thesis
      using ds.R_trans [OF st2, of s3] w mt(2) d2
      by (intro exI [of _ s3]) (auto simp: chain_tables_def rep0_def reversal_count_sum)
  qed
  then obtain s2 where s2: "deposit_step s1 s2" "blocks s2 = blocks s1" and w: "rewind_cursor chain a s2 = Inr ((), s')"
    and rows: "rows_reorged (d_id ` {d \<in> set (deposits s). ?hit d}) (deposits s) (deposits s2)"
    and rep: "rr_ancestor rep = a \<and> rr_depth rep = depth \<and>
      rr_credited_reversed rep = length (filter (\<lambda>d. ?hit d \<and> d_status d = DCredited) (deposits s))" by blast
  note rw = rewind_cursor_Inr [OF w]
  have "deposit_step s2 s'" by (rule ds.stepsD [OF rewind_cursor_steps w deposit_step_inv [OF s2(1)]])
  then show "deposit_step s s'" using ds.R_trans [OF ds.R_trans [OF st1 s2(1)]] by blast
  have cb: "get_canonical_block_at chain h s' = get_canonical_block_at chain h s1" for h
    using rw(2) s2(2) by (simp add: get_canonical_block_at_def)
  show top: "\<forall>b\<in>set (blocks s'). cb_chain b = chain \<longrightarrow> is_canonical b \<longrightarrow> cb_height b \<le> a"
    using o(5) s2(2) rw(2) by simp
  show "rows_reorged (d_id ` {d \<in> set (deposits s). ?hit d}) (deposits s) (deposits s')" using rows rw(4) by simp
  have "get_canonical_block_at chain a s2 = get_canonical_block_at chain a s"
    using o(6) [of a] s2(2) by (simp add: get_canonical_block_at_def)
  with rw(1) show "get_cursor chain s' = Some \<lparr>cc_chain = chain, cc_height = a, cc_hash =
      (case get_canonical_block_at chain a s of Some b \<Rightarrow> cb_hash b | None \<Rightarrow> zero_hash), cc_head = a\<rparr>" by simp
  show "rr_ancestor rep = a \<and> rr_depth rep = depth \<and>
      rr_credited_reversed rep = length (filter (\<lambda>d. ?hit d \<and> d_status d = DCredited) (deposits s))" by (rule rep)
  show "get_canonical_block_at chain h s' = (if h \<le> a then get_canonical_block_at chain h s else None)"
  proof (cases "h \<le> a")
    case False
    then have "\<forall>b\<in>set (blocks s'). \<not> canonical_at chain h b" using top by (auto simp: canonical_at_def)
    with False show ?thesis by (simp add: get_canonical_block_at_def find_None_set)
  qed (simp add: o(6) cb)
qed

section \<open>The pipeline as a whole\<close>

lemma handle_in_tx_steps: "ds.steps (handle_in_tx v5 chain a depth corr)"
  by (rule ds.stepsI) (rule handle_in_tx_effect(1))

lemma reconcile_step:
  assumes "chain_inv s"
  shows "deposit_step s (snd (reconcile v5 header_at chain depth corr s))"
proof -
  have h: "deposit_step s (snd (reorg_handle v5 chain a d corr s))" for a d
    unfolding reorg_handle_def by (rule atomically_deposit_step(1) [OF handle_in_tx_steps assms])
  have "snd (reconcile v5 header_at chain depth corr s) = s \<or>
    (\<exists>a d. snd (reconcile v5 header_at chain depth corr s) = snd (reorg_handle v5 chain a d corr s))"
  proof (cases "detect header_at chain depth s")
    case (Inr r)
    show ?thesis
    proof (cases r)
      case (Some ad)
      obtain a d where ad: "ad = (a, d)" by fastforce
      obtain x t where "reorg_handle v5 chain a d corr s = (x, t)" by fastforce
      then have "snd (reconcile v5 header_at chain depth corr s) = snd (reorg_handle v5 chain a d corr s)"
        using Inr Some ad by (cases x) (simp_all add: reconcile_def)
      then show ?thesis by blast
    qed (simp add: reconcile_def Inr)
  qed (simp add: reconcile_def)
  then show ?thesis using h ds.R_refl [OF assms] by auto
qed

lemma persist_scan_step: "chain_inv s \<Longrightarrow> deposit_step s (snd (persist_scan v5 ctx scan head corr s))"
  by (simp add: persist_scan_def atomically_deposit_step(1) [OF persist_in_tx_steps] ds.R_refl)

lemma confirmation_step: "chain_inv s \<Longrightarrow> deposit_step s (snd (confirmation_run_once v5 policy locked chain head corr s))"
  by (simp add: confirmation_run_once_def atomically_deposit_step(1) [OF confirmation_tx_steps] ds.R_refl split: sum.split)

lemma initialise_cursor_step:
  assumes "chain_inv s"
  shows "deposit_step s (snd (initialise_cursor header_at head_again w head s))"
proof -
  have "ds.steps (tx_then (insert_canonical_block c hash at zero_hash) (tx_then (set_cursor c at hash head) (tx_return at)))"
    for c hash at
    by (intro ds.step_rules ds.stepsI; erule (1) insert_canonical_block_step set_cursor_step)
  from atomically_deposit_step(1) [OF this assms] show ?thesis
    using ds.R_refl [OF assms] by (simp add: initialise_cursor_def Let_def split: sum.split option.split)
qed

lemma prune_final_step: "chain_inv s \<Longrightarrow> deposit_step s (final (prune_blocks_below chain h s))"
  using prune_blocks_below_step [of chain h s] by (simp add: prune_blocks_below_def final_def Let_def)

lemma scan_forward_step:
  assumes inv: "chain_inv s"
  shows "deposit_step s (snd (scan_forward v5 scan w head corr ctx s))"
proof -
  let ?cur = "case get_cursor (wa_chain w) s of Some c \<Rightarrow> cc_height c | None \<Rightarrow> 0"
  show ?thesis
  proof (cases "?cur < head")
    case True
    define lo hi where ft: "lo = ?cur + 1" "hi = min head (lo + wa_batch_size w - 1)"
    show ?thesis
    proof (cases "scan lo hi (ctx_tracked_addresses ctx) (cx_tracked_assets ctx)")
      case (Inr result)
      obtain r s1 where p: "persist_scan v5 ctx result head corr s = (r, s1)" by fastforce
      then have st: "deposit_step s s1" using persist_scan_step [OF inv, of v5 ctx result head corr] by simp
      note pr = ds.R_trans [OF st prune_final_step [OF deposit_step_inv [OF st]]]
      show ?thesis using True Inr p st pr
        by (cases r) (simp_all add: scan_forward_def Let_def ft not_le)
    qed (use True in \<open>simp add: scan_forward_def Let_def ft ds.R_refl [OF inv] not_le\<close>)
  qed (simp add: scan_forward_def Let_def ds.R_refl [OF inv] not_less)
qed

lemma watcher_tick_step:
  assumes inv: "chain_inv s"
  shows "deposit_step s (snd (snd (watcher_tick v5 head header_at head_again scan w now corr ctx s)))"
proof (cases head)
  case (Inr hd0)
  obtain rc s1 where rc: "reconcile v5 header_at (wa_chain w) (wa_reorg_scan_depth w) corr s = (rc, s1)" by fastforce
  then have st1: "deposit_step s s1"
    using reconcile_step [OF inv, of v5 header_at "wa_chain w" "wa_reorg_scan_depth w" corr] by simp
  note inv1 = deposit_step_inv [OF st1]
  show ?thesis
  proof (cases rc)
    case (Inr out)
    show ?thesis
    proof (cases out)
      case Uninitialised
      obtain x s2 where i: "initialise_cursor header_at head_again w (br_height hd0) s1 = (x, s2)" by fastforce
      then have "deposit_step s1 s2" using initialise_cursor_step [OF inv1, of header_at head_again w "br_height hd0"] by simp
      then have "deposit_step s s2" by (rule ds.R_trans [OF st1])
      then show ?thesis using i rc Inr Uninitialised \<open>head = Inr hd0\<close>
        by (cases x) (simp_all add: watcher_tick_def Let_def)
    next
      case NoReorg
      show ?thesis using rc Inr NoReorg \<open>head = Inr hd0\<close> ds.R_trans [OF st1 scan_forward_step [OF inv1]]
        by (simp add: watcher_tick_def Let_def split_beta)
    qed (use rc Inr \<open>head = Inr hd0\<close> st1 in \<open>simp add: watcher_tick_def Let_def\<close>)
  qed (use rc \<open>head = Inr hd0\<close> st1 in \<open>simp add: watcher_tick_def Let_def\<close>)
qed (simp add: watcher_tick_def ds.R_refl [OF inv] Let_def)

end
