(* ===== verification/Deposit_Spec.thy ===== *)
theory Deposit_Spec
  imports Reorg
begin

text \<open>
  The properties of the deposit side: the books against the deposits over every history of the
  pipeline, the credit, the confirmation rule, the reorg walk and recovery, re-scanning, and the
  places where the code falls short of its documentation.
\<close>

section \<open>Histories of the pipeline\<close>

text \<open>
  One call of the running system: a watcher tick against some node, a confirmation pass, or the
  delivery of an event to the credit handler. Calls interleave at their transactions.
\<close>

datatype pipeline_call =
    CallTick "block_ref res" header_at "block_ref res" "nat \<Rightarrow> nat \<Rightarrow> string set \<Rightarrow> tracked_asset list \<Rightarrow> scan_result res"
      watcher timestamp string chain_context
  | CallConfirm finality_policy "uuid set" string "block_ref res" string
  | CallDeliver event_envelope

fun run_pipeline_call :: "(string \<Rightarrow> uuid) \<Rightarrow> pipeline_call \<Rightarrow> 'x chain_db_scheme \<Rightarrow> 'x chain_db_scheme" where
  "run_pipeline_call v5 (CallTick head header_at head_again scan w now corr ctx) s =
     snd (snd (watcher_tick v5 head header_at head_again scan w now corr ctx s))"
| "run_pipeline_call v5 (CallConfirm policy locked chain head corr) s =
     snd (confirmation_run_once v5 policy locked chain head corr s)"
| "run_pipeline_call v5 (CallDeliver e) s = snd (credit_handle v5 e s)"

fun pipeline_run :: "(string \<Rightarrow> uuid) \<Rightarrow> pipeline_call list \<Rightarrow> 'x chain_db_scheme \<Rightarrow> 'x chain_db_scheme" where
  "pipeline_run v5 [] s = s"
| "pipeline_run v5 (c # cs) s = pipeline_run v5 cs (run_pipeline_call v5 c s)"

definition fresh_chain :: "'x chain_db_scheme \<Rightarrow> bool" where
  "fresh_chain s \<longleftrightarrow> fresh_ledger s \<and> blocks s = [] \<and> transfers s = [] \<and> deposits s = []"

lemma fresh_chain_inv:
  assumes "fresh_chain s"
  shows "chain_inv s" "deposit_gap s u x = 0"
proof -
  have f: "fresh_ledger s" "ltransactions s = []" "accounts s = []" using assms by (simp_all add: fresh_chain_def fresh_ledger_def)
  then show "chain_inv s" using assms fresh_ledger_inv [OF f(1)]
    by (simp add: fresh_chain_def chain_inv_def blocks_ok_def posted_key_def)
  show "deposit_gap s u x = 0" using assms f
    by (simp add: deposit_gap_def user_position_def credited_total_def balance_of_def fresh_chain_def)
qed

lemma pipeline_call_step: "chain_inv s \<Longrightarrow> deposit_step s (run_pipeline_call v5 c s)"
  by (cases c) (simp_all add: watcher_tick_step confirmation_step credit_handle_step)

lemma pipeline_run_step: "chain_inv s \<Longrightarrow> deposit_step s (pipeline_run v5 cs s)"
proof (induction cs arbitrary: s)
  case (Cons c cs)
  have st: "deposit_step s (run_pipeline_call v5 c s)" by (rule pipeline_call_step [OF Cons.prems])
  then show ?case using Cons.IH [OF deposit_step_inv [OF st]] ds.R_trans by simp
qed (simp add: ds.R_refl)

lemma pipeline_run_append: "pipeline_run v5 (cs @ cs') s = pipeline_run v5 cs' (pipeline_run v5 cs s)"
  by (induction cs arbitrary: s) simp_all

text \<open>
  A concrete deployment for the witnesses: one user with one address, one native asset, and a
  node whose chain is \<open>h\<close>, \<open>h0\<close>, \<open>h00\<close>, and so on, with one transfer of 7 to the user in block 2.
\<close>

definition demo_chain :: chain_db where
  "demo_chain = \<lparr>id_src = (\<lambda>n. replicate n CHR ''i''), id_next = 1, clock = 5,
     users = [\<lparr>u_id = ''u'', u_external_id = ''alice'', u_created_at = 0\<rparr>],
     assets = [\<lparr>as_id = ''x'', as_symbol = ''ETH'', as_chain = ''e'', as_contract = None, as_decimals = 18\<rparr>],
     deposit_addresses = [\<lparr>da_id = ''a1'', da_user = ''u'', da_chain = ''e'', da_address = ''0xaa'',
        da_path = None, da_created_at = 0\<rparr>],
     accounts = [], ltransactions = [], lentries = [], outbox = [], processed = [], dead_letters = [],
     blocks = [], cursors = [], transfers = [], deposits = []\<rparr>"

definition demo_header :: "nat \<Rightarrow> block_ref" where
  "demo_header h = \<lparr>br_height = h, br_hash = CHR ''h'' # replicate h CHR ''0'',
     br_parent = CHR ''h'' # replicate (h - 1) CHR ''0'', br_tx_count = 0\<rparr>"

definition demo_transfer :: observed_transfer where
  "demo_transfer = \<lparr>ot_chain = ''e'', ot_tx_hash = ''t'', ot_log_index = 0, ot_block_number = 2,
     ot_block_hash = ''h00'', ot_from = ''0xbb'', ot_to = ''0xaa'', ot_amount = 7, ot_contract = None\<rparr>"

definition demo_scan :: "nat \<Rightarrow> nat \<Rightarrow> string set \<Rightarrow> tracked_asset list \<Rightarrow> scan_result res" where
  "demo_scan lo hi addresses ta = Inr \<lparr>sc_headers = map demo_header [lo..<hi + 1],
     sc_transfers = (if lo \<le> 2 \<and> 2 \<le> hi then [demo_transfer] else [])\<rparr>"

definition demo_watcher :: watcher where
  "demo_watcher = \<lparr>wa_chain = ''e'', wa_batch_size = 10, wa_reorg_scan_depth = 3, wa_start_block = Some 1,
     wa_required_confirmations = 2\<rparr>"

definition demo_context :: chain_context where
  "demo_context = \<lparr>cx_chain = ''e'', cx_ttl = 0, cx_tracked_assets = [], cx_snapshot = snapshot_default\<rparr>"

definition demo_tick :: pipeline_call where
  "demo_tick = CallTick (Inr (demo_header 4)) (\<lambda>h. Inr (Some (demo_header h))) (Inr (demo_header 4)) demo_scan
     demo_watcher 1 ''c'' demo_context"

definition demo_confirm :: pipeline_call where
  "demo_confirm = CallConfirm (Confirmations 2) {} ''e'' (Inr (demo_header 4)) ''c''"

definition demo_confirmed_event :: event_envelope where
  "demo_confirmed_event = envelope_new ''ev'' 5 (DepositConfirmed \<lparr>dcf_chain = ''e'', dcf_deposit = replicate 6 CHR ''i'',
     dcf_user = ''u'', dcf_tx_hash = ''t'', dcf_block_number = 2, dcf_confirmations = 3, dcf_asset = ''ETH'',
     dcf_amount = 7\<rparr>) ''c''"

definition demo_deliver :: pipeline_call where
  "demo_deliver = CallDeliver demo_confirmed_event"

lemma demo_chain_fresh: "fresh_chain demo_chain"
  by (simp add: fresh_chain_def fresh_ledger_def demo_chain_def inj_replicate)

lemma demo_pipeline_eval:
  "credited_total (pipeline_run (\<lambda>k. k) [demo_tick, demo_tick, demo_confirm, demo_deliver] demo_chain) ''u'' ''x'' = 7"
  by code_simp

text \<open>
  C17: Over every history of ticks, confirmation passes and event deliveries on a fresh database,
  whatever the nodes answer, the books agree with the deposits: what the ledger owes each user
  in each asset (available and reserved, less deficit) is the sum of that user's credited
  deposits. A deposit never loses its row, its owner, its asset or its amount, and its status
  moves only along the transitions of the lifecycle.
\<close>

theorem pipeline_books_match_deposits:
  assumes "fresh_chain s"
  shows "user_position (pipeline_run v5 (cs @ cs') s) u x = credited_total (pipeline_run v5 (cs @ cs') s) u x
    \<and> chain_inv (pipeline_run v5 (cs @ cs') s)
    \<and> (\<forall>d\<in>set (deposits (pipeline_run v5 cs s)). \<exists>d'\<in>set (deposits (pipeline_run v5 (cs @ cs') s)). evolves d d')"
proof -
  note f = fresh_chain_inv [OF assms]
  have 1: "deposit_step s (pipeline_run v5 cs s)" by (rule pipeline_run_step [OF f(1)])
  have 2: "deposit_step (pipeline_run v5 cs s) (pipeline_run v5 (cs @ cs') s)"
    unfolding pipeline_run_append by (rule pipeline_run_step [OF deposit_step_inv [OF 1]])
  from ds.R_trans [OF 1 2] have "deposit_gap (pipeline_run v5 (cs @ cs') s) u x = 0"
    using f(2) by (simp add: deposit_step_def)
  then have "user_position (pipeline_run v5 (cs @ cs') s) u x = credited_total (pipeline_run v5 (cs @ cs') s) u x"
    by (simp add: deposit_gap_def)
  moreover have "chain_inv (pipeline_run v5 (cs @ cs') s)"
    "deposits_evolve (deposits (pipeline_run v5 cs s)) (deposits (pipeline_run v5 (cs @ cs') s))"
    using 2 by (simp_all add: deposit_step_def)
  ultimately show ?thesis by (simp add: deposits_evolve_def)
qed

theorem pipeline_books_match_deposits_witness:
  "user_position (pipeline_run (\<lambda>k. k) [demo_tick, demo_tick, demo_confirm, demo_deliver] demo_chain) ''u'' ''x'' = 7"
  using pipeline_books_match_deposits [OF demo_chain_fresh, of "\<lambda>k. k" "[demo_tick, demo_tick, demo_confirm, demo_deliver]" "[]" "''u''" "''x''"]
    demo_pipeline_eval by (simp del: pipeline_run.simps)

text \<open>
  C18: Crediting a deposit is exact. It reports \<open>Credited\<close> only for a deposit that was confirmed,
  and then custody and the owner's available balance grow by the deposit's amount, nothing else
  moves, and the row is marked credited with its ledger transaction. In every other outcome,
  errors included, nothing at all changed.
\<close>

theorem credit_exact:
  assumes "chain_inv s" "credit v5 i corr s = (r, s')"
  shows "(r = Inr CreditedNow \<longrightarrow> (\<exists>d\<in>set (deposits s). d_id d = i \<and> d_status d = DConfirmed \<and>
      balance_of s' = (balance_of s)
        ((ExchangeCustody, None, d_asset d) := balance_of s (ExchangeCustody, None, d_asset d) + d_amount d,
         (UserAvailable, Some (d_user d), d_asset d) :=
           balance_of s (UserAvailable, Some (d_user d), d_asset d) + d_amount d) \<and>
      (\<exists>ltx. deposits s' = upd_where (\<lambda>e. d_id e = i)
        (\<lambda>e. e\<lparr>d_status := DCredited, d_ledger_tx := Some ltx, d_credited_at := Some (clock s)\<rparr>) (deposits s))))
    \<and> (r \<noteq> Inr CreditedNow \<longrightarrow> s' = s)"
proof (cases "r = Inr CreditedNow")
  case True
  then have run: "credit v5 i corr s = (Inr CreditedNow, s')" using assms(2) by simp
  show ?thesis by (rule credit_effect [OF assms(1) run]) (use True in blast)
next
  case False
  then show ?thesis using credit_cases(1) [OF assms] by blast
qed

definition demo_confirmed :: chain_db where
  "demo_confirmed = pipeline_run (\<lambda>k. k) [demo_tick, demo_tick, demo_confirm] demo_chain"

lemma demo_confirmed_inv: "chain_inv demo_confirmed"
  unfolding demo_confirmed_def
  by (rule deposit_step_inv [OF pipeline_run_step [OF fresh_chain_inv(1) [OF demo_chain_fresh]]])

lemma demo_credit_eval:
  "fst (credit (\<lambda>k. k) (replicate 6 CHR ''i'') ''c'' demo_confirmed) = Inr CreditedNow"
  "balance_of demo_confirmed (UserAvailable, Some ''u'', ''x'') = 0"
  "list_all (\<lambda>d. d_user d = ''u'' \<and> d_asset d = ''x'' \<and> d_amount d = 7) (deposits demo_confirmed)"
  by code_simp+

theorem credit_exact_witness:
  "balance_of (snd (credit (\<lambda>k. k) (replicate 6 CHR ''i'') ''c'' demo_confirmed)) (UserAvailable, Some ''u'', ''x'') = 7"
proof -
  let ?c = "credit (\<lambda>k. k) (replicate 6 CHR ''i'') ''c'' demo_confirmed"
  have run: "?c = (Inr CreditedNow, snd ?c)" using demo_credit_eval(1) by (metis prod.collapse)
  from credit_exact [OF demo_confirmed_inv run] obtain d where d: "d \<in> set (deposits demo_confirmed)"
    "balance_of (snd ?c) = (balance_of demo_confirmed)
        ((ExchangeCustody, None, d_asset d) := balance_of demo_confirmed (ExchangeCustody, None, d_asset d) + d_amount d,
         (UserAvailable, Some (d_user d), d_asset d) :=
           balance_of demo_confirmed (UserAvailable, Some (d_user d), d_asset d) + d_amount d)" by blast
  have "d_user d = ''u''" "d_asset d = ''x''" "d_amount d = 7"
    using demo_credit_eval(3) d(1) by (auto simp: list_all_iff)
  then show ?thesis unfolding d(2) using demo_credit_eval(2) by simp
qed

section \<open>Confirmation\<close>

definition final_in :: "finality_policy \<Rightarrow> string \<Rightarrow> nat \<Rightarrow> 'x chain_db_scheme \<Rightarrow> deposit \<Rightarrow> bool" where
  "final_in policy chain head s d \<longleftrightarrow> (\<exists>t\<in>set (transfers s). bt_id t = d_btx d \<and> bt_chain t = chain \<and>
     (\<exists>b. get_canonical_block_at chain (bt_block_number t) s = Some b \<and> cb_hash b = bt_block_hash t) \<and>
     is_confirmed policy head (bt_block_number t))"

text \<open>A pass keeps the chain tables, and whoever it confirms is final in them.\<close>

definition confirms_final :: "finality_policy \<Rightarrow> string \<Rightarrow> nat \<Rightarrow> 'x chain_db_scheme \<Rightarrow> 'x chain_db_scheme \<Rightarrow> bool" where
  "confirms_final policy chain head s s' \<longleftrightarrow> chain_tables s' = chain_tables s \<and>
     (\<forall>d'\<in>set (deposits s'). \<exists>d\<in>set (deposits s). d_id d = d_id d' \<and> d_btx d = d_btx d' \<and>
        (d_status d' = DConfirmed \<longrightarrow> d_status d = DConfirmed \<or> final_in policy chain head s d'))"

lemma confirms_final_refl: "confirms_final policy chain head s s"
  by (auto simp: confirms_final_def)

lemma final_in_cong: "chain_tables s' = chain_tables s \<Longrightarrow> d_btx d' = d_btx d \<Longrightarrow>
  final_in policy chain head s' d' = final_in policy chain head s d"
  by (simp add: final_in_def chain_tables_def get_canonical_block_at_def)

lemma confirms_final_trans:
  assumes "confirms_final policy chain head s t" "confirms_final policy chain head t u"
  shows "confirms_final policy chain head s u"
  unfolding confirms_final_def
proof (intro conjI ballI)
  have tt: "chain_tables t = chain_tables s" using assms(1) by (simp add: confirms_final_def)
  then show "chain_tables u = chain_tables s" using assms(2) by (simp add: confirms_final_def)
  fix d' assume "d' \<in> set (deposits u)"
  then obtain e where e: "e \<in> set (deposits t)" "d_id e = d_id d'" "d_btx e = d_btx d'"
    "d_status d' = DConfirmed \<longrightarrow> d_status e = DConfirmed \<or> final_in policy chain head t d'"
    using assms(2) by (auto simp: confirms_final_def)
  then obtain d where d: "d \<in> set (deposits s)" "d_id d = d_id e" "d_btx d = d_btx e"
    "d_status e = DConfirmed \<longrightarrow> d_status d = DConfirmed \<or> final_in policy chain head s e"
    using assms(1) by (auto simp: confirms_final_def)
  show "\<exists>d\<in>set (deposits s). d_id d = d_id d' \<and> d_btx d = d_btx d' \<and>
      (d_status d' = DConfirmed \<longrightarrow> d_status d = DConfirmed \<or> final_in policy chain head s d')"
    using d e final_in_cong [OF tt refl, of policy chain head d'] final_in_cong [OF refl e(3), of policy chain head s]
    by (intro bexI [of _ d]) auto
qed

lemma update_confirms_final:
  assumes "deposit_update_confirmations i n a b t = Inr (ok, t')" "confirms_final policy chain head s t"
    "b = DConfirmed \<Longrightarrow> (\<And>e. e \<in> set (deposits t) \<Longrightarrow> d_id e = i \<Longrightarrow> final_in policy chain head t e)"
  shows "confirms_final policy chain head s t'"
proof (rule confirms_final_trans [OF assms(2)])
  let ?P = "\<lambda>d. d_id d = i \<and> d_status d = a" and ?f = "\<lambda>d. d\<lparr>d_confirmations := n, d_status := b\<rparr>"
  have t': "t' = t\<lparr>deposits := upd_where ?P ?f (deposits t)\<rparr>"
    using assms(1) by (simp add: deposit_update_confirmations_def Let_def)
  show "confirms_final policy chain head t t'" unfolding confirms_final_def
  proof (intro conjI ballI)
    show "chain_tables t' = chain_tables t" by (simp add: t' chain_tables_def)
    fix d' assume "d' \<in> set (deposits t')"
    then obtain e where e: "e \<in> set (deposits t)" "d' = (if ?P e then ?f e else e)"
      using upd_where_mem [of d' ?P ?f "deposits t"] by (auto simp: t' simp del: if_split)
    have "final_in policy chain head t d' = final_in policy chain head t e"
      by (rule final_in_cong) (use e(2) in \<open>auto split: if_splits\<close>)
    then show "\<exists>d\<in>set (deposits t). d_id d = d_id d' \<and> d_btx d = d_btx d' \<and>
        (d_status d' = DConfirmed \<longrightarrow> d_status d = DConfirmed \<or> final_in policy chain head t d')"
      using e assms(3) [of e] by (intro bexI [of _ e]) (auto split: if_splits)
  qed
qed

lemma emit_confirms_final:
  "emit v5 p corr key t = Inr (u, t') \<Longrightarrow> confirms_final policy chain head s t \<Longrightarrow> confirms_final policy chain head s t'"
  using emit_tables [of v5 p corr key t u t'] final_in_cong [of t' t] by (simp add: confirms_final_def)

lemma confirm_one_Inr:
  assumes "confirm_one v5 policy chain head corr p pass t = Inr (pass', t')"
  shows "t' = t \<or> (\<exists>n a b ok t1. deposit_update_confirmations (pd_deposit p) n a b t = Inr (ok, t1) \<and>
    (t' = t1 \<or> (\<exists>pl key. emit v5 pl corr key t1 = Inr ((), t'))) \<and>
    (b = DConfirmed \<longrightarrow> is_confirmed policy head (pd_block_number p) \<and>
       (\<exists>k. get_canonical_block_at chain (pd_block_number p) t = Some k \<and> cb_hash k = pd_block_hash p)))"
  using assms unfolding confirm_one_def
  by (simp add: tx_simps Let_def split: option.splits if_splits) blast+

lemma confirm_one_final:
  assumes run: "confirm_one v5 policy chain head corr p pass t = Inr (pass', t')" and cf: "confirms_final policy chain head s t"
    and p: "d0 \<in> set (deposits s)" "pending_of s d0 = Some p" "pd_chain p = chain" and uniq: "unique_key d_id (deposits s)"
  shows "confirms_final policy chain head s t'"
proof -
  have tt: "chain_tables t = chain_tables s" using cf by (simp add: confirms_final_def)
  have fin: "final_in policy chain head t e"
    if e: "e \<in> set (deposits t)" "d_id e = pd_deposit p" and b: "get_canonical_block_at chain (pd_block_number p) t = Some b"
      "cb_hash b = pd_block_hash p" and c: "is_confirmed policy head (pd_block_number p)" for e b
  proof -
    obtain d where d: "d \<in> set (deposits s)" "d_id d = d_id e" "d_btx d = d_btx e" using cf e(1) by (auto simp: confirms_final_def)
    then have "d = d0" using unique_keyD [OF uniq d(1) p(1)] e(2) pending_of_Some(1) [OF p(2)] by simp
    then obtain x where "x \<in> set (transfers s)" "bt_id x = d_btx e" "bt_block_number x = pd_block_number p"
      "bt_block_hash x = pd_block_hash p" "bt_chain x = chain"
      using pending_of_Some(4) [OF p(2)] d(3) p(3) by auto
    moreover have "transfers t = transfers s" using tt by (simp add: chain_tables_def)
    ultimately show ?thesis using b c by (auto simp: final_in_def)
  qed
  from confirm_one_Inr [OF run] show ?thesis
  proof (elim disjE exE conjE)
    fix n a b ok t1 assume u: "deposit_update_confirmations (pd_deposit p) n a b t = Inr (ok, t1)"
      and b: "b = DConfirmed \<longrightarrow> is_confirmed policy head (pd_block_number p) \<and>
       (\<exists>k. get_canonical_block_at chain (pd_block_number p) t = Some k \<and> cb_hash k = pd_block_hash p)"
    have c1: "confirms_final policy chain head s t1"
      by (rule update_confirms_final [OF u cf]) (use fin b in blast)
    show "confirms_final policy chain head s t'" if "t' = t1" using c1 that by simp
    show "confirms_final policy chain head s t'" if "emit v5 pl corr key t1 = Inr ((), t')" for pl key
      by (rule emit_confirms_final [OF that c1])
  qed (use cf in simp)
qed

text \<open>
  C19: Only final deposits are confirmed: whatever a confirmation pass confirms has its transfer
  in a block that is canonical in the stored lineage, at the height and with the hash of the
  transfer, and the finality policy holds at the head the pass was given. The pass changes
  neither the lineage nor the transfers, and no balance.
\<close>

theorem confirmation_only_final:
  assumes "chain_inv s" "confirmation_run_once v5 policy locked chain (Inr h) corr s = (Inr pass, s')"
    "d' \<in> set (deposits s')" "d_status d' = DConfirmed"
  shows "(\<exists>d\<in>set (deposits s). d_id d = d_id d' \<and> d_status d = DConfirmed) \<or> final_in policy chain (br_height h) s d'"
proof -
  let ?head = "br_height h"
  have "confirmation_tx v5 policy locked chain ?head corr s = Inr (pass, s')"
    using assms(2) atomically_deposit_step(2) [OF confirmation_tx_steps assms(1), of v5 policy locked chain ?head corr]
    by (auto simp: confirmation_run_once_def split: sum.splits)
  then obtain ps s1 where c: "claim_pending_deposits locked chain 200 s = Inr (ps, s1)"
    and f: "tx_fold (confirm_one v5 policy chain ?head corr) ps
      \<lparr>cp_examined = length ps, cp_confirming = 0, cp_confirmed = 0, cp_non_canonical = 0\<rparr> s1 = Inr (pass, s')"
    by (auto simp: confirmation_tx_def tx_simps)
  have uniq: "unique_key d_id (deposits s)" using assms(1) by (simp add: chain_inv_def)
  have "confirms_final policy chain ?head s s'"
  proof (rule tx_fold_inv [OF f])
    show "confirms_final policy chain ?head s s1" using claim_pending_Inr(1) [OF c] by (simp add: confirms_final_refl)
    show "confirms_final policy chain ?head s t'" if "p \<in> set ps" "confirm_one v5 policy chain ?head corr p b t = Inr (b', t')"
      "confirms_final policy chain ?head s t" for p b t b' t'
      using claim_pending_Inr(2) [OF c that(1)] confirm_one_final [OF that(2,3) _ _ _ uniq] by blast
  qed
  then show ?thesis using assms(3,4) by (fastforce simp: confirms_final_def)
qed

theorem confirmation_only_final_witness:
  "\<exists>d'\<in>set (deposits demo_confirmed). d_status d' = DConfirmed \<and>
     final_in (Confirmations 2) ''e'' 4 (pipeline_run (\<lambda>k. k) [demo_tick, demo_tick] demo_chain) d'"
proof -
  let ?s = "pipeline_run (\<lambda>k. k) [demo_tick, demo_tick] demo_chain"
  let ?r = "confirmation_run_once (\<lambda>k. k) (Confirmations 2) {} ''e'' (Inr (demo_header 4)) ''c'' ?s"
  have ev: "list_ex (\<lambda>d. d_status d = DConfirmed) (deposits (snd ?r))" "succeeds (fst ?r)"
    "\<not> list_ex (\<lambda>d. d_status d = DConfirmed) (deposits ?s)" "br_height (demo_header 4) = 4" by code_simp+
  obtain pass where run: "?r = (Inr pass, snd ?r)" using ev(2) by (metis prod.collapse succeeds_Inr)
  obtain d' where d': "d' \<in> set (deposits (snd ?r))" "d_status d' = DConfirmed" using ev(1) by (auto simp: list_ex_iff)
  have inv: "chain_inv ?s" by (rule deposit_step_inv [OF pipeline_run_step [OF fresh_chain_inv(1) [OF demo_chain_fresh]]])
  have "demo_confirmed = snd ?r"
    using pipeline_run_append [of "\<lambda>k. k" "[demo_tick, demo_tick]" "[demo_confirm]" demo_chain]
    by (simp add: demo_confirmed_def demo_confirm_def)
  then show ?thesis
    using confirmation_only_final [OF inv run d'] ev(3,4) d' by (auto simp: list_ex_iff)
qed

end
