(* ===== verification/Reorg_Spec.thy ===== *)
theory Reorg_Spec
  imports Deposit_Spec
begin

text \<open>
  Properties of reorg detection and recovery, and of the watcher that drives them.
\<close>

section \<open>Detection\<close>

text \<open>
  C20: Detection is exact. When the block at the cursor is no longer on the chain and the node
  answers, the walk ends with the highest height below the cursor, within the scan depth, at
  which the stored canonical block is still on the chain or no block is stored; and it gives up,
  with an error and no guess, exactly when there is no such height in the window.
\<close>

theorem detect_exact:
  assumes "get_cursor chain s = Some c" "header_at (cc_height c) = Inr (Some tip)" "br_hash tip \<noteq> cc_hash c"
    "\<And>k. k < cc_height c \<Longrightarrow> \<exists>x. header_at k = Inr x"
  shows "case detect header_at chain depth s of
      Inr r \<Rightarrow> \<exists>a. r = Some (a, cc_height c - a) \<and> cc_height c - depth \<le> a \<and> a < cc_height c \<and>
          agrees header_at chain s a \<and> (\<forall>k. a < k \<and> k < cc_height c \<longrightarrow> \<not> agrees header_at chain s k)
    | Inl e \<Rightarrow> e = too_deep chain depth (cc_height c - depth) \<and>
          (\<forall>k. cc_height c - depth \<le> k \<and> k < cc_height c \<longrightarrow> \<not> agrees header_at chain s k)"
proof -
  have d: "detect header_at chain depth s =
      detect_walk header_at chain depth (cc_height c) (cc_height c - depth) (cc_height c) s"
    using assms(1-3) by (simp add: detect_def)
  show ?thesis
  proof (cases "detect header_at chain depth s")
    case (Inl e)
    have "\<exists>x. header_at k = Inr x" if "k < cc_height c" "cc_height c - depth \<le> k" for k using that(1) by (rule assms(4))
    from detect_walk_error [OF this Inl [unfolded d]] Inl show ?thesis by simp
  next
    case (Inr r)
    from detect_walk_Some [OF Inr [unfolded d]] Inr show ?thesis unfolding d by auto
  qed
qed

text \<open>A chain that forked off after block 2: the demonstration node answers other hashes from there.\<close>

definition forked :: header_at where
  "forked h = Inr (Some (if h \<le> 2 then demo_header h else (demo_header h)\<lparr>br_hash := CHR ''g'' # replicate h CHR ''0''\<rparr>))"

definition demo_scanned :: chain_db where
  "demo_scanned = pipeline_run (\<lambda>k. k) [demo_tick, demo_tick] demo_chain"

lemma demo_scanned_inv: "chain_inv demo_scanned"
  unfolding demo_scanned_def
  by (rule deposit_step_inv [OF pipeline_run_step [OF fresh_chain_inv(1) [OF demo_chain_fresh]]])

lemma demo_fork_eval:
  "get_cursor ''e'' demo_scanned = Some \<lparr>cc_chain = ''e'', cc_height = 4, cc_hash = ''h0000'', cc_head = 4\<rparr>"
  "detect forked ''e'' 3 demo_scanned = Inr (Some (2, 2))"
  "forked 4 = Inr (Some ((demo_header 4)\<lparr>br_hash := ''g0000''\<rparr>))"
  by code_simp+

theorem detect_exact_witness:
  "agrees forked ''e'' demo_scanned 2 \<and> \<not> agrees forked ''e'' demo_scanned 3"
proof -
  let ?c = "\<lparr>cc_chain = ''e'', cc_height = 4, cc_hash = ''h0000'', cc_head = 4\<rparr>"
  have "case detect forked ''e'' 3 demo_scanned of
      Inr r \<Rightarrow> \<exists>a. r = Some (a, cc_height ?c - a) \<and> cc_height ?c - 3 \<le> a \<and> a < cc_height ?c \<and>
          agrees forked ''e'' demo_scanned a \<and> (\<forall>k. a < k \<and> k < cc_height ?c \<longrightarrow> \<not> agrees forked ''e'' demo_scanned k)
    | Inl e \<Rightarrow> e = too_deep ''e'' 3 (cc_height ?c - 3) \<and>
          (\<forall>k. cc_height ?c - 3 \<le> k \<and> k < cc_height ?c \<longrightarrow> \<not> agrees forked ''e'' demo_scanned k)"
  proof (rule detect_exact)
    show "forked (cc_height ?c) = Inr (Some ((demo_header 4)\<lparr>br_hash := ''g0000''\<rparr>))" by (simp add: demo_fork_eval(3))
    show "\<exists>x. forked k = Inr x" for k by (simp add: forked_def)
  qed (simp_all add: demo_fork_eval(1))
  then show ?thesis by (auto simp: demo_fork_eval)
qed

text \<open>The walk over a fully stored window, against any list that answers for the chain.\<close>

lemma walk_find:
  assumes "\<And>k. flr \<le> k \<Longrightarrow> k < h \<Longrightarrow> \<exists>b. get_canonical_block_at chain k s = Some b \<and> cb_hash b = stored k"
    "\<And>k. flr \<le> k \<Longrightarrow> k < h \<Longrightarrow> \<exists>r. header_at k = Inr (Some r) \<and> br_hash r = on_chain k"
    "\<And>k. flr \<le> k \<Longrightarrow> k < h \<Longrightarrow> chain_at k = Some (on_chain k)"
  shows "detect_walk header_at chain depth tip flr h s =
    (case find (\<lambda>(k, hash). chain_at k = Some hash) (map (\<lambda>k. (k, stored k)) (rev [flr..<h])) of
       Some (a, _) \<Rightarrow> Inr (Some (a, tip - a)) | None \<Rightarrow> Inl (too_deep chain depth flr))"
  using assms
proof (induction h)
  case (Suc h)
  show ?case
  proof (cases "flr \<le> h")
    case True
    from Suc.prems(1) [OF True] obtain b where b: "get_canonical_block_at chain h s = Some b" "cb_hash b = stored h" by auto
    from Suc.prems(2) [OF True] obtain r where r: "header_at h = Inr (Some r)" "br_hash r = on_chain h" by auto
    have c: "chain_at h = Some (on_chain h)" using Suc.prems(3) [OF True] by simp
    show ?thesis using True b r c Suc.IH Suc.prems by (auto simp: not_le)
  qed simp
qed simp

text \<open>
  The walk of \<open>detect\<close> computes the common ancestor: where every height of the window is
  stored and the node has a block for each, it returns what the specification
  \<open>find_common_ancestor\<close> returns on the two lineages, and reports a reorg that is too deep
  exactly when the lineages have no common block.
\<close>

theorem detect_walk_is_common_ancestor:
  assumes "\<And>k. flr \<le> k \<Longrightarrow> k < h \<Longrightarrow> \<exists>b. get_canonical_block_at chain k s = Some b \<and> cb_hash b = stored k"
    "\<And>k. flr \<le> k \<Longrightarrow> k < h \<Longrightarrow> \<exists>r. header_at k = Inr (Some r) \<and> br_hash r = on_chain k"
  shows "detect_walk header_at chain depth tip flr h s =
    (case find_common_ancestor (map (\<lambda>k. (k, stored k)) (rev [flr..<h])) (map (\<lambda>k. (k, on_chain k)) (rev [flr..<h])) of
       Some a \<Rightarrow> Inr (Some (a, tip - a)) | None \<Rightarrow> Inl (too_deep chain depth flr))"
proof -
  let ?at = "map_of (rev (map (\<lambda>k. (k, on_chain k)) (rev [flr..<h])))"
  have "?at k = Some (on_chain k)" if "flr \<le> k" "k < h" for k
    using that by (simp add: rev_map map_of_map_restrict restrict_map_def)
  from walk_find [OF assms this] show ?thesis
    by (auto simp: find_common_ancestor_def Let_def split: option.splits)
qed

theorem detect_walk_is_common_ancestor_witness:
  "detect_walk forked ''e'' 3 4 1 4 demo_scanned = Inr (Some (2, 2)) \<and>
   find_common_ancestor [(3, ''h000''), (2, ''h00''), (1, ''h0'')] [(3, ''g000''), (2, ''h00''), (1, ''h0'')] = Some 2"
proof -
  let ?st = "\<lambda>k. CHR ''h'' # replicate k CHR ''0''"
  let ?ch = "\<lambda>k. if k \<le> 2 then CHR ''h'' # replicate k CHR ''0'' else CHR ''g'' # replicate k CHR ''0''"
  have ev: "\<forall>k\<in>{1,2,3}. case get_canonical_block_at ''e'' k demo_scanned of None \<Rightarrow> False | Some b \<Rightarrow> cb_hash b = ?st k"
    by code_simp
  have st: "\<exists>b. get_canonical_block_at ''e'' k demo_scanned = Some b \<and> cb_hash b = ?st k" if "1 \<le> k" "k < 4" for k
  proof -
    from that have "k \<in> {1,2,3}" by auto
    with ev show ?thesis by (auto split: option.splits)
  qed
  have ch: "\<exists>r. forked k = Inr (Some r) \<and> br_hash r = ?ch k" if "1 \<le> k" "k < 4" for k
    by (simp add: forked_def demo_header_def)
  have "find_common_ancestor (map (\<lambda>k. (k, ?st k)) (rev [1..<4])) (map (\<lambda>k. (k, ?ch k)) (rev [1..<4])) = Some 2"
    "find_common_ancestor [(3, ''h000''), (2, ''h00''), (1, ''h0'')] [(3, ''g000''), (2, ''h00''), (1, ''h0'')] = Some 2"
    by code_simp+
  with detect_walk_is_common_ancestor [of 1 4 "''e''" demo_scanned ?st forked ?ch 3 4, OF st ch] show ?thesis by simp
qed

section \<open>Recovery\<close>

text \<open>
  C21: Recovery takes back exactly what the abandoned branch brought. When it returns, no block
  above the common ancestor is canonical and the cursor stands on the ancestor; every deposit
  whose transfer was in an abandoned block is reorged and every other row is untouched; the
  books still match the deposits, so each credited one among them was reversed, and the report
  counts those.
\<close>

theorem reorg_recovery_exact:
  assumes "chain_inv s" "reorg_handle v5 chain a depth corr s = (Inr rep, s')"
  shows "(\<forall>b\<in>set (blocks s'). cb_chain b = chain \<longrightarrow> is_canonical b \<longrightarrow> cb_height b \<le> a)
    \<and> (\<exists>c. get_cursor chain s' = Some c \<and> cc_height c = a)
    \<and> rows_reorged (d_id ` {d \<in> set (deposits s). hit_by chain (abandoned chain a s) s d}) (deposits s) (deposits s')
    \<and> chain_inv s' \<and> deposit_gap s' = deposit_gap s
    \<and> rr_credited_reversed rep =
        length (filter (\<lambda>d. hit_by chain (abandoned chain a s) s d \<and> d_status d = DCredited) (deposits s))"
proof -
  have run: "handle_in_tx v5 chain a depth corr s = Inr (rep, s')"
    using assms(2) atomically_deposit_step(2) [OF handle_in_tx_steps assms(1), of v5 chain a depth corr]
    by (auto simp: reorg_handle_def split: sum.splits)
  note e = handle_in_tx_effect [OF assms(1) run]
  show ?thesis using e(1-5) unfolding deposit_step_def by simp
qed

definition demo_credited_chain :: chain_db where
  "demo_credited_chain = pipeline_run (\<lambda>k. k) [demo_tick, demo_tick, demo_confirm, demo_deliver] demo_chain"

lemma demo_credited_chain_inv: "chain_inv demo_credited_chain"
  unfolding demo_credited_chain_def
  by (rule deposit_step_inv [OF pipeline_run_step [OF fresh_chain_inv(1) [OF demo_chain_fresh]]])

theorem reorg_recovery_exact_witness:
  "deposit_gap (snd (reorg_handle (\<lambda>k. k) ''e'' 1 3 ''c'' demo_credited_chain)) ''u'' ''x'' =
   deposit_gap demo_credited_chain ''u'' ''x'' \<and>
   credited_total (snd (reorg_handle (\<lambda>k. k) ''e'' 1 3 ''c'' demo_credited_chain)) ''u'' ''x'' = 0"
proof -
  let ?r = "reorg_handle (\<lambda>k. k) ''e'' 1 3 ''c'' demo_credited_chain"
  have ev: "succeeds (fst ?r)" "credited_total (snd ?r) ''u'' ''x'' = 0" by code_simp+
  obtain rep where "?r = (Inr rep, snd ?r)" using ev(1) by (metis prod.collapse succeeds_Inr)
  from reorg_recovery_exact [OF demo_credited_chain_inv this] ev(2) show ?thesis by simp
qed

section \<open>Where the code falls short\<close>

lemma atomically_claim:
  assumes "chain_inv s"
  shows "atomically (claim c e) s = (if was_processed c (ev_id e) s then (Inr False, s)
    else (Inr True, s\<lparr>processed := processed s @ [\<lparr>pe_consumer = c, pe_event = ev_id e, pe_type = ev_type e,
       pe_processed_at = clock s\<rparr>]\<rparr>))"
  using atomically_deposit_step(2) [OF claim_steps assms, of c e]
  by (simp add: claim_def claim_event_def was_processed_def)

text \<open>
  C24: A credit that fails once is lost. The handler commits its claim of the event before it
  credits, so when crediting fails with any error but a missing deposit, the error is returned,
  but from then on, in every state that still has the claim, every redelivery of the event is
  acknowledged without crediting; and a confirmation pass leaves a deposit that is already
  confirmed as it is, so no new event comes for it.
\<close>

theorem failed_credit_is_lost:
  assumes "chain_inv s" "ev_payload e = DepositConfirmed p" "\<not> was_processed ''deposit_credit'' (ev_id e) s"
    "\<And>t. crediting (dcf_deposit p) (ev_correlation e) t = (Inl err, t)" "\<And>m. err \<noteq> NotFound m"
    "credit_handle_with crediting e s = (r, s')"
  shows "r = Inl err
    \<and> (\<forall>t. chain_inv t \<longrightarrow> set (processed s') \<subseteq> set (processed t) \<longrightarrow> credit_handle v5 e t = (Inr Done, t))
    \<and> (\<forall>policy chain head corr pd pass pass' t t'. pd_status pd = DConfirmed \<longrightarrow> is_confirmed policy head (pd_block_number pd) \<longrightarrow>
        confirm_one v5 policy chain head corr pd pass t = Inr (pass', t') \<longrightarrow> t' = t)"
proof (intro conjI allI impI)
  have s': "(r, s') = (Inl err, snd (atomically (claim ''deposit_credit'' e) s))"
    using assms(6) unfolding credit_handle_with_def atomically_claim [OF assms(1)]
    using assms(2-5) by (auto split: error.splits)
  then show "r = Inl err" by simp
  have w: "was_processed ''deposit_credit'' (ev_id e) s'"
    using s' assms(3) by (auto simp: atomically_claim [OF assms(1)] was_processed_def)
  show "credit_handle v5 e t = (Inr Done, t)" if t: "chain_inv t" "set (processed s') \<subseteq> set (processed t)" for t
  proof -
    have "was_processed ''deposit_credit'' (ev_id e) t" using w t(2) by (auto simp: was_processed_def)
    then show ?thesis by (simp add: credit_handle_def credit_handle_with_def atomically_claim [OF t(1)] assms(2))
  qed
  show "t' = t" if "pd_status pd = DConfirmed" "is_confirmed policy head (pd_block_number pd)"
    "confirm_one v5 policy chain head corr pd pass t = Inr (pass', t')" for policy chain head corr pd pass pass' t t'
    using that by (auto simp: confirm_one_def tx_simps Let_def split: option.splits if_splits)
qed

theorem failed_credit_is_lost_witness:
  "credit_handle (\<lambda>k. k) demo_confirmed_event
     (snd (credit_handle_with (\<lambda>i corr s. (Inl (Timeout 5), s)) demo_confirmed_event demo_confirmed)) =
   (Inr Done, snd (credit_handle_with (\<lambda>i corr s. (Inl (Timeout 5), s)) demo_confirmed_event demo_confirmed))
   \<and> credited_total (snd (credit_handle_with (\<lambda>i corr s. (Inl (Timeout 5), s)) demo_confirmed_event demo_confirmed)) ''u'' ''x'' = 0"
proof -
  let ?f = "\<lambda>i corr (s :: chain_db). (Inl (Timeout 5) :: credit_outcome res, s)"
  let ?r = "credit_handle_with ?f demo_confirmed_event demo_confirmed"
  obtain p where p: "ev_payload demo_confirmed_event = DepositConfirmed p"
    by (simp add: demo_confirmed_event_def envelope_new_def)
  have n: "\<not> was_processed ''deposit_credit'' (ev_id demo_confirmed_event) demo_confirmed"
    and z: "credited_total (snd ?r) ''u'' ''x'' = 0" by code_simp+
  have run: "?r = (fst ?r, snd ?r)" by simp
  have inv: "chain_inv (snd ?r)"
  proof -
    obtain rc sc where a: "atomically (claim ''deposit_credit'' demo_confirmed_event) demo_confirmed = (rc, sc)" by fastforce
    then have "chain_inv sc" using atomically_deposit_step(1) [OF claim_steps demo_confirmed_inv,
        of "''deposit_credit''" demo_confirmed_event] deposit_step_inv by simp
    then show ?thesis using credit_handle_with_state [OF a, of ?f] demo_confirmed_inv by auto
  qed
  from failed_credit_is_lost [OF demo_confirmed_inv p n _ _ run, of "Timeout 5" "\<lambda>k. k"] inv z show ?thesis by auto
qed

text \<open>A recovery without deposits always returns.\<close>

lemma handle_in_tx_ok:
  assumes "deposits s = []"
  shows "\<exists>rep s'. handle_in_tx v5 chain a depth corr s = Inr (rep, s')"
  using assms
  by (simp add: handle_in_tx_def orphan_blocks_above_def mark_transfers_orphaned_def rewind_cursor_def
      deposits_for_transfers_def set_cursor_def Let_def tx_eval)

definition below_nothing :: "string \<Rightarrow> nat \<Rightarrow> 'x chain_db_scheme \<Rightarrow> bool" where
  "below_nothing chain h s \<longleftrightarrow> chain_inv s \<and> deposits s = [] \<and> (\<forall>k<h. get_canonical_block_at chain k s = None)"

lemma reconcile_rewinds:
  assumes "below_nothing chain (Suc h) s" "get_cursor chain s = Some c" "cc_height c = Suc h"
    "header_at (Suc h) = Inr (Some r)" "br_hash r \<noteq> cc_hash c" "0 < depth"
  shows "\<exists>rep s'. reconcile v5 header_at chain depth corr s = (Inr (Handled rep), s') \<and> rr_ancestor rep = h \<and>
    below_nothing chain h s' \<and> (\<exists>c'. get_cursor chain s' = Some c' \<and> cc_height c' = h \<and> cc_hash c' = zero_hash)"
proof -
  have n: "get_canonical_block_at chain k s = None" if "k < Suc h" for k
    using assms(1) that by (auto simp: below_nothing_def)
  have inv: "chain_inv s" "deposits s = []" using assms(1) by (auto simp: below_nothing_def)
  have d: "detect header_at chain depth s = Inr (Some (h, 1))"
    using assms(2-6) n [of h] by (simp add: detect_def)
  obtain rep s' where run: "handle_in_tx v5 chain h 1 corr s = Inr (rep, s')"
    using handle_in_tx_ok [OF inv(2)] by blast
  note e = handle_in_tx_effect [OF inv(1) run]
  have "reorg_handle v5 chain h 1 corr s = (Inr rep, s')"
    using atomically_deposit_step(2) [OF handle_in_tx_steps inv(1), of v5 chain h 1 corr] run by (simp add: reorg_handle_def)
  then have r: "reconcile v5 header_at chain depth corr s = (Inr (Handled rep), s')" by (simp add: reconcile_def d)
  have "deposits s' = []" using e(4) inv(2) by (simp add: rows_reorged_def)
  moreover have "get_canonical_block_at chain k s' = None" if "k < h" for k using e(6) [of k] n [of k] that by simp
  ultimately have "below_nothing chain h s'" using deposit_step_inv [OF e(1)] by (simp add: below_nothing_def)
  moreover have "get_cursor chain s' = Some \<lparr>cc_chain = chain, cc_height = h, cc_hash = zero_hash, cc_head = h\<rparr>"
    using e(3) n [of h] by simp
  ultimately show ?thesis using r e(5) by auto
qed

lemma reconcile_stuck:
  assumes "get_cursor chain s = Some c" "cc_height c = 0" "header_at 0 = Inr (Some r)" "br_hash r \<noteq> cc_hash c"
  shows "reconcile v5 header_at chain depth corr s = (Inl (too_deep chain depth 0), s)"
  using assms by (simp add: reconcile_def detect_def)

definition reconciled :: "(string \<Rightarrow> uuid) \<Rightarrow> header_at \<Rightarrow> string \<Rightarrow> nat \<Rightarrow> string \<Rightarrow> nat \<Rightarrow> 'x chain_db_scheme \<Rightarrow> 'x chain_db_scheme" where
  "reconciled v5 header_at chain depth corr k s = ((\<lambda>t. snd (reconcile v5 header_at chain depth corr t)) ^^ k) s"

text \<open>
  C25: A rewind below the stored lineage does not become a cold start. When nothing is stored
  below a reorganised cursor, each pass rewinds the cursor by one more block, with a zero hash
  that no block has, until the cursor reaches height 0, where every further pass fails and
  changes nothing: the watcher never scans forward again, although the node answers every time.
\<close>

theorem rewind_below_lineage_never_recovers:
  assumes "below_nothing chain h s" "get_cursor chain s = Some c" "cc_height c = h"
    "\<And>k. \<exists>r. header_at k = Inr (Some r) \<and> br_hash r \<noteq> zero_hash \<and> br_hash r \<noteq> cc_hash c" "0 < depth"
  shows "\<exists>c'. get_cursor chain (reconciled v5 header_at chain depth corr k s) = Some c' \<and> cc_height c' = h - k \<and>
    (h \<le> k \<longrightarrow> reconcile v5 header_at chain depth corr (reconciled v5 header_at chain depth corr k s) =
       (Inl (too_deep chain depth 0), reconciled v5 header_at chain depth corr k s))"
proof -
  let ?t = "\<lambda>k. reconciled v5 header_at chain depth corr k s"
  have "below_nothing chain (h - k) (?t k) \<and> (\<exists>c'. get_cursor chain (?t k) = Some c' \<and> cc_height c' = h - k \<and>
      cc_hash c' \<in> {cc_hash c, zero_hash})" for k
  proof (induction k)
    case 0
    then show ?case using assms(1-3) by (simp add: reconciled_def)
  next
    case (Suc k)
    then obtain c' where b: "below_nothing chain (h - k) (?t k)" and c': "get_cursor chain (?t k) = Some c'"
      "cc_height c' = h - k" "cc_hash c' \<in> {cc_hash c, zero_hash}" by blast
    obtain r where r: "header_at (h - k) = Inr (Some r)" "br_hash r \<noteq> cc_hash c'" using assms(4) [of "h - k"] c'(3) by auto
    have nx: "?t (Suc k) = snd (reconcile v5 header_at chain depth corr (?t k))" by (simp add: reconciled_def)
    show ?case
    proof (cases "h - k")
      case 0
      then have "?t (Suc k) = ?t k" using reconcile_stuck [OF c'(1)] c'(2) r nx by simp
      then show ?thesis using 0 b c' by auto
    next
      case (Suc h')
      have "h - Suc k = h'" using Suc by simp
      then show ?thesis
        using reconcile_rewinds [where header_at = header_at and ?v5.0 = v5 and corr = corr,
            OF b [unfolded Suc] c'(1) c'(2) [unfolded Suc] r(1) [unfolded Suc] r(2) assms(5)] nx
        by auto
    qed
  qed
  then obtain c' where c': "get_cursor chain (?t k) = Some c'" "cc_height c' = h - k" "cc_hash c' \<in> {cc_hash c, zero_hash}" by blast
  have "reconcile v5 header_at chain depth corr (?t k) = (Inl (too_deep chain depth 0), ?t k)" if "h \<le> k"
    using reconcile_stuck [OF c'(1)] c'(2,3) that assms(4) [of 0] by auto
  with c' show ?thesis by blast
qed

definition demo_started :: chain_db where
  "demo_started = demo_chain\<lparr>blocks := [\<lparr>cb_chain = ''e'', cb_hash = ''h000'', cb_height = 3, cb_parent = zero_hash,
     cb_status = Canonical\<rparr>], cursors := [\<lparr>cc_chain = ''e'', cc_height = 3, cc_hash = ''h000'', cc_head = 5\<rparr>]\<rparr>"

lemma demo_started_below: "below_nothing ''e'' 3 demo_started"
proof -
  have "chain_inv demo_started"
    unfolding demo_started_def
    by (rule chain_inv_same [OF _ _ chain_inv_blocks [OF fresh_chain_inv(1) [OF demo_chain_fresh]],
        of "[\<lparr>cb_chain = ''e'', cb_hash = ''h000'', cb_height = 3, cb_parent = zero_hash, cb_status = Canonical\<rparr>]"])
      (simp_all add: ledger_same_def chain_same_def blocks_ok_def)
  then show ?thesis
    by (simp add: below_nothing_def demo_started_def demo_chain_def get_canonical_block_at_def canonical_at_def)
qed

definition other_node :: header_at where
  "other_node h = Inr (Some \<lparr>br_height = h, br_hash = ''g'', br_parent = ''g'', br_tx_count = 0\<rparr>)"

theorem rewind_below_lineage_never_recovers_witness:
  "reconcile (\<lambda>k. k) other_node ''e'' 2 ''c'' (reconciled (\<lambda>k. k) other_node ''e'' 2 ''c'' 3 demo_started)
   = (Inl (too_deep ''e'' 2 0), reconciled (\<lambda>k. k) other_node ''e'' 2 ''c'' 3 demo_started)"
proof -
  let ?c = "\<lparr>cc_chain = ''e'', cc_height = 3, cc_hash = ''h000'', cc_head = 5\<rparr>"
  have c: "get_cursor ''e'' demo_started = Some ?c" "cc_height ?c = 3" by (simp_all add: get_cursor_def demo_started_def)
  have "\<exists>r. other_node k = Inr (Some r) \<and> br_hash r \<noteq> zero_hash \<and> br_hash r \<noteq> cc_hash ?c" for k
    by (simp add: other_node_def zero_hash_def)
  from rewind_below_lineage_never_recovers [where header_at = other_node and depth = 2 and ?v5.0 = "\<lambda>k. k" and corr = "''c''" and k = 3,
      OF demo_started_below c this] show ?thesis by auto
qed

section \<open>Re-scanning\<close>

text \<open>
  What persisting never touches (users, assets and addresses) and what it only adds to (the
  transfers by their natural key); headers leave transfers and deposits alone altogether.
\<close>

definition refs_grow :: "'x chain_db_scheme \<Rightarrow> 'x chain_db_scheme \<Rightarrow> bool" where
  "refs_grow s s' \<longleftrightarrow> users s' = users s \<and> assets s' = assets s \<and> deposit_addresses s' = deposit_addresses s \<and>
     transfer_key ` set (transfers s) \<subseteq> transfer_key ` set (transfers s')"

definition headers_only :: "'x chain_db_scheme \<Rightarrow> 'x chain_db_scheme \<Rightarrow> bool" where
  "headers_only s s' \<longleftrightarrow> refs_grow s s' \<and> transfers s' = transfers s \<and> deposits s' = deposits s"

interpretation rs: tx_steps "\<lambda>s :: 'x chain_db_scheme. True" refs_grow
  by unfold_locales (auto simp: refs_grow_def)

interpretation hs: tx_steps "\<lambda>s :: 'x chain_db_scheme. True" headers_only
  by unfold_locales (auto simp: headers_only_def refs_grow_def)

lemma emit_headers_only: "emit v5 p corr key s = Inr (u, s') \<Longrightarrow> headers_only s s'"
  using emit_Inr [of v5 p corr key s u s'] by (simp add: headers_only_def refs_grow_def ledger_same_def chain_same_def)

lemma block_steps:
  "hs.steps (set_cursor chain h hash head)" "hs.steps (orphan_blocks_above chain h)"
  "hs.steps (insert_canonical_block chain hash h parent)"
  by (rule hs.stepsI, auto simp: set_cursor_def orphan_blocks_above_def insert_canonical_block_def
      tx_simps headers_only_def refs_grow_def Let_def split: if_splits option.splits)+

lemma persist_header_only: "hs.steps (persist_header v5 chain corr h)"
  unfolding persist_header_def by (intro hs.step_rules block_steps hs.stepsI emit_headers_only)

lemma persist_transfer_grows: "rs.steps (persist_transfer v5 ctx corr t)"
proof -
  have "rs.steps (insert_transfer t asset)" for asset
    by (rule rs.stepsI) (auto simp: insert_transfer_def gen_uuid_def tx_simps refs_grow_def Let_def split: if_splits)
  moreover have "rs.steps (create_deposit user btx asset amt)" for user btx asset amt
    by (rule rs.stepsI) (auto simp: create_deposit_def gen_uuid_def tx_simps refs_grow_def Let_def split: if_splits option.splits)
  moreover have "rs.steps (emit v5 p corr key)" for p key
    by (rule rs.stepsI) (drule emit_headers_only, simp add: headers_only_def)
  ultimately show ?thesis unfolding persist_transfer_def by (intro rs.step_rules)
qed

text \<open>A transfer with nothing left to record.\<close>

definition seen :: "chain_context \<Rightarrow> 'x chain_db_scheme \<Rightarrow> observed_transfer \<Rightarrow> bool" where
  "seen ctx s t \<longleftrightarrow> resolve_asset ctx (ot_contract t) = None \<or>
     owner_of_address (cx_chain ctx) (storage_key (ot_to t)) s = None \<or>
     (ot_chain t, ot_tx_hash t, ot_log_index t) \<in> transfer_key ` set (transfers s)"

lemma seen_grows: "refs_grow s s' \<Longrightarrow> seen ctx s t \<Longrightarrow> seen ctx s' t"
  by (auto simp: seen_def refs_grow_def owner_of_address_def)

lemma insert_transfer_seen:
  "insert_transfer t asset s = Inr (r, s') \<Longrightarrow> (ot_chain t, ot_tx_hash t, ot_log_index t) \<in> transfer_key ` set (transfers s')"
  by (auto simp: insert_transfer_def gen_uuid_def tx_simps Let_def transfer_key_def split: if_splits)

lemma create_deposit_transfers: "create_deposit user btx asset amt s = Inr (d, s') \<Longrightarrow> transfers s' = transfers s"
  by (auto simp: create_deposit_def gen_uuid_def tx_simps Let_def split: if_splits option.splits)

lemma persist_transfer_seen:
  assumes "persist_transfer v5 ctx corr t s = Inr (r, s')"
  shows "seen ctx s' t"
proof (cases "resolve_asset ctx (ot_contract t) = None \<or> owner_of_address (cx_chain ctx) (storage_key (ot_to t)) s = None")
  case True
  then have "seen ctx s t" by (auto simp: seen_def)
  then show ?thesis using seen_grows rs.stepsD [OF persist_transfer_grows assms] by blast
next
  case False
  then obtain asset user where a: "resolve_asset ctx (ot_contract t) = Some asset"
    "owner_of_address (cx_chain ctx) (storage_key (ot_to t)) s = Some user" by auto
  with assms obtain x s1 where i: "insert_transfer t (ar_id asset) s = Inr (x, s1)"
    by (auto simp: persist_transfer_def tx_simps)
  have "transfers s' = transfers s1"
  proof (cases x)
    case None
    then show ?thesis using assms a i by (simp add: persist_transfer_def tx_simps)
  next
    case (Some b)
    with assms a i obtain d s2 p k where "create_deposit user (bt_id b) (ar_id asset) (ot_amount t) s1 = Inr (d, s2)"
      "emit v5 p corr k s2 = Inr ((), s')" by (auto simp: persist_transfer_def tx_simps)
    then show ?thesis using create_deposit_transfers emit_headers_only unfolding headers_only_def by metis
  qed
  then show ?thesis using insert_transfer_seen [OF i] by (simp add: seen_def)
qed

lemma persist_transfer_again:
  assumes "seen ctx s t" "persist_transfer v5 ctx corr t s = Inr (r, s')"
  shows "s' = s" "r \<noteq> Created"
  using assms
  by (auto simp: persist_transfer_def seen_def insert_transfer_def tx_simps split: option.splits if_splits)

lemma persist_in_tx_Inr:
  assumes "persist_in_tx v5 ctx scan head corr s = Inr (st, s')"
  obtains s1 s2 where "headers_only s s1" "headers_only s2 s'"
    "tx_fold (\<lambda>t st. tx_bind (persist_transfer v5 ctx corr t) (\<lambda>outcome. tx_return (count_outcome outcome st)))
       (sc_transfers scan) (persist_stats_default\<lparr>ps_blocks := length (sc_headers scan),
          ps_transfers_seen := length (sc_transfers scan)\<rparr>) s1 = Inr (st, s2)"
proof -
  let ?f = "\<lambda>t st. tx_bind (persist_transfer v5 ctx corr t) (\<lambda>outcome. tx_return (count_outcome outcome st))"
  let ?cur = "if sc_headers scan = [] then tx_return ()
     else let tip = last (sc_headers scan) in set_cursor (cx_chain ctx) (br_height tip) (br_hash tip) head"
  from assms obtain s1 s2 where 1: "tx_for (sc_headers scan) (persist_header v5 (cx_chain ctx) corr) s = Inr ((), s1)"
    and 2: "tx_fold ?f (sc_transfers scan) (persist_stats_default\<lparr>ps_blocks := length (sc_headers scan),
          ps_transfers_seen := length (sc_transfers scan)\<rparr>) s1 = Inr (st, s2)" and 3: "?cur s2 = Inr ((), s')"
    by (auto simp: persist_in_tx_def Let_def tx_simps)
  have "hs.steps ?cur" unfolding Let_def by (intro hs.step_rules block_steps)
  then have "headers_only s2 s'" using hs.stepsD [where m = ?cur, OF _ 3] by blast
  moreover have "headers_only s s1" using hs.stepsD [OF hs.steps_for 1] persist_header_only by blast
  ultimately show thesis using that 2 by blast
qed

lemma fold_seen:
  assumes "tx_fold (\<lambda>t st. tx_bind (persist_transfer v5 ctx corr t) (\<lambda>outcome. tx_return (count_outcome outcome st))) ts st s = Inr (st', s')"
  shows "refs_grow s s' \<and> (\<forall>t\<in>set ts. seen ctx s' t)"
  using assms
proof (induction ts arbitrary: st s)
  case Nil
  then show ?case by (simp add: tx_simps rs.R_refl)
next
  case (Cons t ts)
  then obtain r s1 where t: "persist_transfer v5 ctx corr t s = Inr (r, s1)"
    and rest: "tx_fold (\<lambda>t st. tx_bind (persist_transfer v5 ctx corr t) (\<lambda>outcome. tx_return (count_outcome outcome st))) ts
      (count_outcome r st) s1 = Inr (st', s')" by (auto simp: tx_simps)
  note ih = Cons.IH [OF rest]
  have "refs_grow s s1" using rs.stepsD [OF persist_transfer_grows t] by simp
  then show ?case using ih rs.R_trans [of s s1 s'] seen_grows [of s1 s' ctx t] persist_transfer_seen [OF t] by simp
qed

lemma count_outcome_created: "r \<noteq> Created \<Longrightarrow> ps_created (count_outcome r st) = ps_created st"
  by (cases r) simp_all

lemma fold_again:
  assumes "tx_fold (\<lambda>t st. tx_bind (persist_transfer v5 ctx corr t) (\<lambda>outcome. tx_return (count_outcome outcome st))) ts st s = Inr (st', s')"
    "\<forall>t\<in>set ts. seen ctx s t"
  shows "s' = s \<and> ps_created st' = ps_created st"
  using assms
proof (induction ts arbitrary: st)
  case Nil
  then show ?case by (simp add: tx_simps)
next
  case (Cons t ts)
  then obtain r s1 where t: "persist_transfer v5 ctx corr t s = Inr (r, s1)"
    and rest: "tx_fold (\<lambda>t st. tx_bind (persist_transfer v5 ctx corr t) (\<lambda>outcome. tx_return (count_outcome outcome st))) ts
      (count_outcome r st) s1 = Inr (st', s')" by (auto simp: tx_simps)
  have "s1 = s" "r \<noteq> Created" using persist_transfer_again [OF _ t] Cons.prems(2) by auto
  with Cons.IH [of "count_outcome r st"] rest Cons.prems(2) show ?case by (simp add: count_outcome_created)
qed

text \<open>
  C22: Scanning a range again creates nothing. Once a scan was persisted, persisting the same scan
  in any later state that kept its transfers (and the address and asset tables), for instance
  after a crash before the cursor moved or after a reorg rewound it, creates no deposit and
  changes neither the transfers nor the deposits.
\<close>

theorem rescan_creates_nothing:
  assumes "persist_in_tx v5 ctx scan head corr s = Inr (st, s1)" "refs_grow s1 t"
    "persist_in_tx v5 ctx scan head' corr' t = Inr (st', t')"
  shows "ps_created st' = 0 \<and> deposits t' = deposits t \<and> transfers t' = transfers t"
proof -
  from persist_in_tx_Inr [OF assms(1)] obtain a b where ab: "headers_only s a" "headers_only b s1"
    and f: "tx_fold (\<lambda>t st. tx_bind (persist_transfer v5 ctx corr t) (\<lambda>outcome. tx_return (count_outcome outcome st)))
       (sc_transfers scan) (persist_stats_default\<lparr>ps_blocks := length (sc_headers scan),
          ps_transfers_seen := length (sc_transfers scan)\<rparr>) a = Inr (st, b)" by blast
  from persist_in_tx_Inr [OF assms(3)] obtain c d where cd: "headers_only t c" "headers_only d t'"
    and g: "tx_fold (\<lambda>t st. tx_bind (persist_transfer v5 ctx corr' t) (\<lambda>outcome. tx_return (count_outcome outcome st)))
       (sc_transfers scan) (persist_stats_default\<lparr>ps_blocks := length (sc_headers scan),
          ps_transfers_seen := length (sc_transfers scan)\<rparr>) c = Inr (st', d)" by blast
  have "refs_grow b c" using ab(2) assms(2) cd(1) rs.R_trans unfolding headers_only_def by blast
  then have "\<forall>x\<in>set (sc_transfers scan). seen ctx c x" using fold_seen [OF f] seen_grows by blast
  from fold_again [OF g this] cd show ?thesis by (simp add: headers_only_def persist_stats_default_def)
qed

definition demo_ctx :: chain_context where
  "demo_ctx = refresh_if_stale 1 demo_context demo_chain"

definition demo_range :: scan_result where
  "demo_range = projr (demo_scan 1 4 {} [])"

definition demo_once :: chain_db where
  "demo_once = final (persist_in_tx (\<lambda>k. k) demo_ctx demo_range 4 ''c'' demo_chain)"

theorem rescan_creates_nothing_witness:
  "\<exists>st st' t'. persist_in_tx (\<lambda>k. k) demo_ctx demo_range 4 ''c'' demo_chain = Inr (st, demo_once) \<and>
     persist_in_tx (\<lambda>k. k) demo_ctx demo_range 4 ''c2'' demo_once = Inr (st', t') \<and> ps_created st' = 0 \<and>
     length (deposits t') = 1"
proof -
  have ev: "succeeds (persist_in_tx (\<lambda>k. k) demo_ctx demo_range 4 ''c'' demo_chain)"
    "succeeds (persist_in_tx (\<lambda>k. k) demo_ctx demo_range 4 ''c2'' demo_once)" "length (deposits demo_once) = 1"
    by code_simp+
  obtain st where 1: "persist_in_tx (\<lambda>k. k) demo_ctx demo_range 4 ''c'' demo_chain = Inr (st, demo_once)"
    using succeeds_final [OF ev(1)] by (auto simp: demo_once_def)
  obtain st' t' where 2: "persist_in_tx (\<lambda>k. k) demo_ctx demo_range 4 ''c2'' demo_once = Inr (st', t')"
    using ev(2) by (auto simp: succeeds_Inr)
  show ?thesis using 1 2 ev(3) rescan_creates_nothing [OF 1 rs.R_refl [OF TrueI] 2] by auto
qed

text \<open>An iteration that fails whatever the state, among those an invariant allows, fails the loop.\<close>

lemma tx_fold_blocked:
  assumes "x \<in> set xs" "\<And>b t. P t \<Longrightarrow> \<exists>e. f x b t = Inl e" "P s"
    "\<And>y b t b' t'. f y b t = Inr (b', t') \<Longrightarrow> P t \<Longrightarrow> P t'"
  shows "\<exists>e. tx_fold f xs b s = Inl e"
  using assms(1,3)
proof (induction xs arbitrary: b s)
  case (Cons y xs)
  show ?case
  proof (cases "f y b s")
    case (Inr r)
    obtain b1 s1 where r: "r = (b1, s1)" by force
    have "y \<noteq> x" using assms(2) [OF Cons.prems(2), of b] Inr by auto
    then have "\<exists>e. tx_fold f xs b1 s1 = Inl e"
      using Cons.IH [of s1 b1] Cons.prems assms(4) [OF Inr [unfolded r]] by auto
    then show ?thesis using Inr r by (simp add: tx_bind_def)
  qed (simp add: tx_bind_def)
qed simp

text \<open>
  C26: A transfer without a positive amount stops the watcher. If a scan holds a transfer of an
  amount that is not positive to a known address in a known asset, persisting the scan fails and
  changes nothing, the cursor included; so the next tick scans the same range again.
\<close>

theorem zero_value_transfer_blocks_scan:
  assumes "sc_headers scan \<noteq> []" "t \<in> set (sc_transfers scan)" "resolve_asset ctx (ot_contract t) = Some asset"
    "owner_of_address (cx_chain ctx) (storage_key (ot_to t)) s = Some user" "ot_amount t \<le> 0"
  shows "\<exists>e. persist_scan v5 ctx scan head corr s = (Inl e, s)"
proof -
  let ?f = "\<lambda>t st. tx_bind (persist_transfer v5 ctx corr t) (\<lambda>outcome. tx_return (count_outcome outcome st))"
  have "\<exists>e. persist_in_tx v5 ctx scan head corr s = Inl e"
  proof (rule ccontr)
    assume "\<nexists>e. persist_in_tx v5 ctx scan head corr s = Inl e"
    then obtain st s' where "persist_in_tx v5 ctx scan head corr s = Inr (st, s')"
      by (cases "persist_in_tx v5 ctx scan head corr s") auto
    from persist_in_tx_Inr [OF this] obtain a b where h: "headers_only s a"
      and f: "tx_fold ?f (sc_transfers scan) (persist_stats_default\<lparr>ps_blocks := length (sc_headers scan),
          ps_transfers_seen := length (sc_transfers scan)\<rparr>) a = Inr (st, b)" by blast
    have fails: "\<exists>e. ?f t st x = Inl e" if "refs_grow s x" for st x
    proof -
      have "owner_of_address (cx_chain ctx) (storage_key (ot_to t)) x = Some user"
        using assms(4) that by (simp add: owner_of_address_def refs_grow_def)
      then show ?thesis using assms(3,5)
        by (simp add: persist_transfer_def insert_transfer_def tx_bind_def tx_read_def)
    qed
    have g: "refs_grow s a" using h by (simp add: headers_only_def)
    have k: "refs_grow s y" if "?f u st x = Inr (st', y)" "refs_grow s x" for u st x st' y
      using that rs.stepsD [OF persist_transfer_grows] rs.R_trans by (fastforce simp: tx_simps)
    have "\<exists>e. tx_fold ?f (sc_transfers scan) (persist_stats_default\<lparr>ps_blocks := length (sc_headers scan),
          ps_transfers_seen := length (sc_transfers scan)\<rparr>) a = Inl e"
      by (rule tx_fold_blocked [where P = "refs_grow s" and f = ?f, OF assms(2) _ g]) (fact fails, fact k)
    with f show False by simp
  qed
  then show ?thesis using assms(1) by (auto simp: persist_scan_def atomically_def tx_bind_def)
qed

theorem zero_value_transfer_blocks_scan_witness:
  "\<exists>e. persist_scan (\<lambda>k. k) demo_ctx (demo_range\<lparr>sc_transfers := [demo_transfer\<lparr>ot_amount := 0\<rparr>]\<rparr>) 4 ''c'' demo_chain
     = (Inl e, demo_chain)"
proof -
  let ?t = "demo_transfer\<lparr>ot_amount := 0\<rparr>" and ?scan = "demo_range\<lparr>sc_transfers := [demo_transfer\<lparr>ot_amount := 0\<rparr>]\<rparr>"
  have ev: "sc_headers ?scan \<noteq> []" "resolve_asset demo_ctx (ot_contract ?t) \<noteq> None"
    "owner_of_address (cx_chain demo_ctx) (storage_key (ot_to ?t)) demo_chain = Some ''u''" by code_simp+
  obtain a where a: "resolve_asset demo_ctx (ot_contract ?t) = Some a" using ev(2) by blast
  have m: "?t \<in> set (sc_transfers ?scan)" "ot_amount ?t \<le> 0" by simp_all
  show ?thesis by (rule zero_value_transfer_blocks_scan [OF ev(1) m(1) a ev(3) m(2)])
qed

section \<open>Scanning forward\<close>

lemma persist_in_tx_cursor:
  assumes "persist_in_tx v5 ctx scan head corr s = Inr (st, s')" "sc_headers scan \<noteq> []"
  shows "get_cursor (cx_chain ctx) s' = Some \<lparr>cc_chain = cx_chain ctx, cc_height = br_height (last (sc_headers scan)),
    cc_hash = br_hash (last (sc_headers scan)), cc_head = head\<rparr>"
proof -
  from assms obtain s2 where "set_cursor (cx_chain ctx) (br_height (last (sc_headers scan))) (br_hash (last (sc_headers scan))) head s2
      = Inr ((), s')"
    by (auto simp: persist_in_tx_def Let_def tx_simps)
  then show ?thesis by (rule get_cursor_set)
qed


lemma demo_scan_ends: "demo_scan lo hi A T = Inr r \<Longrightarrow> lo \<le> hi \<Longrightarrow> sc_headers r \<noteq> [] \<and> br_height (last (sc_headers r)) = hi"
  by (auto simp: demo_scan_def demo_header_def last_map)

definition total_scan :: "nat \<Rightarrow> nat \<Rightarrow> string set \<Rightarrow> tracked_asset list \<Rightarrow> scan_result res" where
  "total_scan lo hi A T = (if lo \<le> hi then demo_scan lo hi A T else Inl (Rpc ''empty range''))"

definition demo_initialised :: chain_db where
  "demo_initialised = pipeline_run (\<lambda>k. k) [demo_tick] demo_chain"


end
