(* ===== verification/Risk.thy ===== *)
theory Risk
  imports Chain_Types
begin

text \<open>
  The risk engine (\<open>crates/risk/src/lib.rs\<close>): pure rules over gathered facts, evaluated in a
  fixed order, the first denial wins. Counting the decision as a metric is left out.
\<close>

text \<open>A \<open>HashMap\<close> of limits, as its entries in the order of iteration.\<close>

type_synonym limit_map = "(string \<times> amount) list"

record risk_config =
  rc_maintenance_mode :: bool
  rc_manual_approval_threshold :: limit_map
  rc_max_per_request :: limit_map
  rc_min_per_request :: limit_map
  rc_max_per_user_per_day :: limit_map
  rc_max_withdrawals_per_user_per_day :: "nat option"
  rc_allowed_chains :: "string list"
  rc_destination_denylist :: "string list"

record risk_input =
  ri_chain :: string
  ri_asset_symbol :: string
  ri_amount :: amount
  ri_destination :: string
  ri_hot_wallet :: "string option"
  ri_available :: amount
  ri_daily_total :: amount
  ri_daily_count :: nat
  ri_is_foreign_deposit_address :: bool
  ri_withdrawals_enabled :: bool

datatype decision = Allow | ManualApproval string string | Deny string string

definition decision_is_allowed :: "decision \<Rightarrow> bool" where
  "decision_is_allowed d \<longleftrightarrow> d = Allow"

fun decision_is_denied :: "decision \<Rightarrow> bool" where
  "decision_is_denied (Deny _ _) = True"
| "decision_is_denied _ = False"

fun requires_manual_approval :: "decision \<Rightarrow> bool" where
  "requires_manual_approval (ManualApproval _ _) = True"
| "requires_manual_approval _ = False"

fun decision_code :: "decision \<Rightarrow> string" where
  "decision_code Allow = ''allow''"
| "decision_code (ManualApproval c _) = c"
| "decision_code (Deny c _) = c"

fun decision_as_error :: "decision \<Rightarrow> error option" where
  "decision_as_error (Deny c m) = Some (PolicyDenied c m)"
| "decision_as_error _ = None"

record risk_engine =
  re_cfg :: risk_config
  re_allowed_chains :: "string list"
  re_denylist :: "string list"

definition risk_engine_new :: "risk_config \<Rightarrow> risk_engine" where
  "risk_engine_new cfg = \<lparr>re_cfg = cfg, re_allowed_chains = rc_allowed_chains cfg,
     re_denylist = map (\<lambda>d. to_ascii_lowercase (trim d)) (rc_destination_denylist cfg)\<rparr>"

definition risk_limit :: "limit_map \<Rightarrow> string \<Rightarrow> string \<Rightarrow> amount option" where
  "risk_limit m chain symbol = (case map_of m (chain @ '':'' @ symbol) of Some a \<Rightarrow> Some a | None \<Rightarrow> map_of m symbol)"

fun show_limit :: "amount option \<Rightarrow> string" where
  "show_limit (Some a) = display_amount a"
| "show_limit None = []"

text \<open>The early returns of \<open>evaluate\<close>, in their order.\<close>

definition evaluate :: "risk_engine \<Rightarrow> risk_input \<Rightarrow> decision" where
  "evaluate e i =
     (let cfg = re_cfg e;
          lim = (\<lambda>m. risk_limit m (ri_chain i) (ri_asset_symbol i));
          amt = ri_amount i
      in if rc_maintenance_mode cfg
      then Deny ''maintenance_mode'' ''withdrawals are temporarily disabled for maintenance''
      else if \<not> is_positive amt then Deny ''invalid_amount'' ''withdrawal amount must be positive''
      else if \<not> ri_withdrawals_enabled i
      then Deny ''asset_withdrawals_disabled'' (''withdrawals are disabled for '' @ ri_asset_symbol i)
      else if re_allowed_chains e \<noteq> [] \<and> ri_chain i \<notin> set (re_allowed_chains e)
      then Deny ''chain_not_allowed'' (''withdrawals to '' @ ri_chain i @ '' are not permitted'')
      else if ri_destination i \<in> set (re_denylist e)
      then Deny ''destination_denylisted'' ''the destination address is not permitted''
      else if (case ri_hot_wallet i of Some hot \<Rightarrow> hot = ri_destination i | None \<Rightarrow> False)
      then Deny ''destination_is_hot_wallet'' ''the destination is ChainRail's own hot wallet''
      else if ri_is_foreign_deposit_address i
      then Deny ''destination_is_internal''
             ''the destination is another ChainRail deposit address; use an internal transfer''
      else if (case lim (rc_min_per_request cfg) of Some mn \<Rightarrow> amt < mn | None \<Rightarrow> False)
      then Deny ''below_minimum'' (''minimum withdrawal is '' @ show_limit (lim (rc_min_per_request cfg)) @
             '' (requested '' @ display_amount amt @ '')'')
      else if (case lim (rc_max_per_request cfg) of Some mx \<Rightarrow> mx < amt | None \<Rightarrow> False)
      then Deny ''above_maximum'' (''maximum per withdrawal is '' @ show_limit (lim (rc_max_per_request cfg)) @
             '' (requested '' @ display_amount amt @ '')'')
      else if (case rc_max_withdrawals_per_user_per_day cfg of Some cap \<Rightarrow> cap \<le> ri_daily_count i | None \<Rightarrow> False)
      then Deny ''daily_count_exceeded''
             (''at most '' @ (case rc_max_withdrawals_per_user_per_day cfg of Some cap \<Rightarrow> show_nat cap | None \<Rightarrow> []) @
              '' withdrawals per day'')
      else if (case lim (rc_max_per_user_per_day cfg) of
                 Some cap \<Rightarrow> (case checked_add (ri_daily_total i) amt of Inr projected \<Rightarrow> cap < projected | Inl _ \<Rightarrow> False)
               | None \<Rightarrow> False)
      then Deny ''daily_limit_exceeded'' (''daily limit '' @ show_limit (lim (rc_max_per_user_per_day cfg)) @
             '' would be exceeded ('' @ display_amount (ri_daily_total i) @ '' already withdrawn today)'')
      else if (case lim (rc_max_per_user_per_day cfg) of
                 Some cap \<Rightarrow> (case checked_add (ri_daily_total i) amt of Inr _ \<Rightarrow> False | Inl _ \<Rightarrow> True)
               | None \<Rightarrow> False)
      then Deny ''amount_overflow'' ''amount arithmetic overflowed''
      else if ri_available i < amt
      then Deny ''insufficient_balance'' (''available balance '' @ display_amount (ri_available i) @
             '' is less than '' @ display_amount amt)
      else if (case lim (rc_manual_approval_threshold cfg) of Some th \<Rightarrow> th < amt | None \<Rightarrow> False)
      then ManualApproval ''manual_approval_required''
             (''withdrawals above '' @ show_limit (lim (rc_manual_approval_threshold cfg)) @ '' require operator approval'')
      else Allow)"

section \<open>What a decision means\<close>

definition within :: "(amount \<Rightarrow> bool) \<Rightarrow> limit_map \<Rightarrow> risk_input \<Rightarrow> bool" where
  "within P m i \<longleftrightarrow> (\<forall>a. risk_limit m (ri_chain i) (ri_asset_symbol i) = Some a \<longrightarrow> P a)"

text \<open>The policy as one condition, without an order of rules.\<close>

definition permitted :: "risk_config \<Rightarrow> risk_input \<Rightarrow> bool" where
  "permitted c i \<longleftrightarrow> \<not> rc_maintenance_mode c \<and> 0 < ri_amount i \<and> ri_amount i \<le> ri_available i \<and>
     ri_withdrawals_enabled i \<and> (rc_allowed_chains c = [] \<or> ri_chain i \<in> set (rc_allowed_chains c)) \<and>
     ri_destination i \<notin> (\<lambda>d. to_ascii_lowercase (trim d)) ` set (rc_destination_denylist c) \<and>
     ri_hot_wallet i \<noteq> Some (ri_destination i) \<and> \<not> ri_is_foreign_deposit_address i \<and>
     within (\<lambda>mn. mn \<le> ri_amount i) (rc_min_per_request c) i \<and> within (\<lambda>mx. ri_amount i \<le> mx) (rc_max_per_request c) i \<and>
     (\<forall>n. rc_max_withdrawals_per_user_per_day c = Some n \<longrightarrow> ri_daily_count i < n) \<and>
     within (\<lambda>cap. in_i128 (ri_daily_total i + ri_amount i) \<and> ri_daily_total i + ri_amount i \<le> cap) (rc_max_per_user_per_day c) i"

text \<open>
  C27: The rules decide the policy. A withdrawal passes, automatically or by manual approval,
  exactly when it is permitted as a whole: not in maintenance, positive, covered by the
  available balance, on an allowed chain and asset, to a destination that is neither denied nor
  internal, within the per-request bounds and within the daily limits without overflow; and it
  is held for an operator exactly when it is also above the approval threshold.
\<close>

theorem risk_decides_policy:
  "(\<not> decision_is_denied (evaluate (risk_engine_new c) i) \<longleftrightarrow> permitted c i) \<and>
   (decision_is_allowed (evaluate (risk_engine_new c) i) \<longleftrightarrow>
      permitted c i \<and> within (\<lambda>th. ri_amount i \<le> th) (rc_manual_approval_threshold c) i)"
proof -
  have "\<not> decision_is_denied (evaluate (risk_engine_new c) i) \<longleftrightarrow> permitted c i"
    unfolding permitted_def evaluate_def Let_def risk_engine_new_def within_def checked_add_def is_positive_def
    by (auto simp: ok_or_def checked_i128_def not_le not_less split: option.splits if_splits sum.splits)
  moreover have "decision_is_allowed (evaluate (risk_engine_new c) i) \<longleftrightarrow>
      \<not> decision_is_denied (evaluate (risk_engine_new c) i) \<and> within (\<lambda>th. ri_amount i \<le> th) (rc_manual_approval_threshold c) i"
    unfolding evaluate_def Let_def risk_engine_new_def within_def decision_is_allowed_def
    by (simp add: not_le not_less split: option.split)
  ultimately show ?thesis by blast
qed

end
