(* ===== verification/Config.thy ===== *)
theory Config
  imports Risk Complex_Main
begin

text \<open>
  The configuration and its validation at boot (\<open>crates/common/src/config.rs\<close>). Reading the
  files and the environment is I/O of a third-party crate and not modelled; \<open>validate\<close> is the
  list of its early returns, in their order. \<open>oc_trace_sample_ratio\<close> is \<open>None\<close> for a float that is
  not a finite number.
\<close>

record http_config =
  hc_bind :: string
  hc_request_timeout_ms :: nat
  hc_max_body_bytes :: nat
  hc_rate_limit_rps :: nat
  hc_rate_limit_burst :: nat
  hc_default_page_size :: nat
  hc_max_page_size :: nat
  hc_api_token :: "string option"

record database_config =
  dc_url :: string
  dc_max_connections :: nat
  dc_min_connections :: nat
  dc_acquire_timeout_ms :: nat
  dc_statement_timeout_ms :: nat
  dc_run_migrations_on_boot :: bool

record redis_config =
  rd_url :: string
  rd_timeout_ms :: nat
  rd_required :: bool

record kafka_config =
  kc_brokers :: string
  kc_consumer_group :: string
  kc_topic_prefix :: string
  kc_request_timeout_ms :: nat
  kc_max_delivery_attempts :: nat
  kc_retry_backoff_base_ms :: nat
  kc_retry_backoff_max_ms :: nat
  kc_use_outbox :: bool
  kc_outbox_poll_interval_ms :: nat
  kc_outbox_batch_size :: int

record observability_config =
  oc_log_level :: string
  oc_log_format :: string
  oc_otlp_endpoint :: "string option"
  oc_trace_sample_ratio :: "rat option"
  oc_metrics_bind :: string

datatype signer_config = LocalDevelopment string | MockSigner

record worker_config =
  wc_run_watcher :: bool
  wc_run_confirmations :: bool
  wc_run_deposit_consumer :: bool
  wc_run_withdrawal_pipeline :: bool
  wc_run_outbox_relay :: bool
  wc_tick_interval_ms :: nat
  wc_shutdown_grace_ms :: nat

record rpc_endpoint_config =
  ec_name :: string
  ec_url :: string
  ec_weight :: nat
  ec_timeout_ms :: nat
  ec_max_inflight :: nat
  ec_failure_threshold :: nat
  ec_breaker_reset_ms :: nat

record asset_config =
  ac_symbol :: string
  ac_decimals :: nat
  ac_contract_address :: "string option"
  ac_deposits_enabled :: bool
  ac_withdrawals_enabled :: bool

record chain_config =
  ch_id :: string
  ch_kind :: chain_kind
  ch_numeric_chain_id :: "nat option"
  ch_finality :: finality_policy
  ch_poll_interval_ms :: nat
  ch_block_batch_size :: nat
  ch_reorg_scan_depth :: nat
  ch_start_block :: "nat option"
  ch_hot_wallet :: "string option"
  ch_transfer_gas_limit :: nat
  ch_fee_bump_pct :: nat
  ch_rpc :: "rpc_endpoint_config list"
  ch_assets :: "asset_config list"

record app_config =
  cfg_environment :: string
  cfg_service_name :: string
  cfg_http :: http_config
  cfg_database :: database_config
  cfg_redis :: redis_config
  cfg_kafka :: kafka_config
  cfg_observability :: observability_config
  cfg_signer :: signer_config
  cfg_risk :: risk_config
  cfg_chains :: "chain_config list"
  cfg_worker :: worker_config

definition asset_is_native :: "asset_config \<Rightarrow> bool" where
  "asset_is_native a = (ac_contract_address a = None)"

definition chain_asset :: "chain_config \<Rightarrow> string \<Rightarrow> asset_config option" where
  "chain_asset c symbol = find (\<lambda>a. ac_symbol a = symbol) (ch_assets c)"

definition is_production_like :: "app_config \<Rightarrow> bool" where
  "is_production_like cfg = (cfg_environment cfg \<notin> {''local'', ''test'', ''ci''})"

definition cfg_chain :: "app_config \<Rightarrow> string \<Rightarrow> chain_config option" where
  "cfg_chain cfg i = find (\<lambda>c. ch_id c = i) (cfg_chains cfg)"

section \<open>Validation\<close>

text \<open>A check of \<open>validate\<close>: the condition of its early return and the message.\<close>

type_synonym check = "bool \<times> string"

definition run_checks :: "check list \<Rightarrow> unit res" where
  "run_checks cs = (case find fst cs of None \<Rightarrow> Inr () | Some (_, m) \<Rightarrow> Inl (Config m))"

definition endpoint_checks :: "bool \<Rightarrow> string \<Rightarrow> string list \<Rightarrow> rpc_endpoint_config \<Rightarrow> check list" where
  "endpoint_checks production chain seen ep =
     [(ec_name ep \<in> set seen, ''chain `'' @ chain @ ''` has duplicate rpc name `'' @ ec_name ep @ ''`''),
      (\<not> starts_with ''http://'' (ec_url ep) \<and> \<not> starts_with ''https://'' (ec_url ep),
       ''chain `'' @ chain @ ''` rpc `'' @ ec_name ep @ ''` must be http(s)''),
      (production \<and> starts_with ''http://'' (ec_url ep),
       ''chain `'' @ chain @ ''` rpc `'' @ ec_name ep @ ''` uses plaintext http outside local/test''),
      (ec_timeout_ms ep = 0 \<or> ec_max_inflight ep = 0 \<or> ec_failure_threshold ep = 0,
       ''chain `'' @ chain @ ''` rpc `'' @ ec_name ep @ ''` has a zero limit'')]"

fun endpoints_checks :: "bool \<Rightarrow> string \<Rightarrow> string list \<Rightarrow> rpc_endpoint_config list \<Rightarrow> check list" where
  "endpoints_checks production chain seen [] = []"
| "endpoints_checks production chain seen (ep # eps) =
     endpoint_checks production chain seen ep @ endpoints_checks production chain (ec_name ep # seen) eps"

text \<open>An address that must parse, with the message of the error it gives otherwise.\<close>

definition address_check :: "(nat list \<Rightarrow> nat list) \<Rightarrow> chain_kind \<Rightarrow> string \<Rightarrow> string option \<Rightarrow> check list" where
  "address_check keccak kind what addr = (case addr of None \<Rightarrow> []
     | Some a \<Rightarrow> (case address_parse keccak kind a of
          Inr _ \<Rightarrow> [] | Inl e \<Rightarrow> [(True, what @ '': '' @ error_display e)]))"

definition asset_checks :: "(nat list \<Rightarrow> nat list) \<Rightarrow> chain_config \<Rightarrow> string list \<Rightarrow> asset_config \<Rightarrow> check list" where
  "asset_checks keccak c seen a =
     [(ac_symbol a \<in> set seen, ''chain `'' @ ch_id c @ ''` has duplicate asset `'' @ ac_symbol a @ ''`''),
      (36 < ac_decimals a, ''asset `'' @ ac_symbol a @ ''` has implausible decimals'')] @
     address_check keccak (ch_kind c) (''asset `'' @ ac_symbol a @ ''` contract address'') (ac_contract_address a) @
     [(ac_withdrawals_enabled a \<and> ch_hot_wallet c = None,
       ''chain `'' @ ch_id c @ ''` enables withdrawals for `'' @ ac_symbol a @ ''` but has no hot_wallet_address'')]"

fun assets_checks :: "(nat list \<Rightarrow> nat list) \<Rightarrow> chain_config \<Rightarrow> string list \<Rightarrow> asset_config list \<Rightarrow> check list" where
  "assets_checks keccak c seen [] = []"
| "assets_checks keccak c seen (a # as) =
     asset_checks keccak c seen a @ assets_checks keccak c (ac_symbol a # seen) as"

definition chain_checks :: "(nat list \<Rightarrow> nat list) \<Rightarrow> bool \<Rightarrow> string list \<Rightarrow> chain_config \<Rightarrow> check list" where
  "chain_checks keccak production seen c =
     [(ch_id c \<in> set seen, ''duplicate chain id `'' @ ch_id c @ ''`''),
      (ch_rpc c = [], ''chain `'' @ ch_id c @ ''` has no rpc endpoints''),
      (ch_kind c = Evm \<and> ch_numeric_chain_id c = None,
       ''chain `'' @ ch_id c @ ''` is EVM and must set numeric_chain_id (EIP-155 replay protection)''),
      (ch_poll_interval_ms c = 0 \<or> ch_block_batch_size c = 0, ''chain `'' @ ch_id c @ ''` has a zero poll interval or batch'')] @
     (case required_confirmations (ch_finality c) of None \<Rightarrow> []
      | Some req \<Rightarrow> [(ch_reorg_scan_depth c \<le> req,
          ''chain `'' @ ch_id c @ ''`: reorg_scan_depth ('' @ show_nat (ch_reorg_scan_depth c) @
          '') must exceed required confirmations ('' @ show_nat req @
          ''); otherwise a reorg deeper than the credit threshold cannot be detected'')]) @
     endpoints_checks production (ch_id c) [] (ch_rpc c) @
     assets_checks keccak c [] (ch_assets c) @
     address_check keccak (ch_kind c) (''chain `'' @ ch_id c @ ''` hot wallet'') (ch_hot_wallet c) @
     [(ch_kind c = Solana, ''chain `'' @ ch_id c @ ''`: Solana is not implemented in v0.1; remove it from config'')]"

fun chains_checks :: "(nat list \<Rightarrow> nat list) \<Rightarrow> bool \<Rightarrow> string list \<Rightarrow> chain_config list \<Rightarrow> check list" where
  "chains_checks keccak production seen [] = []"
| "chains_checks keccak production seen (c # cs) =
     chain_checks keccak production seen c @ chains_checks keccak production (ch_id c # seen) cs"

definition limit_checks :: "risk_config \<Rightarrow> string \<times> amount \<Rightarrow> check list" where
  "limit_checks r km = (case km of (key, mn) \<Rightarrow>
     (case map_of (rc_max_per_request r) key of None \<Rightarrow> []
      | Some mx \<Rightarrow> [(mx < mn, ''risk: min_per_request > max_per_request for `'' @ key @ ''`'')]) @
     [(\<not> is_positive mn, ''risk: min_per_request for `'' @ key @ ''` must be positive'')])"

definition signer_checks :: "signer_config \<Rightarrow> check list" where
  "signer_checks sc = (case sc of MockSigner \<Rightarrow> []
     | LocalDevelopment private_key \<Rightarrow>
         let k = trim_start_matches2 (CHR ''0'') (CHR ''x'') (trim private_key)
         in [(length k \<noteq> 64 \<or> \<not> list_all is_hexdigit k, ''signer.private_key must be 32 bytes of hex'')])"

definition production_checks :: "app_config \<Rightarrow> check list" where
  "production_checks cfg =
     (if is_production_like cfg
      then [((case cfg_signer cfg of LocalDevelopment _ \<Rightarrow> True | MockSigner \<Rightarrow> True),
             ''environment `'' @ cfg_environment cfg @ ''` refuses to start with a development signer; '' @
             ''ChainRail ships no production key custody backend''),
            (hc_api_token (cfg_http cfg) = None, ''http.api_token is required outside local/test''),
            (oc_log_format (cfg_observability cfg) \<noteq> ''json'', ''structured JSON logging is required outside local/test'')]
      else [])"

definition validate_checks :: "(nat list \<Rightarrow> nat list) \<Rightarrow> app_config \<Rightarrow> check list" where
  "validate_checks keccak cfg =
     [(hc_max_page_size (cfg_http cfg) < hc_default_page_size (cfg_http cfg),
       ''http.max_page_size < http.default_page_size''),
      (hc_max_body_bytes (cfg_http cfg) = 0, ''http.max_body_bytes must be > 0''),
      (hc_rate_limit_rps (cfg_http cfg) = 0, ''http.rate_limit_rps must be > 0''),
      (dc_url (cfg_database cfg) = [], ''database.url is required''),
      (dc_max_connections (cfg_database cfg) < dc_min_connections (cfg_database cfg),
       ''database.max_connections < min_connections''),
      ((case oc_trace_sample_ratio (cfg_observability cfg) of None \<Rightarrow> True | Some r \<Rightarrow> \<not> (0 \<le> r \<and> r \<le> 1)),
       ''observability.trace_sample_ratio must be within [0,1]''),
      (oc_log_format (cfg_observability cfg) \<notin> {''json'', ''pretty''},
       ''observability.log_format must be `json` or `pretty`'')] @
     production_checks cfg @ signer_checks (cfg_signer cfg) @
     [(cfg_chains cfg = [], ''at least one chain must be configured'')] @
     chains_checks keccak (is_production_like cfg) [] (cfg_chains cfg) @
     map (\<lambda>chain. (cfg_chain cfg chain = None, ''risk.allowed_chains references unknown chain `'' @ chain @ ''`''))
       (rc_allowed_chains (cfg_risk cfg)) @
     concat (map (limit_checks (cfg_risk cfg)) (rc_min_per_request (cfg_risk cfg))) @
     map (\<lambda>d. (trim d = [], ''risk.destination_denylist contains an empty entry''))
       (rc_destination_denylist (cfg_risk cfg))"

definition validate :: "(nat list \<Rightarrow> nat list) \<Rightarrow> app_config \<Rightarrow> unit res" where
  "validate keccak cfg = run_checks (validate_checks keccak cfg)"

section \<open>What a validated configuration guarantees\<close>

definition passes :: "check list \<Rightarrow> bool" where
  "passes cs = (\<forall>c\<in>set cs. \<not> fst c)"

lemma passes_simps [simp]:
  "passes []" "passes (c # cs) \<longleftrightarrow> \<not> fst c \<and> passes cs" "passes (cs @ ds) \<longleftrightarrow> passes cs \<and> passes ds"
  "passes (concat css) \<longleftrightarrow> (\<forall>cs\<in>set css. passes cs)"
  by (auto simp: passes_def)

lemma passes_map [simp]: "passes (map (\<lambda>x. (P x, m x)) xs) \<longleftrightarrow> (\<forall>x\<in>set xs. \<not> P x)"
  by (auto simp: passes_def)

lemma run_checks_Inr: "run_checks cs = Inr () \<longleftrightarrow> passes cs"
  by (auto simp: run_checks_def passes_def find_None_set split: option.splits dest: find_Some_setD)

definition endpoint_ok :: "bool \<Rightarrow> rpc_endpoint_config \<Rightarrow> bool" where
  "endpoint_ok production ep \<longleftrightarrow>
     (starts_with ''https://'' (ec_url ep) \<or> starts_with ''http://'' (ec_url ep) \<and> \<not> production) \<and>
     0 < ec_timeout_ms ep \<and> 0 < ec_max_inflight ep \<and> 0 < ec_failure_threshold ep"

definition parses :: "(nat list \<Rightarrow> nat list) \<Rightarrow> string option \<Rightarrow> bool" where
  "parses keccak addr \<longleftrightarrow> (\<forall>a. addr = Some a \<longrightarrow> (\<exists>c. address_parse keccak Evm a = Inr c))"

definition asset_cfg_ok :: "(nat list \<Rightarrow> nat list) \<Rightarrow> chain_config \<Rightarrow> asset_config \<Rightarrow> bool" where
  "asset_cfg_ok keccak c a \<longleftrightarrow> ac_decimals a \<le> 36 \<and> parses keccak (ac_contract_address a) \<and>
     (ac_withdrawals_enabled a \<longrightarrow> ch_hot_wallet c \<noteq> None)"

definition chain_cfg_ok :: "(nat list \<Rightarrow> nat list) \<Rightarrow> bool \<Rightarrow> chain_config \<Rightarrow> bool" where
  "chain_cfg_ok keccak production c \<longleftrightarrow> ch_kind c = Evm \<and> ch_numeric_chain_id c \<noteq> None \<and> ch_rpc c \<noteq> [] \<and>
     0 < ch_poll_interval_ms c \<and> 0 < ch_block_batch_size c \<and>
     (\<forall>n. ch_finality c = Confirmations n \<longrightarrow> n < ch_reorg_scan_depth c) \<and>
     unique_key ec_name (ch_rpc c) \<and> (\<forall>ep\<in>set (ch_rpc c). endpoint_ok production ep) \<and>
     unique_key ac_symbol (ch_assets c) \<and> (\<forall>a\<in>set (ch_assets c). asset_cfg_ok keccak c a) \<and>
     parses keccak (ch_hot_wallet c)"

definition risk_cfg_ok :: "app_config \<Rightarrow> bool" where
  "risk_cfg_ok cfg \<longleftrightarrow> set (rc_allowed_chains (cfg_risk cfg)) \<subseteq> ch_id ` set (cfg_chains cfg) \<and>
     (\<forall>(key, mn)\<in>set (rc_min_per_request (cfg_risk cfg)). 0 < mn \<and>
        (\<forall>mx. map_of (rc_max_per_request (cfg_risk cfg)) key = Some mx \<longrightarrow> mn \<le> mx)) \<and>
     (\<forall>d\<in>set (rc_destination_denylist (cfg_risk cfg)). trim d \<noteq> [])"

definition app_cfg_ok :: "(nat list \<Rightarrow> nat list) \<Rightarrow> app_config \<Rightarrow> bool" where
  "app_cfg_ok keccak cfg \<longleftrightarrow>
     hc_default_page_size (cfg_http cfg) \<le> hc_max_page_size (cfg_http cfg) \<and> 0 < hc_max_body_bytes (cfg_http cfg) \<and>
     0 < hc_rate_limit_rps (cfg_http cfg) \<and> dc_url (cfg_database cfg) \<noteq> [] \<and>
     dc_min_connections (cfg_database cfg) \<le> dc_max_connections (cfg_database cfg) \<and>
     (\<exists>r. oc_trace_sample_ratio (cfg_observability cfg) = Some r \<and> 0 \<le> r \<and> r \<le> 1) \<and>
     oc_log_format (cfg_observability cfg) \<in> {''json'', ''pretty''} \<and> \<not> is_production_like cfg \<and>
     passes (signer_checks (cfg_signer cfg)) \<and>
     cfg_chains cfg \<noteq> [] \<and> unique_key ch_id (cfg_chains cfg) \<and>
     (\<forall>c\<in>set (cfg_chains cfg). chain_cfg_ok keccak False c) \<and> risk_cfg_ok cfg"

lemma http_or_https: "starts_with ''https://'' u \<Longrightarrow> \<not> starts_with ''http://'' u"
  by (auto simp: starts_with_def take_Suc split: list.splits dest!: arg_cong [of _ _ "\<lambda>xs. xs ! 4"])

lemma endpoint_checks_pass:
  "passes (endpoint_checks p chain seen ep) \<longleftrightarrow> ec_name ep \<notin> set seen \<and> endpoint_ok p ep"
  using http_or_https [of "ec_url ep"] by (auto simp: endpoint_checks_def endpoint_ok_def)

lemma endpoints_checks_pass:
  "passes (endpoints_checks p chain seen eps) \<longleftrightarrow>
     unique_key ec_name eps \<and> (\<forall>ep\<in>set eps. ec_name ep \<notin> set seen \<and> endpoint_ok p ep)"
  by (induction eps arbitrary: seen) (auto simp: endpoint_checks_pass)

lemma address_check_pass: "passes (address_check keccak Evm what addr) \<longleftrightarrow> parses keccak addr"
  by (auto simp: address_check_def parses_def split: option.splits sum.splits)

lemma assets_checks_pass:
  "ch_kind c = Evm \<Longrightarrow> passes (assets_checks keccak c seen as) \<longleftrightarrow>
     unique_key ac_symbol as \<and> (\<forall>a\<in>set as. ac_symbol a \<notin> set seen \<and> asset_cfg_ok keccak c a)"
  by (induction as arbitrary: seen) (auto simp: asset_checks_def asset_cfg_ok_def address_check_pass)

lemma chain_checks_pass:
  "passes (chain_checks keccak p seen c) \<longleftrightarrow> ch_id c \<notin> set seen \<and> chain_cfg_ok keccak p c"
proof (cases "ch_kind c")
  case Evm
  then show ?thesis
    by (cases "ch_finality c")
      (auto simp: chain_checks_def chain_cfg_ok_def endpoints_checks_pass assets_checks_pass address_check_pass)
qed (simp add: chain_checks_def chain_cfg_ok_def)

lemma chains_checks_pass:
  "passes (chains_checks keccak p seen cs) \<longleftrightarrow>
     unique_key ch_id cs \<and> (\<forall>c\<in>set cs. ch_id c \<notin> set seen \<and> chain_cfg_ok keccak p c)"
  by (induction cs arbitrary: seen) (auto simp: chain_checks_pass)

lemma limit_checks_pass:
  "passes (limit_checks r (key, mn)) \<longleftrightarrow> 0 < mn \<and> (\<forall>mx. map_of (rc_max_per_request r) key = Some mx \<longrightarrow> mn \<le> mx)"
  by (auto simp: limit_checks_def is_positive_def split: option.splits)

lemma production_checks_pass: "passes (production_checks cfg) \<longleftrightarrow> \<not> is_production_like cfg"
  by (auto simp: production_checks_def split: signer_config.splits)

lemma cfg_chain_None: "cfg_chain cfg i = None \<longleftrightarrow> i \<notin> ch_id ` set (cfg_chains cfg)"
  by (auto simp: cfg_chain_def find_None_set)

text \<open>
  C28: Validation is exact. A configuration boots exactly when it is well formed as a whole: page
  sizes, pools and sampling in range, every chain id, endpoint name and asset symbol unique, every
  chain EVM with a numeric id, a reorg window that exceeds its confirmations, endpoints over
  http(s), parseable addresses, a hot wallet wherever withdrawals are enabled, and risk limits that
  are positive and ordered on configured chains; both signer backends being development backends,
  no environment other than local, test and ci boots at all. Every refusal is a configuration error.
\<close>

theorem validate_exact:
  "case validate keccak cfg of Inr _ \<Rightarrow> app_cfg_ok keccak cfg | Inl e \<Rightarrow> \<not> app_cfg_ok keccak cfg \<and> (\<exists>m. e = Config m)"
proof -
  have risk: "(\<forall>km\<in>set ms. passes (limit_checks r km)) \<longleftrightarrow> (\<forall>(key, mn)\<in>set ms. 0 < mn \<and>
      (\<forall>mx. map_of (rc_max_per_request r) key = Some mx \<longrightarrow> mn \<le> mx))" for ms r
    by (auto simp: limit_checks_pass)
  have ratio: "\<not> (case q of None \<Rightarrow> True | Some r \<Rightarrow> \<not> (0 \<le> r \<and> r \<le> 1)) \<longleftrightarrow> (\<exists>r. q = Some r \<and> 0 \<le> r \<and> r \<le> 1)"
    for q :: "rat option" by (cases q) auto
  have "passes (validate_checks keccak cfg) \<longleftrightarrow> app_cfg_ok keccak cfg"
    unfolding validate_checks_def app_cfg_ok_def risk_cfg_ok_def
    by (simp add: risk ratio chains_checks_pass production_checks_pass cfg_chain_None not_less subset_eq del: not_le) (cases "is_production_like cfg"; simp add: image_iff)
  moreover have "validate keccak cfg = Inl e \<Longrightarrow> \<exists>m. e = Config m" for e
    by (auto simp: validate_def run_checks_def split: option.splits)
  moreover have "validate keccak cfg = Inr () \<longleftrightarrow> passes (validate_checks keccak cfg)"
    by (simp add: validate_def run_checks_Inr)
  ultimately show ?thesis by (cases "validate keccak cfg") auto
qed

end
