(* ===== verification/Withdrawal_Db.thy ===== *)
theory Withdrawal_Db
  imports Deposit_Run
begin

text \<open>
  Persistence of withdrawals (\<open>crates/database/src/repo/withdrawals.rs\<close>) over the tables of
  \<open>migrations/0005_withdrawals.sql\<close>: idempotent creation, compare-and-set transitions, the facts
  of a signed transaction, and the nonce counter of a hot wallet.
\<close>

record chain_nonce =
  cn_chain :: string
  cn_address :: string
  cn_next :: nat

record wd_db = chain_db +
  withdrawals :: "withdrawal list"
  nonces :: "chain_nonce list"

record new_withdrawal =
  nw_user :: uuid
  nw_asset :: uuid
  nw_chain :: string
  nw_destination :: address
  nw_amount :: amount
  nw_idempotency_key :: string
  nw_fingerprint :: string
  nw_correlation :: "string option"

datatype create_outcome = CreatedRow withdrawal | ExistingRow withdrawal

text \<open>The first \<open>CHECK\<close> constraint of the table that a row violates.\<close>

definition violated_check :: "withdrawal \<Rightarrow> string option" where
  "violated_check w =
     (if \<not> 0 < w_amount w then Some ''withdrawals_amount_positive''
      else if w_status w \<in> {WBroadcast, WConfirming, WCompleted} \<and> w_tx_hash w = None then Some ''withdrawals_broadcast_has_hash''
      else if (w_status w = WCompleted) \<noteq> (w_settle_tx w \<noteq> None \<and> w_completed_at w \<noteq> None)
      then Some ''withdrawals_completed_consistency''
      else if to_ascii_lowercase (w_destination w) \<noteq> w_destination w then Some ''withdrawals_destination_lowercase''
      else if w_status w = WFailed \<and> w_failure_code w = None then Some ''withdrawals_failure_consistency''
      else if length (w_idempotency_key w) < 8 \<or> 128 < length (w_idempotency_key w) then Some ''withdrawals_key_len''
      else if (case w_tx_hash w of Some h \<Rightarrow> to_ascii_lowercase h \<noteq> h | None \<Rightarrow> False) then Some ''withdrawals_tx_hash_lowercase''
      else None)"

definition check_row :: "withdrawal \<Rightarrow> unit res" where
  "check_row w = (case violated_check w of
     None \<Rightarrow> Inr () | Some c \<Rightarrow> Inl (Validation (''check constraint violated: '' @ c)))"

text \<open>One updated row: the transition trigger, then the checks.\<close>

definition check_update :: "withdrawal \<Rightarrow> withdrawal \<Rightarrow> unit res" where
  "check_update old new =
     (if \<not> withdrawals_guard_transition (withdrawal_status_str (w_status old)) (withdrawal_status_str (w_status new))
      then Inl (InvalidStateTransition ''withdrawal'' (withdrawal_status_str (w_status old)) (withdrawal_status_str (w_status new)))
      else check_row new)"

text \<open>\<open>UPDATE withdrawals SET ... WHERE ...\<close> with the number of rows it matched.\<close>

definition update_withdrawals ::
  "(withdrawal \<Rightarrow> bool) \<Rightarrow> (withdrawal \<Rightarrow> withdrawal) \<Rightarrow> ('x wd_db_scheme, nat) db_tx" where
  "update_withdrawals P f = (\<lambda>s.
     case find (\<lambda>w. P w \<and> check_update w (f w) \<noteq> Inr ()) (withdrawals s) of
       Some w \<Rightarrow> (case check_update w (f w) of Inl e \<Rightarrow> Inl e | Inr _ \<Rightarrow> Inr (0, s))
     | None \<Rightarrow> Inr (rows_affected P (withdrawals s), s\<lparr>withdrawals := upd_where P f (withdrawals s)\<rparr>))"

section \<open>The repository\<close>

definition create_withdrawal :: "new_withdrawal \<Rightarrow> ('x wd_db_scheme, create_outcome) db_tx" where
  "create_withdrawal n = (\<lambda>s.
     let row = (\<lambda>i s. \<lparr>w_id = i, w_user = nw_user n, w_asset = nw_asset n, w_chain = nw_chain n,
                  w_destination = storage_key (nw_destination n), w_amount = nw_amount n, w_status = WRequested,
                  w_idempotency_key = nw_idempotency_key n, w_fingerprint = nw_fingerprint n,
                  w_tx_hash = None, w_nonce = None, w_gas_limit = None, w_max_fee = None,
                  w_max_priority_fee = None, w_fee_paid = None, w_block_number = None, w_confirmations = 0,
                  w_broadcast_attempts = 0, w_reserve_tx = None, w_settle_tx = None, w_failure_code = None,
                  w_failure_reason = None, w_correlation = nw_correlation n, w_approved_at = None,
                  w_broadcast_at = None, w_completed_at = None, w_created_at = clock s\<rparr>)
     in case check_row (row [] s) of
          Inl e \<Rightarrow> Inl e
        | Inr _ \<Rightarrow>
       (case find (\<lambda>w. w_user w = nw_user n \<and> w_idempotency_key w = nw_idempotency_key n) (withdrawals s) of
          Some w \<Rightarrow> if w_fingerprint w \<noteq> nw_fingerprint n then Inl IdempotencyKeyConflict else Inr (ExistingRow w, s)
        | None \<Rightarrow>
            if nw_user n \<notin> u_id ` set (users s)
            then Inl (Validation ''referenced row does not exist (withdrawals_user_id_fkey)'')
            else if nw_asset n \<notin> as_id ` set (assets s)
            then Inl (Validation ''referenced row does not exist (withdrawals_asset_id_fkey)'')
            else tx_bind gen_uuid (\<lambda>i s.
              Inr (CreatedRow (row i s), s\<lparr>withdrawals := withdrawals s @ [row i s]\<rparr>)) s))"

definition get_withdrawal :: "uuid \<Rightarrow> ('x wd_db_scheme, withdrawal) db_tx" where
  "get_withdrawal i = (\<lambda>s. case find (\<lambda>w. w_id w = i) (withdrawals s) of
     None \<Rightarrow> Inl (NotFound ''withdrawal'') | Some w \<Rightarrow> Inr (w, s))"

definition lock_withdrawal :: "uuid \<Rightarrow> ('x wd_db_scheme, withdrawal) db_tx" where
  "lock_withdrawal i = get_withdrawal i"

definition list_withdrawals ::
  "uuid option \<Rightarrow> withdrawal_status option \<Rightarrow> (timestamp \<times> uuid) option \<Rightarrow> nat \<Rightarrow> 'x wd_db_scheme \<Rightarrow> withdrawal list" where
  "list_withdrawals user status after limit s =
     take limit (rev (sort_key (\<lambda>w. (w_created_at w, w_id w)) (filter (\<lambda>w.
       (case user of None \<Rightarrow> True | Some u \<Rightarrow> w_user w = u) \<and>
       (case status of None \<Rightarrow> True | Some st \<Rightarrow> w_status w = st) \<and>
       (case after of None \<Rightarrow> True | Some c \<Rightarrow> (w_created_at w, w_id w) < c)) (withdrawals s))))"

text \<open>\<open>locked\<close> are the rows another transaction holds, which \<open>SKIP LOCKED\<close> passes over.\<close>

definition claim_by_status ::
  "uuid set \<Rightarrow> string \<Rightarrow> withdrawal_status \<Rightarrow> nat \<Rightarrow> 'x wd_db_scheme \<Rightarrow> withdrawal list" where
  "claim_by_status locked chain status limit s =
     take limit (sort_key w_created_at
       (filter (\<lambda>w. w_chain w = chain \<and> w_status w = status \<and> w_id w \<notin> locked) (withdrawals s)))"

definition transition ::
  "uuid \<Rightarrow> withdrawal_status \<Rightarrow> withdrawal_status \<Rightarrow> ('x wd_db_scheme, bool) db_tx" where
  "transition i a b =
     tx_then (tx_lift (transition_to a b))
     (tx_bind (\<lambda>s. update_withdrawals (\<lambda>w. w_id w = i \<and> w_status w = a)
        (\<lambda>w. w\<lparr>w_status := b, w_approved_at := (if b = WApproved then Some (clock s) else w_approved_at w)\<rparr>) s)
      (\<lambda>n. tx_return (n = 1)))"

definition attach_reservation :: "uuid \<Rightarrow> uuid \<Rightarrow> ('x wd_db_scheme, unit) db_tx" where
  "attach_reservation i ltx =
     tx_then (update_withdrawals (\<lambda>w. w_id w = i) (\<lambda>w. w\<lparr>w_reserve_tx := Some ltx\<rparr>)) (tx_return ())"

record signed_tx_facts =
  sf_tx_hash :: hash32
  sf_nonce :: nat
  sf_gas_limit :: nat
  sf_max_fee :: amount
  sf_max_priority_fee :: amount

definition record_signed_transaction :: "uuid \<Rightarrow> signed_tx_facts \<Rightarrow> ('x wd_db_scheme, unit) db_tx" where
  "record_signed_transaction i f =
     tx_then (update_withdrawals (\<lambda>w. w_id w = i) (\<lambda>w. w\<lparr>w_tx_hash := Some (sf_tx_hash f), w_nonce := Some (sf_nonce f),
        w_gas_limit := Some (sf_gas_limit f), w_max_fee := Some (sf_max_fee f),
        w_max_priority_fee := Some (sf_max_priority_fee f), w_broadcast_attempts := w_broadcast_attempts w + 1\<rparr>))
     (tx_return ())"

definition db_mark_broadcast :: "uuid \<Rightarrow> ('x wd_db_scheme, bool) db_tx" where
  "db_mark_broadcast i = tx_bind (\<lambda>s. update_withdrawals (\<lambda>w. w_id w = i \<and> w_status w = WSigning)
     (\<lambda>w. w\<lparr>w_status := WBroadcast, w_broadcast_at := Some (clock s)\<rparr>) s) (\<lambda>n. tx_return (n = 1))"

definition wd_update_confirmations :: "uuid \<Rightarrow> nat \<Rightarrow> nat \<Rightarrow> ('x wd_db_scheme, unit) db_tx" where
  "wd_update_confirmations i block n =
     tx_then (update_withdrawals (\<lambda>w. w_id w = i \<and> w_status w \<in> {WBroadcast, WConfirming})
       (\<lambda>w. w\<lparr>w_block_number := Some block, w_confirmations := n,
              w_status := (if w_status w = WBroadcast then WConfirming else w_status w)\<rparr>)) (tx_return ())"

definition mark_completed :: "uuid \<Rightarrow> uuid \<Rightarrow> amount \<Rightarrow> ('x wd_db_scheme, bool) db_tx" where
  "mark_completed i ltx fee = tx_bind (\<lambda>s. update_withdrawals (\<lambda>w. w_id w = i \<and> w_status w \<in> {WBroadcast, WConfirming})
     (\<lambda>w. w\<lparr>w_status := WCompleted, w_settle_tx := Some ltx, w_fee_paid := Some fee,
            w_completed_at := Some (clock s)\<rparr>) s) (\<lambda>n. tx_return (n = 1))"

definition mark_failed :: "uuid \<Rightarrow> withdrawal_status \<Rightarrow> string \<Rightarrow> string \<Rightarrow> ('x wd_db_scheme, bool) db_tx" where
  "mark_failed i from_status code reason = tx_bind (update_withdrawals (\<lambda>w. w_id w = i \<and> w_status w = from_status)
     (\<lambda>w. w\<lparr>w_status := WFailed, w_failure_code := Some code, w_failure_reason := Some reason\<rparr>)) (\<lambda>n. tx_return (n = 1))"

definition sum_recent_withdrawals ::
  "uuid \<Rightarrow> uuid \<Rightarrow> timestamp \<Rightarrow> ('x wd_db_scheme, amount \<times> nat) db_tx" where
  "sum_recent_withdrawals user asset since = (\<lambda>s.
     let rows = filter (\<lambda>w. w_user w = user \<and> w_asset w = asset \<and> since \<le> w_created_at w \<and>
                           w_status w \<notin> {WFailed, WCancelled}) (withdrawals s)
     in case decode_amount (sum_list (map w_amount rows)) of
          Inl e \<Rightarrow> Inl e | Inr a \<Rightarrow> Inr ((a, length rows), s))"

text \<open>\<open>INSERT ... ON CONFLICT DO UPDATE ... RETURNING next_nonce - 1\<close>, one atomic statement.\<close>

definition allocate_nonce :: "string \<Rightarrow> string \<Rightarrow> nat \<Rightarrow> ('x wd_db_scheme, nat) db_tx" where
  "allocate_nonce chain address hint = (\<lambda>s.
     if to_ascii_lowercase address \<noteq> address
     then Inl (Validation ''check constraint violated: chain_nonces_lowercase'')
     else case find (\<lambda>n. cn_chain n = chain \<and> cn_address n = address) (nonces s) of
       None \<Rightarrow> Inr (hint, s\<lparr>nonces := nonces s @ [\<lparr>cn_chain = chain, cn_address = address, cn_next = hint + 1\<rparr>]\<rparr>)
     | Some n \<Rightarrow>
         let next_nonce = max (cn_next n) hint + 1
         in Inr (next_nonce - 1, s\<lparr>nonces := upd_where (\<lambda>n. cn_chain n = chain \<and> cn_address n = address)
                   (\<lambda>n. n\<lparr>cn_next := next_nonce\<rparr>) (nonces s)\<rparr>))"

end
