(* ===== verification/Withdrawal_Service.thy ===== *)
theory Withdrawal_Service
  imports Withdrawal_Db Config
begin

text \<open>
  Withdrawal requests (\<open>crates/withdrawals/src/service.rs\<close>): creation with its idempotent insert,
  risk decision and reservation in one transaction, operator approval and cancellation. The
  parameter \<open>digest\<close> is the hex Keccak-256 of the request fingerprint, \<open>keccak\<close> the hash of the
  address checksum, \<open>v5\<close> the UUIDv5 of an event id.
\<close>

record withdrawal_request =
  wr_user :: uuid
  wr_chain :: string
  wr_asset_symbol :: string
  wr_amount :: amount
  wr_destination :: string
  wr_idempotency_key :: string
  wr_correlation :: "string option"

definition fingerprint :: "(string \<Rightarrow> string) \<Rightarrow> withdrawal_request \<Rightarrow> string \<Rightarrow> string" where
  "fingerprint digest req destination_normalized =
     digest (wr_user req @ ''|'' @ wr_chain req @ ''|'' @ wr_asset_symbol req @ ''|'' @
             display_amount (wr_amount req) @ ''|'' @ destination_normalized)"

datatype create_result = CreateApproved withdrawal | CreatePending withdrawal | CreateIdempotent withdrawal

fun create_result_withdrawal :: "create_result \<Rightarrow> withdrawal" where
  "create_result_withdrawal (CreateApproved w) = w"
| "create_result_withdrawal (CreatePending w) = w"
| "create_result_withdrawal (CreateIdempotent w) = w"

fun create_is_new :: "create_result \<Rightarrow> bool" where
  "create_is_new (CreateIdempotent _) = False"
| "create_is_new _ = True"

text \<open>The checks before any database work.\<close>

definition validate_request ::
  "(nat list \<Rightarrow> nat list) \<Rightarrow> app_config \<Rightarrow> withdrawal_request \<Rightarrow> (chain_config \<times> asset_config \<times> address) res" where
  "validate_request keccak cfg req =
     (case cfg_chain cfg (wr_chain req) of
        None \<Rightarrow> Inl (UnsupportedChain (wr_chain req))
      | Some chain_cfg \<Rightarrow>
          if ch_kind chain_cfg \<noteq> Evm
          then Inl (UnsupportedChain (wr_chain req @ '': only EVM chains are supported in v0.1''))
          else (case chain_asset chain_cfg (wr_asset_symbol req) of
             None \<Rightarrow> Inl (UnsupportedAsset (wr_asset_symbol req @ '' on '' @ wr_chain req))
           | Some asset_cfg \<Rightarrow>
               (case address_parse keccak (ch_kind chain_cfg) (wr_destination req) of
                  Inl e \<Rightarrow> Inl e
                | Inr destination \<Rightarrow>
                    if \<not> is_positive (wr_amount req) then Inl (InvalidAmount ''amount must be positive'')
                    else if length (wr_idempotency_key req) < 8 \<or> 128 < length (wr_idempotency_key req)
                    then Inl (Validation ''idempotency_key must be between 8 and 128 characters'')
                    else Inr (chain_cfg, asset_cfg, destination))))"

text \<open>\<open>Utc::now() - Duration::hours(24)\<close>, in microseconds, the resolution of a \<open>timestamptz\<close>.\<close>

definition a_day_before :: "timestamp \<Rightarrow> timestamp" where
  "a_day_before now = now - 24 * 60 * 60 * 1000000"

text \<open>\<open>u32::try_from(daily_count.saturating_sub(1)).unwrap_or(u32::MAX)\<close>\<close>

definition own_row_excluded :: "nat \<Rightarrow> nat" where
  "own_row_excluded n = (let c = int n - 1 in if 0 \<le> c \<and> c \<le> int u32_max then nat c else u32_max)"

text \<open>For evaluation the bounds are compared as binary integers.\<close>

lemma a_day_before_code [code]: "a_day_before now = nat (int now - 86400000000)"
  by (simp add: a_day_before_def)

lemma own_row_excluded_code [code]:
  "own_row_excluded n = (if n = 0 then nat 4294967295 else nat (min (int n - 1) 4294967295))"
  by (auto simp: own_row_excluded_def Let_def min_def)

text \<open>How the request transaction ends when it does not fail.\<close>

datatype create_end = Replayed withdrawal | DeniedBy string string | Accepted bool uuid

definition risk_facts ::
  "withdrawal_request \<Rightarrow> chain_config \<Rightarrow> asset_config \<Rightarrow> asset \<Rightarrow> address \<Rightarrow> ('x wd_db_scheme, risk_input) db_tx" where
  "risk_facts req chain_cfg asset_cfg asset destination =
     tx_bind (user_balance UserAvailable (wr_user req) (as_id asset)) (\<lambda>available.
     tx_bind (\<lambda>s. sum_recent_withdrawals (wr_user req) (as_id asset) (a_day_before (clock s)) s) (\<lambda>(daily_total, daily_count).
     tx_bind (tx_read (owner_of_address (wr_chain req) (storage_key destination))) (\<lambda>owner.
     tx_return \<lparr>ri_chain = wr_chain req, ri_asset_symbol = wr_asset_symbol req, ri_amount = wr_amount req,
       ri_destination = storage_key destination,
       ri_hot_wallet = map_option to_ascii_lowercase (ch_hot_wallet chain_cfg),
       ri_available = available,
       ri_daily_total = (case checked_sub daily_total (wr_amount req) of Inl _ \<Rightarrow> 0 | Inr t \<Rightarrow> t),
       ri_daily_count = own_row_excluded daily_count,
       ri_is_foreign_deposit_address = (case owner of Some u \<Rightarrow> u \<noteq> wr_user req | None \<Rightarrow> False),
       ri_withdrawals_enabled = ac_withdrawals_enabled asset_cfg\<rparr>)))"

definition accept_tx ::
  "(string \<Rightarrow> uuid) \<Rightarrow> withdrawal_request \<Rightarrow> asset \<Rightarrow> address \<Rightarrow> string \<Rightarrow> bool \<Rightarrow> withdrawal \<Rightarrow> ('x wd_db_scheme, create_end) db_tx" where
  "accept_tx v5 req asset destination corr held w =
     tx_then (transition (w_id w) WRequested WValidated)
     (tx_bind (reserve_withdrawal (w_id w) (wr_user req) (as_id asset) (wr_amount req) (Some corr)) (\<lambda>reservation.
      tx_then (attach_reservation (w_id w) (post_result_id reservation))
      (tx_then (if held then tx_return True else transition (w_id w) WValidated WApproved)
      (tx_then (emit v5 (WithdrawalRequested \<lparr>wrq_withdrawal = w_id w, wrq_user = wr_user req, wrq_chain = wr_chain req,
                  wrq_asset = wr_asset_symbol req, wrq_amount = wr_amount req, wrq_destination = destination\<rparr>) corr (w_id w))
      (tx_return (Accepted held (w_id w)))))))"

definition create_tx ::
  "(string \<Rightarrow> string) \<Rightarrow> (string \<Rightarrow> uuid) \<Rightarrow> risk_engine \<Rightarrow> withdrawal_request \<Rightarrow> chain_config \<Rightarrow> asset_config \<Rightarrow> asset \<Rightarrow>
   address \<Rightarrow> string \<Rightarrow> ('x wd_db_scheme, create_end) db_tx" where
  "create_tx digest v5 risk req chain_cfg asset_cfg asset destination corr =
     tx_bind (create_withdrawal \<lparr>nw_user = wr_user req, nw_asset = as_id asset, nw_chain = wr_chain req,
                nw_destination = destination, nw_amount = wr_amount req,
                nw_idempotency_key = wr_idempotency_key req,
                nw_fingerprint = fingerprint digest req (storage_key destination),
                nw_correlation = Some corr\<rparr>) (\<lambda>created.
     case created of
       ExistingRow w \<Rightarrow> tx_return (Replayed w)
     | CreatedRow w \<Rightarrow>
         tx_bind (risk_facts req chain_cfg asset_cfg asset destination) (\<lambda>facts.
         case evaluate risk facts of
           Deny code message \<Rightarrow>
             tx_then (mark_failed (w_id w) WRequested code message) (tx_return (DeniedBy code message))
         | decision \<Rightarrow> accept_tx v5 req asset destination corr (requires_manual_approval decision) w))"

text \<open>\<open>fresh_corr\<close> is the correlation id generated when the client sent none.\<close>

definition create ::
  "(nat list \<Rightarrow> nat list) \<Rightarrow> (string \<Rightarrow> string) \<Rightarrow> (string \<Rightarrow> uuid) \<Rightarrow> app_config \<Rightarrow> risk_engine \<Rightarrow> string \<Rightarrow>
   withdrawal_request \<Rightarrow> 'x wd_db_scheme \<Rightarrow> create_result res \<times> 'x wd_db_scheme" where
  "create keccak digest v5 cfg risk fresh_corr req s =
     (case validate_request keccak cfg req of
        Inl e \<Rightarrow> (Inl e, s)
      | Inr (chain_cfg, asset_cfg, destination) \<Rightarrow>
          (case get_asset (wr_chain req) (wr_asset_symbol req) s of
             Inl e \<Rightarrow> (Inl e, s)
           | Inr (asset, _) \<Rightarrow>
               (case atomically (create_tx digest v5 risk req chain_cfg asset_cfg asset destination
                        (case wr_correlation req of Some c \<Rightarrow> c | None \<Rightarrow> fresh_corr)) s of
                  (Inl e, _) \<Rightarrow> (Inl e, s)
                | (Inr (Replayed w), _) \<Rightarrow> (Inr (CreateIdempotent w), s)
                | (Inr (DeniedBy code message), s') \<Rightarrow> (Inl (PolicyDenied code message), s')
                | (Inr (Accepted held i), s') \<Rightarrow>
                    (case get_withdrawal i s' of
                       Inl e \<Rightarrow> (Inl e, s')
                     | Inr (w, _) \<Rightarrow> (Inr (if held then CreatePending w else CreateApproved w), s')))))"

text \<open>A transaction followed by reading the row back from the pool.\<close>

definition then_get :: "uuid \<Rightarrow> ('x wd_db_scheme, unit) db_tx \<Rightarrow> 'x wd_db_scheme \<Rightarrow> withdrawal res \<times> 'x wd_db_scheme" where
  "then_get i m s = (case atomically m s of
     (Inl e, _) \<Rightarrow> (Inl e, s)
   | (Inr _, s') \<Rightarrow> (case get_withdrawal i s' of Inl e \<Rightarrow> (Inl e, s') | Inr (w, _) \<Rightarrow> (Inr w, s')))"

definition approve_tx :: "uuid \<Rightarrow> ('x wd_db_scheme, unit) db_tx" where
  "approve_tx i = tx_bind (lock_withdrawal i) (\<lambda>w.
     if w_status w \<noteq> WValidated
     then tx_fail (InvalidStateTransition ''withdrawal'' (withdrawal_status_str (w_status w)) ''approved'')
     else tx_then (transition i WValidated WApproved) (tx_return ()))"

definition approve :: "uuid \<Rightarrow> 'x wd_db_scheme \<Rightarrow> withdrawal res \<times> 'x wd_db_scheme" where
  "approve i = then_get i (approve_tx i)"

definition cancel_tx :: "uuid \<Rightarrow> ('x wd_db_scheme, unit) db_tx" where
  "cancel_tx i = tx_bind (lock_withdrawal i) (\<lambda>w.
     let status = w_status w
     in if funds_may_have_left status
        then tx_fail (Conflict (''withdrawal '' @ i @ '' is '' @ withdrawal_status_str status @
                                ''; a broadcast transaction cannot be cancelled''))
        else if withdrawal_is_terminal status
        then tx_fail (Conflict (''withdrawal '' @ i @ '' is already '' @ withdrawal_status_str status))
        else tx_then (if w_reserve_tx w \<noteq> None
                      then tx_then (release_reservation (w_id w) (w_user w) (w_asset w) (w_amount w) (w_correlation w)) (tx_return ())
                      else tx_return ())
             (tx_then (transition (w_id w) status WCancelled) (tx_return ())))"

definition cancel :: "uuid \<Rightarrow> string \<Rightarrow> 'x wd_db_scheme \<Rightarrow> withdrawal res \<times> 'x wd_db_scheme" where
  "cancel i reason = then_get i (cancel_tx i)"

definition service_get :: "uuid \<Rightarrow> 'x wd_db_scheme \<Rightarrow> withdrawal res" where
  "service_get i s = (case get_withdrawal i s of Inl e \<Rightarrow> Inl e | Inr (w, _) \<Rightarrow> Inr w)"

definition svc_chain_config :: "app_config \<Rightarrow> string \<Rightarrow> chain_config res" where
  "svc_chain_config cfg chain = (case cfg_chain cfg chain of None \<Rightarrow> Inl (UnsupportedChain chain) | Some c \<Rightarrow> Inr c)"

end
