(* ===== verification/Signing.thy ===== *)
theory Signing
  imports Config
begin

text \<open>
  The transaction types of the signer (\<open>crates/signer/src/lib.rs\<close>) and of the chain adapter
  (\<open>crates/chains-evm/src/adapter.rs\<close>), and the adapter as the record of the answers its node
  gives: the trait object the withdrawal pipeline calls.
\<close>

record evm_transaction_request =
  tr_chain_id :: nat
  tr_nonce :: nat
  tr_to :: address
  tr_value :: amount
  tr_data :: "nat list"
  tr_gas_limit :: nat
  tr_max_fee :: amount
  tr_max_priority_fee :: amount

definition max_fee_cost :: "evm_transaction_request \<Rightarrow> amount res" where
  "max_fee_cost r = checked_mul_u32 (tr_max_fee r) (if tr_gas_limit r \<le> u32_max then tr_gas_limit r else u32_max)"

datatype unsigned_transaction = UnsignedEvm evm_transaction_request

fun unsigned_chain_kind :: "unsigned_transaction \<Rightarrow> chain_kind" where
  "unsigned_chain_kind (UnsignedEvm _) = Evm"

record signed_transaction =
  st_raw :: "nat list"
  st_tx_hash :: hash32
  st_from :: address

datatype tx_status =
    TxUnknown
  | TxPending
  | TxMined nat hash32 nat bool amount

record withdrawal_intent =
  wi_destination :: address
  wi_amount :: amount
  wi_contract :: "address option"
  wi_nonce :: nat
  wi_from :: address

record chain_adapter =
  ad_head :: "nat res"
  ad_nonce_hint :: "address \<Rightarrow> nat res"
  ad_build :: "withdrawal_intent \<Rightarrow> unsigned_transaction res"
  ad_broadcast :: "signed_transaction \<Rightarrow> hash32 res"
  ad_status :: "hash32 \<Rightarrow> nat \<Rightarrow> tx_status res"

type_synonym signer = "unsigned_transaction \<Rightarrow> signed_transaction res"

end
