(* ===== verification/Actions.thy ===== *)
theory Actions
  imports Ledger_Run Tx_Steps
begin

text \<open>
  Code that runs several transactions: an action returns a result and always a state, because
  what was committed before an error stays committed. \<open>act_bind\<close> is again the \<open>?\<close> operator,
  \<open>act_fold\<close> a loop that an error leaves, and \<open>or_rollback\<close> a transaction whose body may decide to
  roll back (\<open>None\<close>) instead of committing.
\<close>

type_synonym ('s, 'a) act = "'s \<Rightarrow> 'a res \<times> 's"

definition act_return :: "'a \<Rightarrow> ('s, 'a) act" where
  "act_return a s = (Inr a, s)"

definition act_lift :: "'a res \<Rightarrow> ('s, 'a) act" where
  "act_lift r s = (r, s)"

definition act_bind :: "('s, 'a) act \<Rightarrow> ('a \<Rightarrow> ('s, 'b) act) \<Rightarrow> ('s, 'b) act" where
  "act_bind m f s = (case m s of (Inl e, s') \<Rightarrow> (Inl e, s') | (Inr a, s') \<Rightarrow> f a s')"

text \<open>\<open>match m.await { Ok(a) => f(a), Err(e) => g(e) }\<close>\<close>

definition act_match :: "('s, 'a) act \<Rightarrow> ('a \<Rightarrow> ('s, 'b) act) \<Rightarrow> (error \<Rightarrow> ('s, 'b) act) \<Rightarrow> ('s, 'b) act" where
  "act_match m f g s = (case m s of (Inl e, s') \<Rightarrow> g e s' | (Inr a, s') \<Rightarrow> f a s')"

fun act_fold :: "('a \<Rightarrow> 'b \<Rightarrow> ('s, 'b) act) \<Rightarrow> 'a list \<Rightarrow> 'b \<Rightarrow> ('s, 'b) act" where
  "act_fold f [] b = act_return b"
| "act_fold f (x # xs) b = act_bind (f x b) (act_fold f xs)"

text \<open>A query on the pool.\<close>

definition act_query :: "('s, 'a) db_tx \<Rightarrow> ('s, 'a) act" where
  "act_query m s = (case m s of Inl e \<Rightarrow> (Inl e, s) | Inr (a, _) \<Rightarrow> (Inr a, s))"

definition or_rollback :: "('x ledger_db_scheme, 'a option) db_tx \<Rightarrow> ('x ledger_db_scheme, 'a option) act" where
  "or_rollback m s = (case atomically m s of (Inl e, _) \<Rightarrow> (Inl e, s) | (Inr None, _) \<Rightarrow> (Inr None, s) | r \<Rightarrow> r)"

lemmas act_eval = act_return_def act_lift_def act_bind_def act_match_def act_query_def

text \<open>What the step rules say of actions: every outcome, errors included, is reached by a step.\<close>

context tx_steps
begin

definition acts :: "('s, 'a) act \<Rightarrow> bool" where
  "acts m \<longleftrightarrow> (\<forall>s. I s \<longrightarrow> R s (snd (m s)))"

lemma actsI: "(\<And>s. I s \<Longrightarrow> R s (snd (m s))) \<Longrightarrow> acts m"
  by (simp add: acts_def)

lemma actsD: "acts m \<Longrightarrow> I s \<Longrightarrow> R s (snd (m s))"
  by (simp add: acts_def)

lemma acts_return: "acts (act_return a)"
  by (simp add: acts_def act_return_def R_refl)

lemma acts_lift: "acts (act_lift r)"
  by (simp add: acts_def act_lift_def R_refl)

lemma acts_query: "acts (act_query m)"
  by (auto simp: acts_def act_query_def R_refl split: sum.split)

lemma acts_match:
  assumes "acts m" "\<And>a. acts (f a)" "\<And>e. acts (g e)"
  shows "acts (act_match m f g)"
proof (rule actsI)
  fix s assume "I s"
  then have "R s (snd (m s))" by (rule actsD [OF assms(1)])
  moreover from this have "I (snd (m s))" by (rule R_inv)
  ultimately show "R s (snd (act_match m f g s))"
    using actsD [OF assms(2)] actsD [OF assms(3)] R_trans
    by (cases "m s"; cases "fst (m s)") (auto simp: act_match_def)
qed

lemma acts_bind:
  assumes "acts m" "\<And>a. acts (f a)"
  shows "acts (act_bind m f)"
proof -
  have "act_bind m f = act_match m f (\<lambda>e. act_lift (Inl e))"
    by (auto simp: act_bind_def act_match_def act_lift_def split: sum.split prod.split)
  then show ?thesis using acts_match [OF assms acts_lift] by simp
qed

lemma acts_fold: "(\<And>x b. x \<in> set xs \<Longrightarrow> acts (f x b)) \<Longrightarrow> acts (act_fold f xs b)"
  by (induction xs arbitrary: b) (simp_all add: acts_return acts_bind)

lemma acts_if: "(c \<Longrightarrow> acts m) \<Longrightarrow> (\<not> c \<Longrightarrow> acts k) \<Longrightarrow> acts (if c then m else k)"
  by simp

lemma acts_option:
  "(x = None \<Longrightarrow> acts m) \<Longrightarrow> (\<And>y. x = Some y \<Longrightarrow> acts (f y)) \<Longrightarrow> acts (case x of None \<Rightarrow> m | Some y \<Rightarrow> f y)"
  by (cases x) simp_all

lemmas act_rules = acts_return acts_lift acts_query acts_match acts_bind acts_fold acts_if acts_option

end

end
