(* ===== verification/Withdrawal_Pipeline.thy ===== *)
theory Withdrawal_Pipeline
  imports Withdrawal_Service Signing Actions
begin

text \<open>
  The asynchronous withdrawal pipeline (\<open>crates/withdrawals/src/pipeline.rs\<close>): signing with the
  hash committed before the broadcast, recovery of stranded withdrawals, confirmation and
  settlement. Every database transaction of the code is one transaction body here, so that other
  workers may run between any two of them. The field \<open>sent\<close> is not part of the program: it logs
  every transaction handed to the network, whatever the node answered.
\<close>

record wd_net = wd_db +
  sent :: "signed_transaction list"

record pipeline_pass =
  pp_signed :: nat
  pp_broadcast :: nat
  pp_completed :: nat
  pp_failed :: nat
  pp_recovered :: nat
  pp_still_pending :: nat

definition pass_default :: pipeline_pass where
  "pass_default = \<lparr>pp_signed = 0, pp_broadcast = 0, pp_completed = 0, pp_failed = 0, pp_recovered = 0, pp_still_pending = 0\<rparr>"

definition did_work :: "pipeline_pass \<Rightarrow> bool" where
  "did_work p \<longleftrightarrow> 0 < pp_signed p + pp_broadcast p + pp_completed p + pp_failed p + pp_recovered p"

record withdrawal_pipeline =
  wp_cfg :: app_config
  wp_signer :: signer
  wp_adapters :: "(string \<times> chain_adapter) list"
  wp_batch_size :: nat
  wp_interval :: nat

definition pipeline_new ::
  "app_config \<Rightarrow> signer \<Rightarrow> (string \<times> chain_adapter) list \<Rightarrow> nat \<Rightarrow> withdrawal_pipeline" where
  "pipeline_new cfg signer adapters interval =
     \<lparr>wp_cfg = cfg, wp_signer = signer, wp_adapters = adapters, wp_batch_size = 25, wp_interval = interval\<rparr>"

definition pipeline_adapter :: "withdrawal_pipeline \<Rightarrow> string \<Rightarrow> chain_adapter res" where
  "pipeline_adapter p chain = (case map_of (wp_adapters p) chain of None \<Rightarrow> Inl (UnsupportedChain chain) | Some a \<Rightarrow> Inr a)"

definition native_symbol :: "string \<Rightarrow> string" where
  "native_symbol chain =
     (if starts_with ''bsc'' chain \<or> contains ''binance'' chain then ''BNB''
      else if starts_with ''polygon'' chain then ''POL'' else ''ETH'')"

definition may_resign :: "withdrawal_status \<Rightarrow> bool \<Rightarrow> bool" where
  "may_resign status has_recorded_nonce \<longleftrightarrow> status = WSigning \<and> has_recorded_nonce"

section \<open>Signing and broadcast\<close>

definition intent_of :: "withdrawal \<Rightarrow> asset \<Rightarrow> nat \<Rightarrow> address \<Rightarrow> withdrawal_intent" where
  "intent_of w asset nonce hot = \<lparr>wi_destination = w_destination w, wi_amount = w_amount w,
     wi_contract = as_contract asset, wi_nonce = nonce, wi_from = hot\<rparr>"

fun facts_of :: "unsigned_transaction \<Rightarrow> hash32 \<Rightarrow> nat \<Rightarrow> signed_tx_facts" where
  "facts_of (UnsignedEvm r) tx_hash nonce = \<lparr>sf_tx_hash = tx_hash, sf_nonce = nonce, sf_gas_limit = tr_gas_limit r,
     sf_max_fee = tr_max_fee r, sf_max_priority_fee = tr_max_priority_fee r\<rparr>"

text \<open>Phase 1: the nonce, the signature and its hash, committed together.\<close>

definition sign_tx ::
  "signer \<Rightarrow> chain_adapter \<Rightarrow> address \<Rightarrow> uuid \<Rightarrow> ('x wd_db_scheme, (signed_transaction \<times> nat) option) db_tx" where
  "sign_tx signer adapter hot i =
     tx_bind (lock_withdrawal i) (\<lambda>w.
     if w_status w \<noteq> WApproved then tx_return None
     else tx_bind (transition (w_id w) WApproved WSigning) (\<lambda>ok.
     if \<not> ok then tx_return None
     else tx_bind (get_asset_by_id (w_asset w)) (\<lambda>asset.
     tx_bind (allocate_nonce (w_chain w) (storage_key hot)
                (case ad_nonce_hint adapter hot of Inl _ \<Rightarrow> 0 | Inr n \<Rightarrow> n)) (\<lambda>nonce.
     tx_bind (tx_lift (ad_build adapter (intent_of w asset nonce hot))) (\<lambda>unsigned.
     tx_bind (tx_lift (signer unsigned)) (\<lambda>signed.
     tx_then (record_signed_transaction (w_id w) (facts_of unsigned (st_tx_hash signed) nonce))
     (tx_return (Some (signed, nonce)))))))))"

definition send :: "chain_adapter \<Rightarrow> signed_transaction \<Rightarrow> ('x wd_net_scheme, hash32) act" where
  "send adapter signed s = (ad_broadcast adapter signed, s\<lparr>sent := sent s @ [signed]\<rparr>)"

definition mark_broadcast_tx ::
  "(string \<Rightarrow> uuid) \<Rightarrow> uuid \<Rightarrow> hash32 \<Rightarrow> nat \<Rightarrow> ('x wd_db_scheme, unit option) db_tx" where
  "mark_broadcast_tx v5 i tx_hash nonce =
     tx_bind (lock_withdrawal i) (\<lambda>w.
     if w_status w \<noteq> WSigning then tx_return None
     else tx_then (db_mark_broadcast (w_id w))
     (tx_then (record_broadcast (w_id w) (w_asset w) (w_amount w) (w_correlation w))
     (tx_then (emit v5 (WithdrawalBroadcastEvent \<lparr>wbr_withdrawal = w_id w, wbr_user = w_user w, wbr_chain = w_chain w,
                 wbr_tx_hash = tx_hash, wbr_nonce = nonce\<rparr>)
                 (case w_correlation w of Some c \<Rightarrow> c | None \<Rightarrow> ''unknown'') (''broadcast:'' @ w_id w))
     (tx_return (Some ())))))"

definition mark_broadcast :: "(string \<Rightarrow> uuid) \<Rightarrow> uuid \<Rightarrow> hash32 \<Rightarrow> nat \<Rightarrow> ('x wd_net_scheme, unit option) act" where
  "mark_broadcast v5 i tx_hash nonce = or_rollback (mark_broadcast_tx v5 i tx_hash nonce)"

definition sign_and_broadcast ::
  "(string \<Rightarrow> uuid) \<Rightarrow> signer \<Rightarrow> chain_adapter \<Rightarrow> address \<Rightarrow> uuid \<Rightarrow> ('x wd_net_scheme, bool) act" where
  "sign_and_broadcast v5 signer adapter hot i =
     act_bind (or_rollback (sign_tx signer adapter hot i)) (\<lambda>r. case r of
       None \<Rightarrow> act_return False
     | Some (signed, nonce) \<Rightarrow>
         act_bind (send adapter signed) (\<lambda>_.
         act_bind (mark_broadcast v5 i (st_tx_hash signed) nonce) (\<lambda>_. act_return True)))"

section \<open>Failing before the broadcast\<close>

definition enqueue_failure :: "(string \<Rightarrow> uuid) \<Rightarrow> withdrawal \<Rightarrow> string \<Rightarrow> string \<Rightarrow> ('x wd_db_scheme, unit) db_tx" where
  "enqueue_failure v5 w code reason =
     emit v5 (WithdrawalFailed \<lparr>wfa_withdrawal = w_id w, wfa_user = w_user w, wfa_chain = w_chain w,
                wfa_code = code, wfa_reason = reason\<rparr>)
       (case w_correlation w of Some c \<Rightarrow> c | None \<Rightarrow> ''unknown'') (''failed:'' @ w_id w @ '':'' @ code)"

definition release_of :: "withdrawal \<Rightarrow> ('x wd_db_scheme, post_result) db_tx" where
  "release_of w = release_reservation (w_id w) (w_user w) (w_asset w) (w_amount w) (w_correlation w)"

definition fail_and_release_tx ::
  "(string \<Rightarrow> uuid) \<Rightarrow> withdrawal \<Rightarrow> string \<Rightarrow> string \<Rightarrow> ('x wd_db_scheme, bool option) db_tx" where
  "fail_and_release_tx v5 w code reason =
     tx_bind (lock_withdrawal (w_id w)) (\<lambda>locked.
     let status = w_status locked
     in if withdrawal_is_terminal status \<or> funds_may_have_left status then tx_return None
        else tx_then (if w_reserve_tx locked \<noteq> None then tx_then (release_of w) (tx_return ()) else tx_return ())
        (tx_bind (mark_failed (w_id w) status code reason) (\<lambda>failed.
         tx_then (enqueue_failure v5 w code reason) (tx_return (Some failed)))))"

definition fail_and_release ::
  "(string \<Rightarrow> uuid) \<Rightarrow> withdrawal \<Rightarrow> string \<Rightarrow> string \<Rightarrow> ('x wd_net_scheme, bool) act" where
  "fail_and_release v5 w code reason =
     act_bind (or_rollback (fail_and_release_tx v5 w code reason)) (\<lambda>r.
       act_return (case r of None \<Rightarrow> False | Some failed \<Rightarrow> failed))"

definition fail_before_broadcast :: "(string \<Rightarrow> uuid) \<Rightarrow> uuid \<Rightarrow> error \<Rightarrow> ('x wd_net_scheme, bool) act" where
  "fail_before_broadcast v5 i err =
     act_bind (act_query (get_withdrawal i)) (\<lambda>w.
     if w_status w = WSigning \<and> w_tx_hash w \<noteq> None then act_return False
     else fail_and_release v5 w (error_code err) (error_display err))"

definition approved_step ::
  "(string \<Rightarrow> uuid) \<Rightarrow> signer \<Rightarrow> chain_adapter \<Rightarrow> address \<Rightarrow> uuid \<Rightarrow> pipeline_pass \<Rightarrow> ('x wd_net_scheme, pipeline_pass) act" where
  "approved_step v5 signer adapter hot i pass =
     act_match (sign_and_broadcast v5 signer adapter hot i)
       (\<lambda>out. act_return (if out then pass\<lparr>pp_signed := pp_signed pass + 1, pp_broadcast := pp_broadcast pass + 1\<rparr> else pass))
       (\<lambda>e. act_bind (fail_before_broadcast v5 i e) (\<lambda>failed.
          act_return (if failed then pass\<lparr>pp_failed := pp_failed pass + 1\<rparr> else pass)))"

definition process_approved ::
  "(string \<Rightarrow> uuid) \<Rightarrow> withdrawal_pipeline \<Rightarrow> uuid set \<Rightarrow> string \<Rightarrow> ('x wd_net_scheme, pipeline_pass) act" where
  "process_approved v5 p locked chain =
     act_bind (act_lift (pipeline_adapter p chain)) (\<lambda>adapter.
     act_bind (act_lift (svc_chain_config (wp_cfg p) chain)) (\<lambda>chain_cfg.
     case ch_hot_wallet chain_cfg of
       None \<Rightarrow> act_lift (Inl (Config (''chain '' @ chain @ '' has no hot wallet'')))
     | Some hot \<Rightarrow>
         act_bind (act_query (tx_read (claim_by_status locked chain WApproved (wp_batch_size p)))) (\<lambda>claimed.
         act_fold (approved_step v5 (wp_signer p) adapter (to_ascii_lowercase hot)) (map w_id claimed) pass_default)))"

section \<open>Recovery\<close>

definition rebroadcast ::
  "(string \<Rightarrow> uuid) \<Rightarrow> withdrawal_pipeline \<Rightarrow> chain_adapter \<Rightarrow> withdrawal \<Rightarrow> ('x wd_net_scheme, unit) act" where
  "rebroadcast v5 p adapter w =
     act_bind (act_query (get_asset_by_id (w_asset w))) (\<lambda>asset.
     act_bind (act_lift (svc_chain_config (wp_cfg p) (w_chain w))) (\<lambda>chain_cfg.
     case ch_hot_wallet chain_cfg of
       None \<Rightarrow> act_lift (Inl (Config ''missing hot wallet''))
     | Some hot \<Rightarrow>
         (case w_nonce w of
            None \<Rightarrow> act_lift (Inl (Internal ''cannot re-broadcast without a recorded nonce''))
          | Some nonce \<Rightarrow>
              act_bind (act_lift (ad_build adapter (intent_of w asset nonce (to_ascii_lowercase hot)))) (\<lambda>unsigned.
              act_bind (act_lift (wp_signer p unsigned)) (\<lambda>signed.
              act_bind (send adapter signed) (\<lambda>_.
              act_bind (mark_broadcast v5 (w_id w) (st_tx_hash signed) nonce) (\<lambda>_. act_return ())))))))"

definition recover_step ::
  "(string \<Rightarrow> uuid) \<Rightarrow> withdrawal_pipeline \<Rightarrow> chain_adapter \<Rightarrow> nat \<Rightarrow> withdrawal \<Rightarrow> nat \<Rightarrow> ('x wd_net_scheme, nat) act" where
  "recover_step v5 p adapter head w recovered =
     (case w_tx_hash w of
        None \<Rightarrow> act_bind (fail_and_release v5 w ''signing_incomplete'' ''signing did not complete'')
                  (\<lambda>_. act_return (recovered + 1))
      | Some tx_hash \<Rightarrow>
          act_bind (act_lift (ad_status adapter tx_hash head)) (\<lambda>status.
          if status = TxUnknown
          then act_match (rebroadcast v5 p adapter w) (\<lambda>_. act_return (recovered + 1)) (\<lambda>_. act_return recovered)
          else act_bind (mark_broadcast v5 (w_id w) tx_hash (case w_nonce w of Some n \<Rightarrow> n | None \<Rightarrow> 0))
                 (\<lambda>_. act_return (recovered + 1))))"

definition recover_signing ::
  "(string \<Rightarrow> uuid) \<Rightarrow> withdrawal_pipeline \<Rightarrow> uuid set \<Rightarrow> string \<Rightarrow> ('x wd_net_scheme, nat) act" where
  "recover_signing v5 p locked chain =
     act_bind (act_lift (pipeline_adapter p chain)) (\<lambda>adapter.
     act_bind (act_query (tx_read (claim_by_status locked chain WSigning (wp_batch_size p)))) (\<lambda>candidates.
     if candidates = [] then act_return 0
     else act_bind (act_lift (ad_head adapter)) (\<lambda>head.
          act_fold (recover_step v5 p adapter head) candidates 0)))"

section \<open>Settlement\<close>

text \<open>Gas is booked when the chain's native asset is registered.\<close>

definition book_fee :: "withdrawal \<Rightarrow> amount \<Rightarrow> ('x wd_db_scheme, unit) db_tx" where
  "book_fee w fee = (\<lambda>s. case get_asset (w_chain w) (native_symbol (w_chain w)) s of
     Inl _ \<Rightarrow> Inr ((), s)
   | Inr (native, s') \<Rightarrow> tx_then (record_network_fee (w_id w) (as_id native) fee (w_correlation w)) (tx_return ()) s')"

definition settle_success_tx ::
  "(string \<Rightarrow> uuid) \<Rightarrow> withdrawal \<Rightarrow> nat \<Rightarrow> nat \<Rightarrow> amount \<Rightarrow> ('x wd_db_scheme, unit option) db_tx" where
  "settle_success_tx v5 w block_number confirmations fee =
     tx_bind (lock_withdrawal (w_id w)) (\<lambda>locked.
     let status = w_status locked
     in if status = WCompleted then tx_return None
        else if \<not> funds_may_have_left status
        then tx_fail (InvalidStateTransition ''withdrawal'' (withdrawal_status_str status) ''completed'')
        else tx_then (wd_update_confirmations (w_id w) block_number confirmations)
        (tx_bind (settle_withdrawal (w_id w) (w_user w) (w_asset w) (w_amount w) (w_correlation w)) (\<lambda>settle.
         tx_then (book_fee w fee)
         (tx_bind (mark_completed (w_id w) (post_result_id settle) fee) (\<lambda>marked.
          if \<not> marked then tx_return None
          else tx_bind (get_asset_by_id (w_asset w)) (\<lambda>asset.
               tx_then (emit v5 (WithdrawalCompleted \<lparr>wco_withdrawal = w_id w, wco_user = w_user w, wco_chain = w_chain w,
                   wco_tx_hash = (case w_tx_hash w of Some h \<Rightarrow> h | None \<Rightarrow> []), wco_asset = as_symbol asset,
                   wco_amount = w_amount w, wco_fee = fee, wco_ledger_tx = post_result_id settle\<rparr>)
                   (case w_correlation w of Some c \<Rightarrow> c | None \<Rightarrow> ''unknown'') (''completed:'' @ w_id w))
               (tx_return (Some ()))))))))"

definition settle_success ::
  "(string \<Rightarrow> uuid) \<Rightarrow> withdrawal \<Rightarrow> nat \<Rightarrow> nat \<Rightarrow> amount \<Rightarrow> ('x wd_net_scheme, unit option) act" where
  "settle_success v5 w block_number confirmations fee = or_rollback (settle_success_tx v5 w block_number confirmations fee)"

definition settle_failure_tx :: "(string \<Rightarrow> uuid) \<Rightarrow> withdrawal \<Rightarrow> amount \<Rightarrow> ('x wd_db_scheme, unit option) db_tx" where
  "settle_failure_tx v5 w fee =
     tx_bind (lock_withdrawal (w_id w)) (\<lambda>locked.
     let status = w_status locked
     in if withdrawal_is_terminal status then tx_return None
        else tx_then (reverse_broadcast (w_id w) (w_asset w) (w_amount w) (w_correlation w))
        (tx_then (release_of w)
        (tx_then (book_fee w fee)
        (tx_then (mark_failed (w_id w) status ''onchain_revert''
                    ''the withdrawal transaction reverted on chain; funds were returned'')
        (tx_then (enqueue_failure v5 w ''onchain_revert'' ''transaction reverted on chain'')
        (tx_return (Some ())))))))"

definition settle_failure :: "(string \<Rightarrow> uuid) \<Rightarrow> withdrawal \<Rightarrow> amount \<Rightarrow> ('x wd_net_scheme, unit option) act" where
  "settle_failure v5 w fee = or_rollback (settle_failure_tx v5 w fee)"

definition confirm_tx :: "withdrawal \<Rightarrow> nat \<Rightarrow> nat \<Rightarrow> ('x wd_db_scheme, unit option) db_tx" where
  "confirm_tx w block_number confirmations =
     tx_then (wd_update_confirmations (w_id w) block_number confirmations) (tx_return (Some ()))"

definition in_flight_step ::
  "(string \<Rightarrow> uuid) \<Rightarrow> chain_adapter \<Rightarrow> nat \<Rightarrow> nat \<Rightarrow> withdrawal \<Rightarrow> pipeline_pass \<Rightarrow> ('x wd_net_scheme, pipeline_pass) act" where
  "in_flight_step v5 adapter required head w pass =
     (case w_tx_hash w of
        None \<Rightarrow> act_return pass
      | Some tx_hash \<Rightarrow>
          act_bind (act_lift (ad_status adapter tx_hash head)) (\<lambda>status. case status of
            TxMined block_number _ confirmations success fee \<Rightarrow>
              if \<not> success
              then act_bind (settle_failure v5 w fee) (\<lambda>_. act_return (pass\<lparr>pp_failed := pp_failed pass + 1\<rparr>))
              else if required \<le> confirmations
              then act_bind (settle_success v5 w block_number confirmations fee)
                     (\<lambda>_. act_return (pass\<lparr>pp_completed := pp_completed pass + 1\<rparr>))
              else act_bind (or_rollback (confirm_tx w block_number confirmations))
                     (\<lambda>_. act_return (pass\<lparr>pp_still_pending := pp_still_pending pass + 1\<rparr>))
          | _ \<Rightarrow> act_return (pass\<lparr>pp_still_pending := pp_still_pending pass + 1\<rparr>)))"

definition process_in_flight ::
  "(string \<Rightarrow> uuid) \<Rightarrow> withdrawal_pipeline \<Rightarrow> uuid set \<Rightarrow> string \<Rightarrow> ('x wd_net_scheme, pipeline_pass) act" where
  "process_in_flight v5 p locked chain =
     act_bind (act_lift (pipeline_adapter p chain)) (\<lambda>adapter.
     act_bind (act_lift (svc_chain_config (wp_cfg p) chain)) (\<lambda>chain_cfg.
     act_bind (act_lift (ad_head adapter)) (\<lambda>head.
     act_bind (act_query (tx_read (claim_by_status locked chain WBroadcast (wp_batch_size p)))) (\<lambda>bc.
     act_bind (act_query (tx_read (claim_by_status locked chain WConfirming (wp_batch_size p)))) (\<lambda>cf.
     act_fold (in_flight_step v5 adapter
                 (case required_confirmations (ch_finality chain_cfg) of Some n \<Rightarrow> n | None \<Rightarrow> 1) head)
       (bc @ cf) pass_default)))))"

section \<open>One pass\<close>

text \<open>
  The node may answer differently in the three stages of a pass, so each stage has the pipeline
  with the answers of its time; only the adapters differ.
\<close>

definition chain_pass ::
  "(string \<Rightarrow> uuid) \<Rightarrow> withdrawal_pipeline \<Rightarrow> withdrawal_pipeline \<Rightarrow> withdrawal_pipeline \<Rightarrow> uuid set \<Rightarrow> chain_config \<Rightarrow>
   pipeline_pass \<Rightarrow> ('x wd_net_scheme, pipeline_pass) act" where
  "chain_pass v5 p1 p2 p3 locked chain_cfg acc =
     act_bind (recover_signing v5 p1 locked (ch_id chain_cfg)) (\<lambda>recovered.
     act_bind (process_approved v5 p2 locked (ch_id chain_cfg)) (\<lambda>pass.
     act_bind (process_in_flight v5 p3 locked (ch_id chain_cfg)) (\<lambda>confirm.
     act_return (acc\<lparr>pp_recovered := pp_recovered acc + recovered,
       pp_signed := pp_signed acc + pp_signed pass, pp_broadcast := pp_broadcast acc + pp_broadcast pass,
       pp_failed := pp_failed acc + pp_failed pass + pp_failed confirm,
       pp_completed := pp_completed acc + pp_completed confirm,
       pp_still_pending := pp_still_pending acc + pp_still_pending confirm\<rparr>))))"

definition run_once ::
  "(string \<Rightarrow> uuid) \<Rightarrow> withdrawal_pipeline \<Rightarrow> withdrawal_pipeline \<Rightarrow> withdrawal_pipeline \<Rightarrow> uuid set \<Rightarrow>
   ('x wd_net_scheme, pipeline_pass) act" where
  "run_once v5 p1 p2 p3 locked =
     act_fold (chain_pass v5 p1 p2 p3 locked) (cfg_chains (wp_cfg p1)) pass_default"

end
