(* ===== verification/Withdrawal_Inv.thy ===== *)
theory Withdrawal_Inv
  imports Withdrawal_Pipeline
begin

text \<open>
  The invariant of the withdrawal side. Five postings mark the life of a withdrawal in the ledger,
  each under its own idempotency key; what the ledger holds in the reserved and clearing accounts,
  and what it still owes a user, is determined by the set of postings made so far. That part, the
  core, holds after every single operation, also in the middle of a transaction; that the status of
  a row agrees with its postings holds between transactions.
\<close>

section \<open>The postings of a withdrawal\<close>

datatype stage = Reserved | Released | Sent | Settled | Returned

fun stage_key :: "stage \<Rightarrow> uuid \<Rightarrow> string" where
  "stage_key Reserved i = ''withdrawal_reserve:'' @ i"
| "stage_key Released i = ''withdrawal_release:'' @ i"
| "stage_key Sent i = ''withdrawal_broadcast:'' @ i"
| "stage_key Settled i = ''withdrawal_settle:'' @ i"
| "stage_key Returned i = ''withdrawal_broadcast_reversal:'' @ i"

fun stage_legs :: "stage \<Rightarrow> uuid \<Rightarrow> uuid \<Rightarrow> amount \<Rightarrow> (account_key \<times> direction \<times> amount) list" where
  "stage_legs Reserved u x m = [((UserAvailable, Some u, x), Debit, m), ((UserReserved, Some u, x), Credit, m)]"
| "stage_legs Released u x m = [((UserReserved, Some u, x), Debit, m), ((UserAvailable, Some u, x), Credit, m)]"
| "stage_legs Sent u x m = [((WithdrawalClearing, None, x), Debit, m), ((ExchangeCustody, None, x), Credit, m)]"
| "stage_legs Settled u x m = [((UserReserved, Some u, x), Debit, m), ((WithdrawalClearing, None, x), Credit, m)]"
| "stage_legs Returned u x m = [((ExchangeCustody, None, x), Debit, m), ((WithdrawalClearing, None, x), Credit, m)]"

lemma stage_key_inject [simp]: "stage_key t i = stage_key t' j \<longleftrightarrow> t = t' \<and> i = j"
  by (cases t; cases t') auto

lemma stage_key_deposit [simp]:
  "stage_key t i \<noteq> credit_key j" "stage_key t i \<noteq> reversal_key j" "stage_key t i \<notin> deposit_keys"
  by (cases t; auto simp: credit_key_def reversal_key_def deposit_keys_def)+

definition stages :: "'x ledger_db_scheme \<Rightarrow> uuid \<Rightarrow> stage set" where
  "stages s i = {t. posted_key s (stage_key t i)}"

text \<open>What a withdrawal with the postings \<open>T\<close> has reserved, in flight, and taken from the user.\<close>

definition held :: "stage set \<Rightarrow> int" where
  "held T = of_bool (Reserved \<in> T) - of_bool (Released \<in> T) - of_bool (Settled \<in> T)"

definition flying :: "stage set \<Rightarrow> int" where
  "flying T = of_bool (Sent \<in> T) - of_bool (Settled \<in> T) - of_bool (Returned \<in> T)"

definition paid :: "stage set \<Rightarrow> int" where
  "paid T = of_bool (Settled \<in> T)"

definition wd_sum :: "(stage set \<Rightarrow> int) \<Rightarrow> (withdrawal \<Rightarrow> bool) \<Rightarrow> 'x wd_db_scheme \<Rightarrow> int" where
  "wd_sum h P s = sum_list (map (\<lambda>w. if P w then w_amount w * h (stages s (w_id w)) else 0) (withdrawals s))"

definition of_user :: "uuid \<Rightarrow> uuid \<Rightarrow> withdrawal \<Rightarrow> bool" where
  "of_user u x w \<longleftrightarrow> w_user w = u \<and> w_asset w = x"

definition of_asset :: "uuid \<Rightarrow> withdrawal \<Rightarrow> bool" where
  "of_asset x w \<longleftrightarrow> w_asset w = x"

definition books :: "'x wd_db_scheme \<Rightarrow> bool" where
  "books s \<longleftrightarrow>
     (\<forall>u x. balance_of s (UserReserved, Some u, x) = wd_sum held (of_user u x) s) \<and>
     (\<forall>x. balance_of s (WithdrawalClearing, None, x) = wd_sum flying (of_asset x) s) \<and>
     (\<forall>u x. user_position s u x = credited_total s u x - wd_sum paid (of_user u x) s)"

definition wd_core :: "'x wd_db_scheme \<Rightarrow> bool" where
  "wd_core s \<longleftrightarrow> chain_inv s \<and> unique_key w_id (withdrawals s) \<and> w_id ` set (withdrawals s) \<subseteq> used_ids s \<and>
     (\<forall>i. stages s i \<noteq> {} \<longrightarrow> i \<in> w_id ` set (withdrawals s)) \<and> books s"

lemma wd_core_chain: "wd_core s \<Longrightarrow> chain_inv s"
  by (simp add: wd_core_def)

lemma wd_core_ledger: "wd_core s \<Longrightarrow> ledger_inv s"
  by (simp add: wd_core_def chain_inv_ledger)

section \<open>What an operation leaves alone\<close>

definition row :: "'x wd_db_scheme \<Rightarrow> uuid \<Rightarrow> withdrawal option" where
  "row s i = find (\<lambda>w. w_id w = i) (withdrawals s)"

text \<open>An operation on withdrawal \<open>i\<close> touches no other withdrawal and no deposit.\<close>

definition touches :: "uuid \<Rightarrow> 'x wd_db_scheme \<Rightarrow> 'x wd_db_scheme \<Rightarrow> bool" where
  "touches i s s' \<longleftrightarrow> (\<forall>j. j \<noteq> i \<longrightarrow> row s' j = row s j \<and> stages s' j = stages s j) \<and>
     deposits s' = deposits s \<and> wd_db.more s' = wd_db.more s \<and> (\<forall>x. asset_position s' x = asset_position s x)"

lemma touches_refl [simp]: "touches i s s"
  by (simp add: touches_def)

lemma touches_trans: "touches i s t \<Longrightarrow> touches i t u \<Longrightarrow> touches i s u"
  by (simp add: touches_def)

text \<open>The state seen from withdrawal \<open>i\<close>: its row, its postings and the nonce counters.\<close>

definition view :: "uuid \<Rightarrow> withdrawal \<Rightarrow> stage set \<Rightarrow> chain_nonce list \<Rightarrow> 'x wd_db_scheme \<Rightarrow> bool" where
  "view i w T ns s \<longleftrightarrow> wd_core s \<and> row s i = Some w \<and> stages s i = T \<and> nonces s = ns"

lemma view_core: "view i w T ns s \<Longrightarrow> wd_core s"
  by (simp add: view_def)

lemma view_row: "view i w T ns s \<Longrightarrow> w \<in> set (withdrawals s) \<and> w_id w = i"
  by (auto simp: view_def row_def dest: find_Some_setD)

lemma view_of_mem:
  assumes "wd_core s" "w \<in> set (withdrawals s)"
  shows "view (w_id w) w (stages s (w_id w)) (nonces s) s"
  using assms find_key_Some [of w_id "withdrawals s" "w_id w" w] by (simp add: view_def row_def wd_core_def)

section \<open>Postings\<close>

lemma sum_list_change:
  fixes g g' :: "'r \<Rightarrow> int"
  assumes "unique_key k rows" "a \<in> set rows" "\<And>r. r \<in> set rows \<Longrightarrow> k r \<noteq> k a \<Longrightarrow> g' r = g r"
  shows "sum_list (map g' rows) = sum_list (map g rows) + (g' a - g a)"
  using assms
proof (induction rows)
  case (Cons r rows)
  show ?case
  proof (cases "k r = k a")
    case True
    then have "r = a" using Cons.prems by auto
    moreover have "map g' rows = map g rows"
      using Cons.prems(1,3) True by (intro map_cong refl) auto
    ultimately show ?thesis by (simp del: map_eq_conv)
  next
    case False
    then have "sum_list (map g' rows) = sum_list (map g rows) + (g' a - g a)"
      using Cons.prems by (intro Cons.IH) auto
    moreover have "g' r = g r" using Cons.prems(3) [of r] False by simp
    ultimately show ?thesis by simp
  qed
qed simp

lemma books_cong:
  assumes "books s" "withdrawals s' = withdrawals s" "stages s' = stages s" "deposits s' = deposits s"
    "\<And>t o2 x. t \<in> {UserAvailable, UserReserved, UserDeficit, WithdrawalClearing} \<Longrightarrow>
      balance_of s' (t, o2, x) = balance_of s (t, o2, x)"
  shows "books s'"
proof -
  have "wd_sum h P s' = wd_sum h P s" for h P using assms(2,3) by (simp add: wd_sum_def cong: if_cong)
  moreover have "user_position s' u x = user_position s u x" "credited_total s' u x = credited_total s u x" for u x
    using assms(4,5) by (simp_all add: user_position_def credited_total_def)
  ultimately show ?thesis using assms(1,5) by (simp add: books_def)
qed

lemma posts_wd:
  fixes s s' :: "'x wd_db_scheme"
  assumes "posts key legs r s s'"
  shows "withdrawals s' = withdrawals s" "nonces s' = nonces s" "wd_db.more s' = wd_db.more s"
    "deposits s' = deposits s" "\<And>x. asset_position s' x = asset_position s x" "used_ids s \<subseteq> used_ids s'"
proof -
  have m: "ledger_db.more s' = ledger_db.more s"
    using assms by (simp add: posts_def ledger_extends_def ledger_frame_def)
  then have "chain_db.more s' = chain_db.more s" using ledger_more_chain by blast
  then show "withdrawals s' = withdrawals s" "nonces s' = nonces s" "wd_db.more s' = wd_db.more s"
    by (cases s; cases s'; simp)+
  show "deposits s' = deposits s" using posts_chain(1) [OF assms] by (simp add: chain_same_def)
  show "used_ids s \<subseteq> used_ids s'" by (rule posts_chain(4) [OF assms])
  show "asset_position s' x = asset_position s x" for x using assms by (simp add: posts_def)
qed

lemma posts_chain_inv:
  fixes s s' :: "'x chain_db_scheme"
  assumes "posts key legs r s s'" "key \<notin> deposit_keys" "chain_inv s"
  shows "chain_inv s'"
proof -
  note c = posts_chain [OF assms(1), unfolded chain_same_def]
  have pk: "posted_key s' (credit_key i) = posted_key s (credit_key i)"
    "posted_key s' (reversal_key i) = posted_key s (reversal_key i)" for i
    using assms(2) by (auto simp: posts_posted_key [OF assms(1)] deposit_keys_def)
  have "deposit_ok s' d = deposit_ok s d" for d by (simp add: deposit_ok_def pk)
  moreover have "ledger_inv s'" using assms(1) by (simp add: posts_def)
  ultimately show ?thesis using assms(3) c unfolding chain_inv_def pk by auto
qed

lemma posts_stages:
  assumes "posts (stage_key t i) legs r s s'"
  shows "stages s' j = (if j = i then insert t (stages s j) else stages s j)"
  using posts_posted_key [OF assms] by (auto simp: stages_def)

lemma wd_sum_post:
  assumes "posts (stage_key t (w_id w)) legs r s s'" "wd_core s" "w \<in> set (withdrawals s)"
  shows "wd_sum h P s' = wd_sum h P s +
    (if P w then w_amount w * (h (insert t (stages s (w_id w))) - h (stages s (w_id w))) else 0)"
  unfolding wd_sum_def posts_wd(1) [OF assms(1)]
  using sum_list_change [of w_id "withdrawals s" w
      "\<lambda>w. if P w then w_amount w * h (stages s' (w_id w)) else 0" "\<lambda>w. if P w then w_amount w * h (stages s (w_id w)) else 0"]
    assms(2,3)
  by (auto simp: posts_stages [OF assms(1)] wd_core_def algebra_simps)

lemma stage_post_books:
  assumes p: "posts (stage_key t (w_id w)) (stage_legs t (w_user w) (w_asset w) (w_amount w)) r s s'"
    and core: "wd_core s" and w: "w \<in> set (withdrawals s)" and fresh: "t \<notin> stages s (w_id w)"
  shows "books s'"
proof -
  have np: "\<not> posted_key s (stage_key t (w_id w))" using fresh by (simp add: stages_def)
  note sm = wd_sum_post [OF p core w] and bal = posts_balance [OF p np] and pos = posts_position [OF p np]
  have cr: "credited_total s' u x = credited_total s u x" for u x
    by (simp add: credited_total_def posts_wd(4) [OF p])
  have b: "books s" using core by (simp add: wd_core_def)
  have f: "of_bool (a \<in> insert t T) = (if a = t then 1 else of_bool (a \<in> T) :: int)" for a T by auto
  have n: "(of_bool (t \<in> stages s (w_id w)) :: int) = 0" using fresh by simp
  show ?thesis
    using b n unfolding books_def sm bal pos cr
    by (cases t)
      (auto simp: held_def flying_def paid_def of_user_def of_asset_def f leg_delta_def natural_delta_def algebra_simps)
qed

lemma stage_post:
  fixes s s' :: "'x wd_db_scheme"
  assumes v: "view i w T ns s"
    and p: "posts (stage_key t i) (stage_legs t (w_user w) (w_asset w) (w_amount w)) r s s'"
  shows "view i w (insert t T) ns s' \<and> touches i s s'"
proof -
  have core: "wd_core s" and w: "w \<in> set (withdrawals s)" and i: "w_id w = i"
    using v view_row [OF v] by (auto simp: view_def)
  note s' = posts_wd [OF p]
  have books: "books s'"
  proof (cases "t \<in> stages s i")
    case True
    then have "abs_ledger s' = abs_ledger s"
      using p by (auto simp: posts_def apost_def stages_def posted_key_def abs_ledger_def)
    then have "balance_of s' = balance_of s" by (simp add: abs_ledger_def)
    moreover have "stages s' = stages s" using True by (auto simp: posts_stages [OF p] fun_eq_iff)
    moreover have "books s" using core by (simp add: wd_core_def)
    ultimately show ?thesis using s'(1,4) by (intro books_cong [of s s']) simp_all
  next
    case False
    with stage_post_books [of t w r s s'] p core w i show ?thesis by simp
  qed
  have "chain_inv s'" by (rule posts_chain_inv [OF p _ wd_core_chain [OF core]]) simp
  moreover have "\<forall>j. stages s' j \<noteq> {} \<longrightarrow> j \<in> w_id ` set (withdrawals s')"
    using core w i by (auto simp: posts_stages [OF p] s'(1) wd_core_def)
  ultimately have "wd_core s'" using core books s' by (auto simp: wd_core_def)
  then show ?thesis using v s'
    by (auto simp: view_def touches_def row_def posts_stages [OF p])
qed

lemma other_post:
  fixes s s' :: "'x wd_db_scheme"
  assumes p: "posts key legs r s s'" and core: "wd_core s" and k: "key \<notin> deposit_keys" "\<And>t i. key \<noteq> stage_key t i"
    and z: "\<And>t o2 x. t \<in> {UserAvailable, UserReserved, UserDeficit, WithdrawalClearing} \<Longrightarrow>
      sum_list (map (leg_delta (t, o2, x)) legs) = 0"
  shows "wd_core s' \<and> stages s' = stages s"
proof -
  note s' = posts_wd [OF p]
  have st: "stages s' = stages s"
    using k(2) by (auto simp: fun_eq_iff stages_def posts_posted_key [OF p])
  have bal: "balance_of s' (t, o2, x) = balance_of s (t, o2, x)"
    if "t \<in> {UserAvailable, UserReserved, UserDeficit, WithdrawalClearing}" for t o2 x
  proof (cases "posted_key s key")
    case True
    then have "abs_ledger s' = abs_ledger s"
      using p by (auto simp: posts_def apost_def posted_key_def abs_ledger_def)
    then show ?thesis by (simp add: abs_ledger_def)
  qed (simp add: posts_balance [OF p] z [OF that])
  then have "books s'" using core s'(1,4) st by (intro books_cong [of s s']) (simp_all add: wd_core_def)
  moreover have "chain_inv s'" by (rule posts_chain_inv [OF p k(1) wd_core_chain [OF core]])
  ultimately show ?thesis using core s' by (auto simp: wd_core_def st)
qed

text \<open>A posting that is none of the five leaves every view alone.\<close>

lemma other_post_view:
  fixes s s' :: "'x wd_db_scheme"
  assumes v: "view i w T ns s" and p: "posts key legs r s s'" and k: "key \<notin> deposit_keys" "\<And>t i. key \<noteq> stage_key t i"
    and z: "\<And>t o2 x. t \<in> {UserAvailable, UserReserved, UserDeficit, WithdrawalClearing} \<Longrightarrow>
      sum_list (map (leg_delta (t, o2, x)) legs) = 0"
  shows "view i w T ns s' \<and> touches i s s'"
  using other_post [OF p view_core [OF v] k z] v posts_wd [OF p] by (simp add: view_def touches_def row_def)

section \<open>Updates of the row\<close>

definition same_claim :: "withdrawal \<Rightarrow> withdrawal \<Rightarrow> bool" where
  "same_claim w w' \<longleftrightarrow> w_id w' = w_id w \<and> w_user w' = w_user w \<and> w_asset w' = w_asset w \<and> w_amount w' = w_amount w \<and>
     w_chain w' = w_chain w"

lemma update_withdrawals_Inr:
  assumes "update_withdrawals P f s = Inr (n, s')"
  shows "s' = s\<lparr>withdrawals := upd_where P f (withdrawals s)\<rparr>" "n = rows_affected P (withdrawals s)"
    "\<And>w. w \<in> set (withdrawals s) \<Longrightarrow> P w \<Longrightarrow> check_update w (f w) = Inr ()"
proof -
  have none: "find (\<lambda>w. P w \<and> check_update w (f w) \<noteq> Inr ()) (withdrawals s) = None"
  proof (rule ccontr)
    assume "find (\<lambda>w. P w \<and> check_update w (f w) \<noteq> Inr ()) (withdrawals s) \<noteq> None"
    then obtain w where w: "find (\<lambda>w. P w \<and> check_update w (f w) \<noteq> Inr ()) (withdrawals s) = Some w" by blast
    then have "check_update w (f w) \<noteq> Inr ()" using find_Some_setD by fast
    with w assms show False by (auto simp: update_withdrawals_def split: sum.splits)
  qed
  with assms show "s' = s\<lparr>withdrawals := upd_where P f (withdrawals s)\<rparr>" "n = rows_affected P (withdrawals s)"
    by (simp_all add: update_withdrawals_def)
  show "check_update w (f w) = Inr ()" if "w \<in> set (withdrawals s)" "P w" for w
    using none that by (auto simp: find_None_set)
qed

lemma upd_rows_core:
  fixes s :: "'x wd_db_scheme"
  assumes core: "wd_core s" and f: "\<And>w. P w \<Longrightarrow> same_claim w (f w)"
  shows "wd_core (s\<lparr>withdrawals := upd_where P f (withdrawals s)\<rparr>)"
proof -
  let ?s = "s\<lparr>withdrawals := upd_where P f (withdrawals s)\<rparr>"
  have l: "ledger_same s ?s" by (simp add: ledger_same_def)
  have st: "stages ?s = stages s" by (simp add: fun_eq_iff stages_def ledger_same_facts(1) [OF l])
  have "wd_sum h (of_user u x) ?s = wd_sum h (of_user u x) s" "wd_sum h (of_asset x) ?s = wd_sum h (of_asset x) s" for h u x
    unfolding wd_sum_def using f
    by (simp_all add: st same_claim_def of_user_def of_asset_def map_upd_where cong: if_cong)
  moreover have "user_position ?s = user_position s" "credited_total ?s = credited_total s"
    by (simp_all add: fun_eq_iff user_position_def credited_total_def ledger_same_facts(2) [OF l])
  ultimately have "books ?s" using core by (simp add: wd_core_def books_def ledger_same_facts(2) [OF l])
  moreover have "chain_inv ?s"
    by (rule chain_inv_same [OF l _ wd_core_chain [OF core]]) (simp add: chain_same_def)
  moreover have "w_id ` set (withdrawals ?s) = w_id ` set (withdrawals s)"
    "unique_key w_id (withdrawals ?s) = unique_key w_id (withdrawals s)"
    using f by (simp_all add: same_claim_def image_upd_where unique_key_upd_where)
  ultimately show ?thesis
    using core ledger_same_used [OF l] unfolding wd_core_def st by auto
qed

lemma update_view:
  fixes s s' :: "'x wd_db_scheme"
  assumes v: "view i w T ns s" and u: "update_withdrawals P f s = Inr (n, s')"
    and P: "\<And>r. P r \<Longrightarrow> w_id r = i" and f: "\<And>r. P r \<Longrightarrow> same_claim r (f r)"
  shows "view i (if P w then f w else w) T ns s' \<and> touches i s s' \<and> n = (if P w then 1 else 0) \<and>
    (P w \<longrightarrow> check_update w (f w) = Inr ())"
proof -
  note s' = update_withdrawals_Inr [OF u]
  have w: "w \<in> set (withdrawals s)" "w_id w = i" and core: "wd_core s" using view_row [OF v] v by (auto simp: view_def)
  have l: "ledger_same s s'" by (simp add: s'(1) ledger_same_def)
  have st: "stages s' j = stages s j" for j by (simp add: stages_def ledger_same_facts(1) [OF l])
  have r: "row s' j = map_option (\<lambda>r. if P r then f r else r) (row s j)" for j
    unfolding row_def s'(1) using f by (simp add: find_upd_where same_claim_def)
  have other: "row s' j = row s j" if "j \<noteq> i" for j
    using that P unfolding r by (cases "row s j") (auto simp: row_def dest!: find_Some_setD)
  have uniq: "unique_key w_id (withdrawals s)" using core by (simp add: wd_core_def)
  have "P r \<longleftrightarrow> w_id r = w_id w \<and> P w" if "r \<in> set (withdrawals s)" for r
    using that P w unique_keyD [OF uniq that w(1)] by auto
  then have "filter P (withdrawals s) = filter (\<lambda>r. w_id r = w_id w \<and> P w) (withdrawals s)"
    by (rule filter_cong [OF refl])
  then have n: "n = (if P w then 1 else 0)"
    using rows_affected_keyed [OF uniq w(1), of "\<lambda>_. P w"] by (simp add: s'(2) rows_affected_def)
  have "wd_core s'" unfolding s'(1) by (rule upd_rows_core [OF core f])
  then have "view i (if P w then f w else w) T ns s'"
    using v unfolding view_def r st by (simp add: s'(1))
  moreover have "touches i s s'"
    using other st ledger_same_facts(3) [OF l] by (simp add: touches_def s'(1))
  ultimately show ?thesis using n s'(3) [OF w(1)] by blast
qed

text \<open>An event leaves every view alone.\<close>

lemma emit_wd:
  fixes s s' :: "'x wd_db_scheme"
  assumes "emit v5 p corr key s = Inr (u, s')"
  shows "ledger_same s s'" "chain_same s s'" "withdrawals s' = withdrawals s" "nonces s' = nonces s"
    "wd_db.more s' = wd_db.more s"
proof -
  show "ledger_same s s'" "chain_same s s'" using emit_Inr [OF assms] by simp_all
  have "chain_db.more s' = chain_db.more s" by (rule emit_more [OF assms])
  then show "withdrawals s' = withdrawals s" "nonces s' = nonces s" "wd_db.more s' = wd_db.more s"
    by (cases s; cases s'; simp)+
qed

lemma same_core:
  fixes s s' :: "'x wd_db_scheme"
  assumes "ledger_same s s'" "chain_same s s'" "withdrawals s' = withdrawals s" "wd_core s"
  shows "wd_core s'" "stages s' = stages s"
proof -
  show st: "stages s' = stages s" by (simp add: fun_eq_iff stages_def ledger_same_facts(1) [OF assms(1)])
  have "books s'"
    using assms st ledger_same_facts(2) [OF assms(1)] by (intro books_cong [of s s']) (simp_all add: wd_core_def chain_same_def)
  then show "wd_core s'"
    using chain_inv_same [OF assms(1,2)] assms ledger_same_used [OF assms(1)] by (auto simp: wd_core_def st)
qed

lemma emit_view:
  fixes s s' :: "'x wd_db_scheme"
  assumes v: "view i w T ns s" and e: "emit v5 p corr key s = Inr (u, s')"
  shows "view i w T ns s' \<and> touches i s s'"
proof -
  note s' = emit_wd [OF e]
  show ?thesis
    using same_core [OF s'(1-3) view_core [OF v]] v s' ledger_same_facts(3) [OF s'(1)]
    by (simp add: view_def touches_def row_def chain_same_def)
qed

section \<open>The operations\<close>

text \<open>Each operation on withdrawal \<open>i\<close> moves its view and touches nothing else.\<close>

definition moves :: "uuid \<Rightarrow> 'x wd_db_scheme \<Rightarrow> 'x wd_db_scheme \<Rightarrow> withdrawal \<Rightarrow> stage set \<Rightarrow> chain_nonce list \<Rightarrow> bool" where
  "moves i s s' w T ns \<longleftrightarrow> view i w T ns s' \<and> touches i s s'"

lemma moves_refl: "view i w T ns s \<Longrightarrow> moves i s s w T ns"
  by (simp add: moves_def)

lemma moves_trans: "moves i s t w T ns \<Longrightarrow> moves i t u w' T' ns' \<Longrightarrow> moves i s u w' T' ns'"
  using touches_trans by (auto simp: moves_def)

lemma lock_withdrawal_view: "view i w T ns s \<Longrightarrow> lock_withdrawal i s = Inr (w', s') \<longleftrightarrow> w' = w \<and> s' = s"
  by (auto simp: view_def lock_withdrawal_def get_withdrawal_def row_def)

lemma transition_view:
  fixes s s' :: "'x wd_db_scheme"
  assumes "view i w T ns s" "transition i a b s = Inr (ok, s')"
  shows "moves i s s' (if w_status w = a
      then w\<lparr>w_status := b, w_approved_at := (if b = WApproved then Some (clock s) else w_approved_at w)\<rparr> else w) T ns \<and>
    ok = (w_status w = a) \<and> withdrawal_can_transition_to a b"
proof -
  have t: "withdrawal_can_transition_to a b" and m: "\<exists>n. update_withdrawals (\<lambda>r. w_id r = i \<and> w_status r = a)
      (\<lambda>w. w\<lparr>w_status := b, w_approved_at := (if b = WApproved then Some (clock s) else w_approved_at w)\<rparr>) s = Inr (n, s') \<and> ok = (n = 1)"
    using assms(2) by (auto simp: transition_def transition_to_def tx_simps simp del: withdrawal_can_transition_to.simps split: if_splits)
  from m obtain n where u: "update_withdrawals (\<lambda>r. w_id r = i \<and> w_status r = a)
      (\<lambda>w. w\<lparr>w_status := b, w_approved_at := (if b = WApproved then Some (clock s) else w_approved_at w)\<rparr>) s = Inr (n, s')"
    and n: "ok = (n = 1)" by blast
  have "w_id w = i" using view_row [OF assms(1)] by simp
  with update_view [OF assms(1) u] t n show ?thesis
    by (auto simp: moves_def same_claim_def simp del: withdrawal_can_transition_to.simps)
qed

lemma attach_reservation_view:
  fixes s s' :: "'x wd_db_scheme"
  assumes "view i w T ns s" "attach_reservation i ltx s = Inr (u, s')"
  shows "moves i s s' (w\<lparr>w_reserve_tx := Some ltx\<rparr>) T ns"
proof -
  obtain n where "update_withdrawals (\<lambda>w. w_id w = i) (\<lambda>w. w\<lparr>w_reserve_tx := Some ltx\<rparr>) s = Inr (n, s')"
    using assms(2) by (auto simp: attach_reservation_def tx_simps)
  from update_view [OF assms(1) this] view_row [OF assms(1)] show ?thesis by (simp add: moves_def same_claim_def)
qed

lemma record_signed_view:
  fixes s s' :: "'x wd_db_scheme"
  assumes "view i w T ns s" "record_signed_transaction i f s = Inr (u, s')"
  shows "moves i s s' (w\<lparr>w_tx_hash := Some (sf_tx_hash f), w_nonce := Some (sf_nonce f),
        w_gas_limit := Some (sf_gas_limit f), w_max_fee := Some (sf_max_fee f),
        w_max_priority_fee := Some (sf_max_priority_fee f), w_broadcast_attempts := w_broadcast_attempts w + 1\<rparr>) T ns"
proof -
  obtain n where "update_withdrawals (\<lambda>w. w_id w = i) (\<lambda>w. w\<lparr>w_tx_hash := Some (sf_tx_hash f), w_nonce := Some (sf_nonce f),
        w_gas_limit := Some (sf_gas_limit f), w_max_fee := Some (sf_max_fee f),
        w_max_priority_fee := Some (sf_max_priority_fee f), w_broadcast_attempts := w_broadcast_attempts w + 1\<rparr>) s = Inr (n, s')"
    using assms(2) by (auto simp: record_signed_transaction_def tx_simps)
  from update_view [OF assms(1) this] view_row [OF assms(1)] show ?thesis by (simp add: moves_def same_claim_def)
qed

lemma db_mark_broadcast_view:
  fixes s s' :: "'x wd_db_scheme"
  assumes "view i w T ns s" "db_mark_broadcast i s = Inr (ok, s')"
  shows "moves i s s' (if w_status w = WSigning then w\<lparr>w_status := WBroadcast, w_broadcast_at := Some (clock s)\<rparr> else w) T ns"
proof -
  obtain n where "update_withdrawals (\<lambda>w. w_id w = i \<and> w_status w = WSigning)
      (\<lambda>w. w\<lparr>w_status := WBroadcast, w_broadcast_at := Some (clock s)\<rparr>) s = Inr (n, s')"
    using assms(2) by (auto simp: db_mark_broadcast_def tx_simps)
  from update_view [OF assms(1) this] view_row [OF assms(1)] show ?thesis by (auto simp: moves_def same_claim_def)
qed

lemma wd_update_confirmations_view:
  fixes s s' :: "'x wd_db_scheme"
  assumes "view i w T ns s" "wd_update_confirmations i block n s = Inr (u, s')"
  shows "moves i s s' (if w_status w \<in> {WBroadcast, WConfirming}
      then w\<lparr>w_block_number := Some block, w_confirmations := n, w_status := WConfirming\<rparr> else w) T ns"
proof -
  obtain n' where "update_withdrawals (\<lambda>w. w_id w = i \<and> w_status w \<in> {WBroadcast, WConfirming})
      (\<lambda>w. w\<lparr>w_block_number := Some block, w_confirmations := n,
              w_status := (if w_status w = WBroadcast then WConfirming else w_status w)\<rparr>) s = Inr (n', s')"
    using assms(2) by (auto simp: wd_update_confirmations_def tx_simps)
  from update_view [OF assms(1) this] view_row [OF assms(1)] show ?thesis by (auto simp: moves_def same_claim_def)
qed

lemma mark_completed_view:
  fixes s s' :: "'x wd_db_scheme"
  assumes "view i w T ns s" "mark_completed i ltx fee s = Inr (ok, s')"
  shows "moves i s s' (if w_status w \<in> {WBroadcast, WConfirming}
      then w\<lparr>w_status := WCompleted, w_settle_tx := Some ltx, w_fee_paid := Some fee, w_completed_at := Some (clock s)\<rparr>
      else w) T ns \<and> ok = (w_status w \<in> {WBroadcast, WConfirming})"
proof -
  obtain n where "update_withdrawals (\<lambda>w. w_id w = i \<and> w_status w \<in> {WBroadcast, WConfirming})
     (\<lambda>w. w\<lparr>w_status := WCompleted, w_settle_tx := Some ltx, w_fee_paid := Some fee,
            w_completed_at := Some (clock s)\<rparr>) s = Inr (n, s')" and n: "ok = (n = 1)"
    using assms(2) by (auto simp: mark_completed_def tx_simps)
  from update_view [OF assms(1) this(1)] n view_row [OF assms(1)] show ?thesis by (auto simp: moves_def same_claim_def)
qed

lemma mark_failed_view:
  fixes s s' :: "'x wd_db_scheme"
  assumes "view i w T ns s" "mark_failed i a code reason s = Inr (ok, s')"
  shows "moves i s s' (if w_status w = a
      then w\<lparr>w_status := WFailed, w_failure_code := Some code, w_failure_reason := Some reason\<rparr> else w) T ns \<and>
    ok = (w_status w = a)"
proof -
  obtain n where "update_withdrawals (\<lambda>w. w_id w = i \<and> w_status w = a)
     (\<lambda>w. w\<lparr>w_status := WFailed, w_failure_code := Some code, w_failure_reason := Some reason\<rparr>) s = Inr (n, s')" and n: "ok = (n = 1)"
    using assms(2) by (auto simp: mark_failed_def tx_simps)
  from update_view [OF assms(1) this(1)] n view_row [OF assms(1)] show ?thesis by (auto simp: moves_def same_claim_def)
qed

text \<open>The five postings, for the row the view shows.\<close>

lemma stage_moves:
  fixes s s' :: "'x wd_db_scheme"
  assumes v: "view i w T ns s" and c: "w_user w = u" "w_asset w = x" "w_amount w = m"
  shows "reserve_withdrawal i u x m c s = Inr (r, s') \<Longrightarrow> moves i s s' w (insert Reserved T) ns"
    "release_reservation i u x m c s = Inr (r, s') \<Longrightarrow> moves i s s' w (insert Released T) ns"
    "record_broadcast i x m c s = Inr (r, s') \<Longrightarrow> moves i s s' w (insert Sent T) ns"
    "settle_withdrawal i u x m c s = Inr (r, s') \<Longrightarrow> moves i s s' w (insert Settled T) ns"
    "reverse_broadcast i x m c s = Inr (r, s') \<Longrightarrow> moves i s s' w (insert Returned T) ns"
proof -
  have l: "ledger_inv s" using view_core [OF v] by (rule wd_core_ledger)
  have p: "posts (stage_key t i) (stage_legs t u x m) r s s' \<Longrightarrow> moves i s s' w (insert t T) ns" for t
    using stage_post [OF v, of t r s'] c by (simp add: moves_def)
  show "reserve_withdrawal i u x m c s = Inr (r, s') \<Longrightarrow> moves i s s' w (insert Reserved T) ns"
    using reserve_withdrawal_Inr [OF l] by (intro p) simp
  show "release_reservation i u x m c s = Inr (r, s') \<Longrightarrow> moves i s s' w (insert Released T) ns"
    using release_reservation_posts [OF l] by (intro p) simp
  show "record_broadcast i x m c s = Inr (r, s') \<Longrightarrow> moves i s s' w (insert Sent T) ns"
    using record_broadcast_posts [OF l] by (intro p) simp
  show "settle_withdrawal i u x m c s = Inr (r, s') \<Longrightarrow> moves i s s' w (insert Settled T) ns"
    using settle_withdrawal_posts [OF l] by (intro p) simp
  show "reverse_broadcast i x m c s = Inr (r, s') \<Longrightarrow> moves i s s' w (insert Returned T) ns"
    using reverse_broadcast_posts [OF l] by (intro p) simp
qed

lemma emit_moves: "view i w T ns s \<Longrightarrow> emit v5 p corr key s = Inr (u, s') \<Longrightarrow> moves i s s' w T ns"
  using emit_view by (simp add: moves_def)

lemma get_asset_by_id_Inr: "get_asset_by_id x s = Inr (a, s') \<Longrightarrow> s' = s"
  by (auto simp: get_asset_by_id_def split: option.splits)

lemma book_fee_moves:
  fixes s s' :: "'x wd_db_scheme"
  assumes v: "view i w T ns s" and "book_fee w0 fee s = Inr (u, s')"
  shows "moves i s s' w T ns"
proof (cases "get_asset (w_chain w0) (native_symbol (w_chain w0)) s")
  case (Inr r)
  then obtain a where r: "r = (a, s)" by (auto simp: get_asset_def split: option.splits)
  from assms(2) Inr r obtain o2 where f: "record_network_fee (w_id w0) (as_id a) fee (w_correlation w0) s = Inr (o2, s')"
    by (auto simp: book_fee_def tx_simps)
  show ?thesis
  proof (cases "fee = 0")
    case True
    with f v show ?thesis by (simp add: record_network_fee_def tx_simps moves_refl)
  next
    case False
    then obtain q where p: "posts (''network_fee:'' @ w_id w0)
        [((NetworkFeeAccount, None, as_id a), Debit, fee), ((ExchangeCustody, None, as_id a), Credit, fee)] q s s'"
      using record_network_fee_posts [OF wd_core_ledger [OF view_core [OF v]] f] by blast
    have a: "''network_fee:'' @ w_id w0 \<noteq> stage_key t j" for t j by (cases t) simp_all
    have b: "''network_fee:'' @ w_id w0 \<notin> deposit_keys"
      by (auto simp: deposit_keys_def credit_key_def reversal_key_def)
    show ?thesis
      unfolding moves_def by (rule other_post_view [OF v p b a]) (auto simp: leg_delta_def)
  qed
next
  case (Inl e)
  with assms show ?thesis by (simp add: book_fee_def moves_refl)
qed

end
