(* ===== verification/Withdrawal_Run.thy ===== *)
theory Withdrawal_Run
  imports Withdrawal_Inv
begin

text \<open>
  Every transaction of the withdrawal side is a step: it keeps the invariant, moves each
  withdrawal along its lifecycle, and never rewrites a recorded hash or nonce.
\<close>

section \<open>Status and postings agree\<close>

fun stages_for :: "withdrawal_status \<Rightarrow> stage set set" where
  "stages_for WRequested = {{}}"
| "stages_for WValidated = {{Reserved}}"
| "stages_for WApproved = {{Reserved}}"
| "stages_for WSigning = {{Reserved}}"
| "stages_for WBroadcast = {{Reserved, Sent}}"
| "stages_for WConfirming = {{Reserved, Sent}}"
| "stages_for WCompleted = {{Reserved, Sent, Settled}}"
| "stages_for WFailed = {{}, {Reserved, Released}, {Reserved, Sent, Returned, Released}}"
| "stages_for WCancelled = {{}, {Reserved, Released}}"

definition given :: "'a option \<Rightarrow> bool" where
  "given x \<longleftrightarrow> x \<noteq> None"

lemma given_simps [simp]: "given (Some x)" "\<not> given None"
  by (simp_all add: given_def)

definition row_ok :: "withdrawal \<Rightarrow> stage set \<Rightarrow> bool" where
  "row_ok w T \<longleftrightarrow> 0 < w_amount w \<and> T \<in> stages_for (w_status w) \<and> (given (w_reserve_tx w) \<longleftrightarrow> Reserved \<in> T) \<and>
     (given (w_nonce w) \<longleftrightarrow> given (w_tx_hash w)) \<and>
     (w_status w \<in> {WSigning, WBroadcast, WConfirming, WCompleted} \<longrightarrow> given (w_tx_hash w)) \<and>
     (w_status w \<in> {WRequested, WValidated, WApproved, WCancelled} \<longrightarrow> \<not> given (w_tx_hash w))"

text \<open>
  Nonces, for the hot wallet \<open>H c\<close> of each chain \<open>c\<close>: a recorded nonce is below the counter and
  belongs to one withdrawal.
\<close>

definition counter :: "(string \<Rightarrow> string) \<Rightarrow> string \<Rightarrow> chain_nonce list \<Rightarrow> chain_nonce option" where
  "counter H c ns = find (\<lambda>n. cn_chain n = c \<and> cn_address n = H c) ns"

definition nonce_below :: "(string \<Rightarrow> string) \<Rightarrow> chain_nonce list \<Rightarrow> withdrawal \<Rightarrow> bool" where
  "nonce_below H ns w \<longleftrightarrow> (\<forall>n. w_nonce w = Some n \<longrightarrow> (\<exists>c. counter H (w_chain w) ns = Some c \<and> n < cn_next c))"

definition nonce_apart :: "withdrawal \<Rightarrow> withdrawal \<Rightarrow> bool" where
  "nonce_apart w w' \<longleftrightarrow> (w_chain w = w_chain w' \<and> w_nonce w = w_nonce w' \<and> w_nonce w \<noteq> None \<longrightarrow> w_id w = w_id w')"

definition nonces_ok :: "(string \<Rightarrow> string) \<Rightarrow> 'x wd_db_scheme \<Rightarrow> bool" where
  "nonces_ok H s \<longleftrightarrow> (\<forall>w\<in>set (withdrawals s). nonce_below H (nonces s) w) \<and>
     (\<forall>w\<in>set (withdrawals s). \<forall>w'\<in>set (withdrawals s). nonce_apart w w')"

definition wd_inv :: "(string \<Rightarrow> string) \<Rightarrow> 'x wd_db_scheme \<Rightarrow> bool" where
  "wd_inv H s \<longleftrightarrow> wd_core s \<and> (\<forall>w\<in>set (withdrawals s). row_ok w (stages s (w_id w))) \<and> nonces_ok H s"

lemma wd_inv_core: "wd_inv H s \<Longrightarrow> wd_core s"
  by (simp add: wd_inv_def)

lemma wd_inv_ledger: "wd_inv H s \<Longrightarrow> ledger_inv s"
  by (simp add: wd_inv_def wd_core_ledger)

section \<open>How a withdrawal evolves\<close>

definition wd_evolves :: "withdrawal \<Rightarrow> withdrawal \<Rightarrow> bool" where
  "wd_evolves w w' \<longleftrightarrow> same_claim w w' \<and> withdrawal_can_transition_to\<^sup>*\<^sup>* (w_status w) (w_status w') \<and>
     (w_tx_hash w \<noteq> None \<longrightarrow> w_tx_hash w' = w_tx_hash w \<and> w_nonce w' = w_nonce w)"

definition seen :: "'x wd_db_scheme \<Rightarrow> withdrawal \<Rightarrow> bool" where
  "seen s w \<longleftrightarrow> (\<exists>w'\<in>set (withdrawals s). wd_evolves w w')"

definition withdrawals_evolve :: "'x wd_db_scheme \<Rightarrow> 'x wd_db_scheme \<Rightarrow> bool" where
  "withdrawals_evolve s s' \<longleftrightarrow> (\<forall>w\<in>set (withdrawals s). seen s' w)"

lemma same_claim_refl [simp]: "same_claim w w"
  by (simp add: same_claim_def)

lemma wd_evolves_refl [simp]: "wd_evolves w w"
  by (simp add: wd_evolves_def)

lemma wd_evolves_trans: "wd_evolves a b \<Longrightarrow> wd_evolves b c \<Longrightarrow> wd_evolves a c"
  by (auto simp: wd_evolves_def same_claim_def)

lemma seen_mem: "w \<in> set (withdrawals s) \<Longrightarrow> seen s w"
  unfolding seen_def by (blast intro: wd_evolves_refl)

lemma seen_mono: "withdrawals_evolve s s' \<Longrightarrow> seen s w \<Longrightarrow> seen s' w"
  unfolding withdrawals_evolve_def seen_def using wd_evolves_trans by meson

lemma withdrawals_evolve_refl [simp]: "withdrawals_evolve s s"
  by (simp add: withdrawals_evolve_def seen_mem)

lemma withdrawals_evolve_trans: "withdrawals_evolve s t \<Longrightarrow> withdrawals_evolve t u \<Longrightarrow> withdrawals_evolve s u"
  unfolding withdrawals_evolve_def using seen_mono [of t u] by (auto simp: withdrawals_evolve_def)

definition wd_step :: "(string \<Rightarrow> string) \<Rightarrow> 'x wd_db_scheme \<Rightarrow> 'x wd_db_scheme \<Rightarrow> bool" where
  "wd_step H s s' \<longleftrightarrow> wd_inv H s' \<and> withdrawals_evolve s s' \<and> deposits_evolve (deposits s) (deposits s') \<and>
     (\<forall>x. asset_position s' x = asset_position s x)"

lemma wd_step_refl: "wd_inv H s \<Longrightarrow> wd_step H s s"
  by (simp add: wd_step_def)

lemma wd_step_trans: "wd_step H s t \<Longrightarrow> wd_step H t u \<Longrightarrow> wd_step H s u"
  using withdrawals_evolve_trans [of s t u] deposits_evolve_trans [of "deposits s" "deposits t" "deposits u"]
  by (simp add: wd_step_def)

text \<open>The steps of a run that holds the snapshots \<open>K\<close> of rows read earlier.\<close>

interpretation ws: tx_steps "\<lambda>s. wd_inv H s \<and> (\<forall>w\<in>K. seen s w)" "\<lambda>s s'. wd_step H s s' \<and> (\<forall>w\<in>K. seen s' w)" for H K
  by unfold_locales (auto intro: wd_step_refl dest: wd_step_trans, auto simp: wd_step_def)

text \<open>Statuses that are never left again.\<close>

definition closed_under :: "withdrawal_status set \<Rightarrow> bool" where
  "closed_under S \<longleftrightarrow> (\<forall>a\<in>S. \<forall>b. withdrawal_can_transition_to a b \<longrightarrow> b \<in> S)"

lemma closed_reach:
  assumes "withdrawal_can_transition_to\<^sup>*\<^sup>* a b" "a \<in> S" "closed_under S"
  shows "b \<in> S"
  using assms by (induction rule: rtranclp_induct) (auto simp: closed_under_def)

lemma closed_sets: "closed_under {WBroadcast, WConfirming, WCompleted, WFailed}"
  "closed_under {WSigning, WBroadcast, WConfirming, WCompleted, WFailed}"
  by (auto simp: closed_under_def split: if_splits)

section \<open>From a move to a step\<close>

lemma row_Some:
  "wd_core s \<Longrightarrow> row s i = Some w \<longleftrightarrow> w \<in> set (withdrawals s) \<and> w_id w = i"
  unfolding row_def by (rule find_key_Some) (simp add: wd_core_def)

lemma moves_mem:
  assumes "moves i s s' w' T ns" "wd_core s" "v \<in> set (withdrawals s')"
  shows "v = w' \<or> v \<in> set (withdrawals s) \<and> w_id v \<noteq> i \<and> stages s' (w_id v) = stages s (w_id v)"
proof (cases "w_id v = i")
  case True
  have c: "wd_core s'" using assms(1) by (simp add: moves_def view_def)
  then have "row s' i = Some v" using assms(3) True by (simp add: row_Some)
  then show ?thesis using assms(1) by (simp add: moves_def view_def)
next
  case False
  have c: "wd_core s'" using assms(1) by (simp add: moves_def view_def)
  then have "row s' (w_id v) = Some v" using assms(3) by (simp add: row_Some)
  then have "row s (w_id v) = Some v" "stages s' (w_id v) = stages s (w_id v)"
    using assms(1) False by (simp_all add: moves_def touches_def)
  then show ?thesis using row_Some [OF assms(2)] False by simp
qed

lemma moves_step:
  fixes s s' :: "'x wd_db_scheme"
  assumes inv: "wd_inv H s" and m: "moves i s s' w' T (nonces s')" and ok: "row_ok w' T"
    and ev: "\<And>w. row s i = Some w \<Longrightarrow> wd_evolves w w'" and n: "nonces_ok H s'"
  shows "wd_step H s s'"
proof -
  note core = wd_inv_core [OF inv]
  have v: "view i w' T (nonces s') s'" and t: "touches i s s'" using m by (simp_all add: moves_def)
  have core': "wd_core s'" using v by (simp add: view_def)
  have "row_ok r (stages s' (w_id r))" if "r \<in> set (withdrawals s')" for r
    using moves_mem [OF m core that] ok inv view_row [OF v] v by (auto simp: wd_inv_def view_def)
  then have "wd_inv H s'" using core' n by (simp add: wd_inv_def)
  moreover have "seen s' w" if w: "w \<in> set (withdrawals s)" for w
  proof (cases "w_id w = i")
    case True
    then have "wd_evolves w w'" using w ev row_Some [OF core, of i w] by simp
    then show ?thesis using view_row [OF v] by (auto simp: seen_def)
  next
    case False
    then have "row s' (w_id w) = Some w" using t w row_Some [OF core] by (simp add: touches_def)
    then show ?thesis using row_Some [OF core'] by (intro seen_mem) simp
  qed
  ultimately show ?thesis using t by (simp add: wd_step_def withdrawals_evolve_def touches_def)
qed

lemma moves_nonces:
  fixes s s' :: "'x wd_db_scheme"
  assumes inv: "wd_inv H s" and m: "moves i s s' w' T (nonces s)"
    and n: "\<And>w. row s i = Some w \<Longrightarrow> w_nonce w' = w_nonce w \<and> w_chain w' = w_chain w"
    "row s i = None \<Longrightarrow> w_nonce w' = None"
  shows "nonces_ok H s'"
proof -
  note core = wd_inv_core [OF inv]
  have ns: "nonces s' = nonces s" using m by (simp add: moves_def view_def)
  have i: "w_id w' = i" using m view_row [of i w' T "nonces s" s'] by (simp add: moves_def)
  have old: "w_nonce v = None \<or> (\<exists>u\<in>set (withdrawals s). w_id u = w_id v \<and> w_nonce u = w_nonce v \<and> w_chain u = w_chain v)"
    if "v \<in> set (withdrawals s')" for v
  proof (cases "v = w'")
    case True
    then show ?thesis using n i row_Some [OF core, of i] by (cases "row s i") auto
  next
    case False
    then show ?thesis using moves_mem [OF m core that] by blast
  qed
  have ok: "nonces_ok H s" using inv by (simp add: wd_inv_def)
  have "nonce_below H (nonces s') v" if "v \<in> set (withdrawals s')" for v
    using old [OF that] ok unfolding nonces_ok_def nonce_below_def ns by (metis option.distinct(1))
  moreover have "nonce_apart v v'" if "v \<in> set (withdrawals s')" "v' \<in> set (withdrawals s')" for v v'
    using old [OF that(1)] old [OF that(2)] ok unfolding nonces_ok_def nonce_apart_def by metis
  ultimately show ?thesis by (simp add: nonces_ok_def)
qed

text \<open>The common case: a row that keeps its nonce.\<close>

lemma keep_step:
  fixes s s' :: "'x wd_db_scheme"
  assumes inv: "wd_inv H s" and w: "row s i = Some w" and m: "moves i s s' w' T (nonces s)"
    and ok: "row_ok w' T" and ev: "wd_evolves w w'" and n: "w_nonce w' = w_nonce w"
  shows "wd_step H s s'"
proof (rule moves_step [OF inv _ ok])
  show "moves i s s' w' T (nonces s')" using m by (simp add: moves_def view_def)
  show "wd_evolves v w'" if "row s i = Some v" for v using that w ev by simp
  show "nonces_ok H s'"
    using w n ev by (intro moves_nonces [OF inv m]) (auto simp: wd_evolves_def same_claim_def)
qed

lemma inv_view:
  assumes "wd_inv H s" "row s i = Some w"
  shows "view i w (stages s i) (nonces s) s" "row_ok w (stages s i)"
  using assms row_Some [OF wd_inv_core [OF assms(1)]] by (auto simp: view_def wd_inv_def)

lemma lock_row: "lock_withdrawal i s = Inr (w, s') \<longleftrightarrow> row s i = Some w \<and> s' = s"
  by (auto simp: lock_withdrawal_def get_withdrawal_def row_def split: option.splits)

section \<open>The transactions\<close>

lemma evolvesI:
  "same_claim w w' \<Longrightarrow> withdrawal_can_transition_to (w_status w) (w_status w') \<Longrightarrow>
   w_tx_hash w' = w_tx_hash w \<Longrightarrow> w_nonce w' = w_nonce w \<Longrightarrow> wd_evolves w w'"
  unfolding wd_evolves_def by blast

lemmas row_rules = same_claim_def row_ok_def insert_commute

lemma moves_view: "moves i s s' w T ns \<Longrightarrow> view i w T ns s'"
  by (simp add: moves_def)

lemma approve_tx_step:
  fixes s s' :: "'x wd_db_scheme"
  assumes "approve_tx i s = Inr (u, s')" and inv: "wd_inv H s"
  shows "wd_step H s s'"
proof -
  obtain w ok where w: "row s i = Some w" "w_status w = WValidated" and t: "transition i WValidated WApproved s = Inr (ok, s')"
    using assms(1) by (auto simp: approve_tx_def tx_simps lock_row split: if_splits)
  note v = inv_view [OF inv w(1)]
  have m: "moves i s s' (w\<lparr>w_status := WApproved, w_approved_at := Some (clock s)\<rparr>) (stages s i) (nonces s)"
    using transition_view [OF v(1) t] w(2) by simp
  show ?thesis
    by (rule keep_step [OF inv w(1) m _ evolvesI]) (use v(2) w(2) in \<open>simp_all add: row_rules\<close>)
qed

text \<open>Releasing a live reservation, when there is one.\<close>

lemma release_moves:
  fixes s s' :: "'x wd_db_scheme"
  assumes v: "view i w T ns s" and c: "same_claim w w0" and i: "w_id w = i"
    and r: "(if b then tx_then (release_of w0) (tx_return ()) else tx_return ()) s = Inr (u, s')"
  shows "moves i s s' w (if b then insert Released T else T) ns"
proof (cases b)
  case True
  with r obtain q where "release_of w0 s = Inr (q, s')" by (auto simp: tx_simps)
  with stage_moves(2) [OF v] c i True show ?thesis by (simp add: release_of_def same_claim_def)
next
  case False
  with r v show ?thesis by (simp add: tx_simps moves_refl)
qed

lemma cancel_tx_step:
  fixes s s' :: "'x wd_db_scheme"
  assumes "cancel_tx i s = Inr (u, s')" and inv: "wd_inv H s"
  shows "wd_step H s s'"
proof -
  obtain w s1 ok x where w: "row s i = Some w" "\<not> funds_may_have_left (w_status w)" "\<not> withdrawal_is_terminal (w_status w)"
    and r: "(if w_reserve_tx w \<noteq> None then tx_then (release_of w) (tx_return ()) else tx_return ()) s = Inr (x, s1)"
    and t: "transition (w_id w) (w_status w) WCancelled s1 = Inr (ok, s')"
    using assms(1) by (auto simp: cancel_tx_def tx_simps lock_row Let_def release_of_def split: if_splits)
  have i: "w_id w = i" using w(1) row_Some [OF wd_inv_core [OF inv]] by blast
  note v = inv_view [OF inv w(1)]
  note m1 = release_moves [OF v(1) same_claim_refl i r]
  note t' = transition_view [OF moves_view [OF m1] t [unfolded i]]
  have can: "withdrawal_can_transition_to (w_status w) WCancelled" using t' by blast
  have m: "moves i s s' (w\<lparr>w_status := WCancelled\<rparr>) (if w_reserve_tx w \<noteq> None then insert Released (stages s i) else stages s i) (nonces s)"
    using moves_trans [OF m1] t' by simp
  have st: "w_status w \<in> {WRequested, WValidated, WApproved}"
    using w(2,3) can by (cases "w_status w") (simp_all add: funds_may_have_left_def withdrawal_is_terminal_def)
  have "row_ok (w\<lparr>w_status := WCancelled\<rparr>) (if w_reserve_tx w \<noteq> None then insert Released (stages s i) else stages s i)"
    using v(2) st unfolding row_ok_def given_def [symmetric] by (elim insertE) (auto simp: insert_commute)
  then show ?thesis
    by (rule keep_step [OF inv w(1) m _ evolvesI]) (simp_all add: same_claim_def can del: withdrawal_can_transition_to.simps)
qed

lemma fail_and_release_tx_step:
  fixes s s' :: "'x wd_db_scheme"
  assumes "fail_and_release_tx v5 w0 code reason s = Inr (Some r, s')" and inv: "wd_inv H s" and k: "seen s w0"
  shows "wd_step H s s'"
proof -
  let ?i = "w_id w0"
  obtain w s1 s2 x y where w: "row s ?i = Some w" "\<not> funds_may_have_left (w_status w)" "\<not> withdrawal_is_terminal (w_status w)"
    and rl: "(if w_reserve_tx w \<noteq> None then tx_then (release_of w0) (tx_return ()) else tx_return ()) s = Inr (x, s1)"
    and f: "mark_failed ?i (w_status w) code reason s1 = Inr (y, s2)"
    and e: "\<exists>z. enqueue_failure v5 w0 code reason s2 = Inr (z, s')"
    using assms(1) by (auto simp: fail_and_release_tx_def tx_simps lock_row Let_def split: if_splits)
  have i: "w_id w = ?i" "w \<in> set (withdrawals s)" using w(1) row_Some [OF wd_inv_core [OF inv]] by blast+
  obtain v0 where v0: "v0 \<in> set (withdrawals s)" "wd_evolves w0 v0" using k by (auto simp: seen_def)
  then have "row s ?i = Some v0" using row_Some [OF wd_inv_core [OF inv]] by (simp add: wd_evolves_def same_claim_def)
  with v0 w(1) have c: "same_claim w w0" by (simp add: wd_evolves_def same_claim_def)
  note v = inv_view [OF inv w(1)]
  note m1 = release_moves [OF v(1) c i(1) rl]
  note m2 = mark_failed_view [OF moves_view [OF m1] f]
  obtain z where e: "enqueue_failure v5 w0 code reason s2 = Inr (z, s')" using e by blast
  let ?w = "w\<lparr>w_status := WFailed, w_failure_code := Some code, w_failure_reason := Some reason\<rparr>"
  let ?T = "if w_reserve_tx w \<noteq> None then insert Released (stages s ?i) else stages s ?i"
  have m2: "moves ?i s1 s2 ?w ?T (nonces s)" using m2 by simp
  have m: "moves ?i s s' ?w ?T (nonces s)"
    by (rule moves_trans [OF m1 moves_trans [OF m2 emit_moves [OF moves_view [OF m2] e [unfolded enqueue_failure_def]]]])
  have st: "w_status w \<in> {WRequested, WValidated, WApproved, WSigning}"
    using w(2,3) by (cases "w_status w") (simp_all add: funds_may_have_left_def withdrawal_is_terminal_def)
  have "row_ok ?w ?T"
    using v(2) st unfolding row_ok_def given_def [symmetric] by (elim insertE) (auto simp: insert_commute)
  then show ?thesis
    by (rule keep_step [OF inv w(1) m _ evolvesI]) (use st in \<open>auto simp: same_claim_def\<close>)
qed

lemma mark_broadcast_tx_step:
  fixes s s' :: "'x wd_db_scheme"
  assumes "mark_broadcast_tx v5 i h n s = Inr (Some r, s')" and inv: "wd_inv H s"
  shows "wd_step H s s'" "touches i s s'"
proof -
  obtain w s1 s2 x y z where w: "row s i = Some w" "w_status w = WSigning"
    and b: "db_mark_broadcast (w_id w) s = Inr (x, s1)"
    and p: "record_broadcast (w_id w) (w_asset w) (w_amount w) (w_correlation w) s1 = Inr (y, s2)"
    and e: "emit v5 (WithdrawalBroadcastEvent \<lparr>wbr_withdrawal = w_id w, wbr_user = w_user w, wbr_chain = w_chain w,
        wbr_tx_hash = h, wbr_nonce = n\<rparr>) (case w_correlation w of Some c \<Rightarrow> c | None \<Rightarrow> ''unknown'') (''broadcast:'' @ w_id w) s2 = Inr (z, s')"
    using assms(1) by (auto simp: mark_broadcast_tx_def tx_simps lock_row split: if_splits)
  have i: "w_id w = i" using w(1) row_Some [OF wd_inv_core [OF inv]] by blast
  note v = inv_view [OF inv w(1)]
  let ?w = "w\<lparr>w_status := WBroadcast, w_broadcast_at := Some (clock s)\<rparr>"
  have m1: "moves i s s1 ?w (stages s i) (nonces s)"
    using db_mark_broadcast_view [OF v(1) b [unfolded i]] w(2) by simp
  have m2: "moves i s1 s2 ?w (insert Sent (stages s i)) (nonces s)"
    by (rule stage_moves(3) [OF moves_view [OF m1] _ _ _ p [unfolded i]]) (rule refl, simp_all)
  have m: "moves i s s' ?w (insert Sent (stages s i)) (nonces s)"
    using moves_trans [OF m1 moves_trans [OF m2 emit_moves [OF moves_view [OF m2] e]]] .
  then show "touches i s s'" by (simp add: moves_def)
  show "wd_step H s s'"
    by (rule keep_step [OF inv w(1) m _ evolvesI]) (use v(2) w(2) in \<open>simp_all add: row_rules\<close>)
qed

lemma confirm_tx_step:
  fixes s s' :: "'x wd_db_scheme"
  assumes "confirm_tx w0 b n s = Inr (r, s')" and inv: "wd_inv H s" and k: "seen s w0"
  shows "wd_step H s s'"
proof -
  let ?i = "w_id w0"
  obtain w where w: "row s ?i = Some w"
    using k row_Some [OF wd_inv_core [OF inv]] by (auto simp: seen_def wd_evolves_def same_claim_def)
  note v = inv_view [OF inv w]
  obtain u where u: "wd_update_confirmations ?i b n s = Inr (u, s')"
    using assms(1) by (auto simp: confirm_tx_def tx_simps)
  let ?w = "if w_status w \<in> {WBroadcast, WConfirming}
      then w\<lparr>w_block_number := Some b, w_confirmations := n, w_status := WConfirming\<rparr> else w"
  have "row_ok ?w (stages s ?i)" using v(2) by (cases "w_status w") (simp_all add: row_ok_def)
  then show ?thesis
    by (rule keep_step [OF inv w wd_update_confirmations_view [OF v(1) u] _ evolvesI])
      (cases "w_status w"; simp add: same_claim_def)+
qed

text \<open>The row behind a snapshot of an in-flight withdrawal.\<close>

lemma seen_row:
  assumes "seen s w0" "wd_inv H s" "row s (w_id w0) = Some w"
  shows "wd_evolves w0 w"
proof -
  obtain v where v: "v \<in> set (withdrawals s)" "wd_evolves w0 v" using assms(1) by (auto simp: seen_def)
  then have "row s (w_id w0) = Some v"
    using row_Some [OF wd_inv_core [OF assms(2)]] by (simp add: wd_evolves_def same_claim_def)
  with assms(3) v show ?thesis by simp
qed

lemma settle_success_tx_step:
  fixes s s' :: "'x wd_db_scheme"
  assumes "settle_success_tx v5 w0 b n fee s = Inr (Some r, s')" and inv: "wd_inv H s" and k: "seen s w0"
  shows "wd_step H s s'"
proof -
  let ?i = "w_id w0"
  obtain w s1 s2 s3 s4 x p y ok z where w: "row s ?i = Some w" "funds_may_have_left (w_status w)" "w_status w \<noteq> WCompleted"
    and c: "wd_update_confirmations ?i b n s = Inr (x, s1)"
    and t: "settle_withdrawal ?i (w_user w0) (w_asset w0) (w_amount w0) (w_correlation w0) s1 = Inr (p, s2)"
    and f: "book_fee w0 fee s2 = Inr (y, s3)"
    and mc: "mark_completed ?i (post_result_id p) fee s3 = Inr (ok, s4)"
    and e: "\<exists>ev corr key. emit v5 ev corr key s4 = Inr (z, s')"
    using assms(1)
    by (auto simp: settle_success_tx_def tx_simps lock_row Let_def dest!: get_asset_by_id_Inr split: if_splits) blast
  obtain ev corr key where e: "emit v5 ev corr key s4 = Inr (z, s')" using e by blast
  note v = inv_view [OF inv w(1)]
  have cl: "same_claim w0 w" using seen_row [OF k inv w(1)] by (simp add: wd_evolves_def)
  have st: "w_status w \<in> {WBroadcast, WConfirming}"
    using w(2,3) by (simp add: funds_may_have_left_def)
  let ?w1 = "w\<lparr>w_block_number := Some b, w_confirmations := n, w_status := WConfirming\<rparr>"
  let ?w2 = "?w1\<lparr>w_status := WCompleted, w_settle_tx := Some (post_result_id p), w_fee_paid := Some fee, w_completed_at := Some (clock s3)\<rparr>"
  have m1: "moves ?i s s1 ?w1 (stages s ?i) (nonces s)"
    using wd_update_confirmations_view [OF v(1) c] st by (auto split: if_splits)
  have m2: "moves ?i s1 s2 ?w1 (insert Settled (stages s ?i)) (nonces s)"
    by (rule stage_moves(4) [OF moves_view [OF m1] _ _ _ t]) (use cl in \<open>simp_all add: same_claim_def\<close>)
  note m3 = book_fee_moves [OF moves_view [OF m2] f]
  have m4: "moves ?i s3 s4 ?w2 (insert Settled (stages s ?i)) (nonces s)"
    using mark_completed_view [OF moves_view [OF m3] mc] by simp
  have m: "moves ?i s s' ?w2 (insert Settled (stages s ?i)) (nonces s)"
    by (rule moves_trans [OF m1 moves_trans [OF m2 moves_trans [OF m3 moves_trans [OF m4 emit_moves [OF moves_view [OF m4] e]]]]])
  have "row_ok ?w2 (insert Settled (stages s ?i))"
    using v(2) st unfolding row_ok_def by (elim insertE) (auto simp: insert_commute)
  then show ?thesis
    by (rule keep_step [OF inv w(1) m _ evolvesI]) (use st in \<open>auto simp: same_claim_def\<close>)
qed

lemma in_flight_stays:
  assumes "wd_evolves w0 w" "w_status w0 \<in> {WBroadcast, WConfirming}" "\<not> withdrawal_is_terminal (w_status w)"
  shows "w_status w \<in> {WBroadcast, WConfirming}"
proof -
  have "w_status w0 \<in> {WBroadcast, WConfirming, WCompleted, WFailed}" using assms(2) by blast
  then have "w_status w \<in> {WBroadcast, WConfirming, WCompleted, WFailed}"
    using closed_reach [of "w_status w0" "w_status w", OF _ _ closed_sets(1)] assms(1) by (simp add: wd_evolves_def)
  then show ?thesis using assms(3) by (auto simp: withdrawal_is_terminal_def)
qed

lemma settle_failure_tx_step:
  fixes s s' :: "'x wd_db_scheme"
  assumes "settle_failure_tx v5 w0 fee s = Inr (Some r, s')" and inv: "wd_inv H s" and k: "seen s w0"
    and fl: "w_status w0 \<in> {WBroadcast, WConfirming}"
  shows "wd_step H s s'"
proof -
  let ?i = "w_id w0" and ?code = "''onchain_revert''"
    and ?msg = "''the withdrawal transaction reverted on chain; funds were returned''"
  obtain w s1 s2 s3 s4 p q y ok z where w: "row s ?i = Some w" "\<not> withdrawal_is_terminal (w_status w)"
    and b: "reverse_broadcast ?i (w_asset w0) (w_amount w0) (w_correlation w0) s = Inr (p, s1)"
    and rl: "release_of w0 s1 = Inr (q, s2)"
    and f: "book_fee w0 fee s2 = Inr (y, s3)"
    and mf: "mark_failed ?i (w_status w) ?code ?msg s3 = Inr (ok, s4)"
    and e: "enqueue_failure v5 w0 ?code ''transaction reverted on chain'' s4 = Inr (z, s')"
    using assms(1) by (auto simp: settle_failure_tx_def tx_simps lock_row Let_def split: if_splits)
  note v = inv_view [OF inv w(1)] and ev = seen_row [OF k inv w(1)]
  have cl: "same_claim w0 w" using ev by (simp add: wd_evolves_def)
  note st = in_flight_stays [OF ev fl w(2)]
  let ?w = "w\<lparr>w_status := WFailed, w_failure_code := Some ?code, w_failure_reason := Some ?msg\<rparr>"
  let ?T = "insert Released (insert Returned (stages s ?i))"
  have m1: "moves ?i s s1 w (insert Returned (stages s ?i)) (nonces s)"
    by (rule stage_moves(5) [OF v(1) _ _ _ b]) (use cl in \<open>simp_all add: same_claim_def\<close>)
  have m2: "moves ?i s1 s2 w ?T (nonces s)"
    by (rule stage_moves(2) [OF moves_view [OF m1] _ _ _ rl [unfolded release_of_def]]) (use cl in \<open>simp_all add: same_claim_def\<close>)
  note m3 = book_fee_moves [OF moves_view [OF m2] f]
  have m4: "moves ?i s3 s4 ?w ?T (nonces s)"
    using mark_failed_view [OF moves_view [OF m3] mf] by simp
  note m5 = emit_moves [OF moves_view [OF m4] e [unfolded enqueue_failure_def]]
  have m: "moves ?i s s' ?w ?T (nonces s)"
    by (rule moves_trans [OF m1 moves_trans [OF m2 moves_trans [OF m3 moves_trans [OF m4 m5]]]])
  have "row_ok ?w ?T"
    using v(2) st unfolding row_ok_def by (elim insertE) (auto simp: insert_commute)
  then show ?thesis
    by (rule keep_step [OF inv w(1) m _ evolvesI]) (use st in \<open>auto simp: same_claim_def\<close>)
qed

section \<open>Signing\<close>

lemma allocate_nonce_view:
  fixes s s' :: "'x wd_db_scheme"
  assumes v: "view i w T ns s" and a: "allocate_nonce c addr hint s = Inr (n, s')"
  shows "moves i s s' w T (nonces s') \<and> withdrawals s' = withdrawals s \<and>
    (\<forall>c' a'. (c', a') \<noteq> (c, addr) \<longrightarrow>
       find (\<lambda>r. cn_chain r = c' \<and> cn_address r = a') (nonces s') = find (\<lambda>r. cn_chain r = c' \<and> cn_address r = a') ns) \<and>
    (\<exists>r. find (\<lambda>r. cn_chain r = c \<and> cn_address r = addr) (nonces s') = Some r \<and> n < cn_next r) \<and>
    (\<forall>r. find (\<lambda>r. cn_chain r = c \<and> cn_address r = addr) ns = Some r \<longrightarrow> cn_next r \<le> n)"
proof -
  have ns: "nonces s = ns" using v by (simp add: view_def)
  let ?f = "find (\<lambda>r. cn_chain r = c \<and> cn_address r = addr) ns"
  define ns' where ns': "ns' = (case ?f of None \<Rightarrow> ns @ [\<lparr>cn_chain = c, cn_address = addr, cn_next = hint + 1\<rparr>]
    | Some r \<Rightarrow> upd_where (\<lambda>r. cn_chain r = c \<and> cn_address r = addr) (\<lambda>q. q\<lparr>cn_next := max (cn_next r) hint + 1\<rparr>) ns)"
  have "s' = s\<lparr>nonces := ns'\<rparr> \<and> n = (case ?f of None \<Rightarrow> hint | Some r \<Rightarrow> max (cn_next r) hint)"
    using a unfolding allocate_nonce_def Let_def ns ns' by (cases ?f) (auto split: if_splits)
  then have s': "s' = s\<lparr>nonces := ns'\<rparr>" and n: "n = (case ?f of None \<Rightarrow> hint | Some r \<Rightarrow> max (cn_next r) hint)"
    by simp_all
  have l: "ledger_same s s'" "chain_same s s'" by (simp_all add: s' ledger_same_def chain_same_def)
  have "moves i s s' w T (nonces s')"
    using same_core [OF l, OF _ view_core [OF v]] v ledger_same_facts(3) [OF l(1)]
    by (simp add: moves_def view_def touches_def row_def s')
  moreover have "find (\<lambda>r. cn_chain r = c' \<and> cn_address r = a') (nonces s') = find (\<lambda>r. cn_chain r = c' \<and> cn_address r = a') ns"
    if "(c', a') \<noteq> (c, addr)" for c' a'
  proof (cases "find (\<lambda>r. cn_chain r = c' \<and> cn_address r = a') ns")
    case None
    then show ?thesis using that
      by (auto simp: s' ns' find_append find_upd_where split: option.splits)
  next
    case (Some r)
    then have "cn_chain r = c'" "cn_address r = a'" by (auto dest!: find_Some_setD)
    then show ?thesis using that Some
      by (auto simp: s' ns' find_append find_upd_where split: option.splits)
  qed
  moreover have "\<exists>r. find (\<lambda>r. cn_chain r = c \<and> cn_address r = addr) (nonces s') = Some r \<and> n < cn_next r"
  proof (cases "find (\<lambda>r. cn_chain r = c \<and> cn_address r = addr) ns")
    case None
    then show ?thesis by (simp add: s' ns' n find_append)
  next
    case (Some r)
    then have "cn_chain r = c \<and> cn_address r = addr" by (auto dest!: find_Some_setD)
    with Some show ?thesis by (simp add: s' ns' n find_upd_where less_Suc_eq_le)
  qed
  moreover have "withdrawals s' = withdrawals s" by (simp add: s')
  ultimately show ?thesis using n by auto
qed

text \<open>A fresh nonce from the counter of the hot wallet keeps the nonces apart.\<close>

lemma fresh_nonce_ok:
  fixes s s' :: "'x wd_db_scheme"
  assumes inv: "wd_inv H s" and w: "row s i = Some w" and a: "allocate_nonce (w_chain w) (H (w_chain w)) hint t = Inr (n, t')"
    and t: "view i w1 T (nonces s) t" and m: "moves i s s' w' T (nonces t')"
    and w': "w_nonce w' = Some n" "w_chain w' = w_chain w"
  shows "nonces_ok H s'"
proof -
  note core = wd_inv_core [OF inv] and f = allocate_nonce_view [OF t a]
  have ok: "nonces_ok H s" using inv by (simp add: wd_inv_def)
  have ns: "nonces s' = nonces t'" using m by (simp add: moves_def view_def)
  have other: "counter H c (nonces t') = counter H c (nonces s)" if "c \<noteq> w_chain w" for c
    using f that by (simp add: counter_def)
  obtain r where r: "counter H (w_chain w) (nonces t') = Some r" "n < cn_next r" using f by (auto simp: counter_def)
  have up: "cn_next q \<le> n" if "counter H (w_chain w) (nonces s) = Some q" for q using f that by (simp add: counter_def)
  have old: "nonce_below H (nonces s) v" if "v \<in> set (withdrawals s)" for v using ok that by (simp add: nonces_ok_def)
  have below: "nonce_below H (nonces s') v" if "v \<in> set (withdrawals s')" for v
  proof (cases "v = w'")
    case True
    then show ?thesis using r w' by (simp add: nonce_below_def ns)
  next
    case False
    then have v: "v \<in> set (withdrawals s)" using moves_mem [OF m core that] by blast
    show ?thesis
    proof (cases "w_chain v = w_chain w")
      case True
      then show ?thesis using old [OF v] up r by (fastforce simp: nonce_below_def ns)
    next
      case False
      then show ?thesis using old [OF v] other by (simp add: nonce_below_def ns)
    qed
  qed
  have lt: "w_nonce v \<noteq> Some n" if "v \<in> set (withdrawals s)" "w_chain v = w_chain w" for v
    using old [OF that(1)] that(2) up by (fastforce simp: nonce_below_def)
  have "nonce_apart v v'" if v: "v \<in> set (withdrawals s')" "v' \<in> set (withdrawals s')" for v v'
  proof -
    consider "v = w'" "v' = w'" | "v = w'" "v' \<in> set (withdrawals s)" | "v' = w'" "v \<in> set (withdrawals s)"
      | "v \<in> set (withdrawals s)" "v' \<in> set (withdrawals s)"
      using moves_mem [OF m core v(1)] moves_mem [OF m core v(2)] by blast
    then show ?thesis
    proof cases
      case 2
      then show ?thesis using lt [of v'] w' by (auto simp: nonce_apart_def)
    next
      case 3
      then show ?thesis using lt [of v] w' by (auto simp: nonce_apart_def)
    next
      case 4
      then show ?thesis using ok by (simp add: nonces_ok_def)
    qed (simp add: nonce_apart_def)
  qed
  with below show ?thesis by (simp add: nonces_ok_def)
qed

lemma sign_tx_step:
  fixes s s' :: "'x wd_db_scheme"
  assumes "sign_tx signer adapter hot i s = Inr (Some (signed, n), s')" and inv: "wd_inv H s"
    and h: "\<And>w. row s i = Some w \<Longrightarrow> storage_key hot = H (w_chain w)"
  shows "wd_step H s s'" "\<exists>w'. row s' i = Some w' \<and> w_status w' = WSigning \<and> w_tx_hash w' = Some (st_tx_hash signed) \<and>
    w_nonce w' = Some n" "touches i s s'"
proof -
  obtain w s1 ok s2 us x hint where w: "row s i = Some w" "w_status w = WApproved"
    and t: "transition (w_id w) WApproved WSigning s = Inr (ok, s1)"
    and a: "allocate_nonce (w_chain w) (storage_key hot) hint s1 = Inr (n, s2)"
    and r: "record_signed_transaction (w_id w) (facts_of us (st_tx_hash signed) n) s2 = Inr (x, s')"
    using assms(1) by (auto simp: sign_tx_def tx_simps lock_row split: if_splits dest!: get_asset_by_id_Inr)
  have i: "w_id w = i" using w(1) row_Some [OF wd_inv_core [OF inv]] by blast
  note v = inv_view [OF inv w(1)]
  let ?w = "w\<lparr>w_status := WSigning\<rparr>"
  have m1: "moves i s s1 ?w (stages s i) (nonces s)"
    using transition_view [OF v(1) t [unfolded i]] w(2) by simp
  have m2: "moves i s1 s2 ?w (stages s i) (nonces s2)" using allocate_nonce_view [OF moves_view [OF m1] a] by blast
  obtain w' where w': "moves i s2 s' w' (stages s i) (nonces s2)" "same_claim w w'" "w_status w' = WSigning"
      "w_tx_hash w' = Some (st_tx_hash signed)" "w_nonce w' = Some n" "w_reserve_tx w' = w_reserve_tx w"
    using record_signed_view [OF moves_view [OF m2] r [unfolded i]]
    by (cases us) (fastforce simp: same_claim_def)
  have m: "moves i s s' w' (stages s i) (nonces s2)" by (rule moves_trans [OF m1 moves_trans [OF m2 w'(1)]])
  then have ns: "nonces s' = nonces s2" by (simp add: moves_def view_def)
  have nh: "w_tx_hash w = None" using v(2) w(2) by (simp add: row_ok_def given_def)
  show "wd_step H s s'"
  proof (rule moves_step [OF inv])
    show "moves i s s' w' (stages s i) (nonces s')" using m ns by simp
    show "row_ok w' (stages s i)" using v(2) w(2) w' by (simp add: row_ok_def same_claim_def)
    show "wd_evolves u w'" if "row s i = Some u" for u
      using that w w' nh by (auto simp: wd_evolves_def intro: r_into_rtranclp)
    show "nonces_ok H s'"
      using w'(2,5) a h [OF w(1)] by (intro fresh_nonce_ok [OF inv w(1) _ moves_view [OF m1] m]) (simp_all add: same_claim_def)
  qed
  show "\<exists>w'. row s' i = Some w' \<and> w_status w' = WSigning \<and> w_tx_hash w' = Some (st_tx_hash signed) \<and> w_nonce w' = Some n"
    "touches i s s'" using m w' by (auto simp: moves_def view_def)
qed

section \<open>Creation\<close>

lemma created_row:
  fixes s s' :: "'x wd_db_scheme"
  assumes c: "create_withdrawal n s = Inr (CreatedRow w, s')" and core: "wd_core s"
  shows "moves (w_id w) s s' w {} (nonces s)" "row s (w_id w) = None" "w_user w = nw_user n" "w_asset w = nw_asset n"
    "w_amount w = nw_amount n" "w_status w = WRequested" "w_tx_hash w = None" "w_nonce w = None" "w_reserve_tx w = None"
    "0 < w_amount w" "w_chain w = nw_chain n"
proof -
  have s': "s' = s\<lparr>id_next := Suc (id_next s), withdrawals := withdrawals s @ [w]\<rparr>" and wi: "w_id w = id_src s (id_next s)"
    and w: "w_user w = nw_user n" "w_asset w = nw_asset n" "w_amount w = nw_amount n" "w_status w = WRequested"
      "w_tx_hash w = None" "w_nonce w = None" "w_reserve_tx w = None" "w_chain w = nw_chain n"
    using c by (auto simp: create_withdrawal_def Let_def gen_uuid_def tx_simps split: sum.splits option.splits if_splits)
  show "w_user w = nw_user n" "w_asset w = nw_asset n" "w_amount w = nw_amount n" "w_status w = WRequested"
    "w_tx_hash w = None" "w_nonce w = None" "w_reserve_tx w = None" "w_chain w = nw_chain n" using w by simp_all
  show "0 < w_amount w"
    using c w(3) by (auto simp: create_withdrawal_def Let_def check_row_def violated_check_def split: if_splits)
  have l: "ledger_same s s'" by (simp add: s' ledger_same_def)
  have cs: "chain_same s s'" by (simp add: s' chain_same_def)
  have inj: "inj (id_src s)"
    using wd_core_ledger [OF core] by (simp add: ledger_inv_def ledger_core_def accounts_ok_def)
  have fresh: "w_id w \<notin> w_id ` set (withdrawals s)"
    using used_ids_fresh [OF inj] core wi by (auto simp: wd_core_def)
  then show none: "row s (w_id w) = None" unfolding row_def find_None_set by (metis imageI)
  have st: "stages s' = stages s" by (simp add: fun_eq_iff stages_def ledger_same_facts(1) [OF l])
  have st0: "stages s (w_id w) = {}" using core fresh by (auto simp: wd_core_def)
  have u: "used_ids s' = insert (w_id w) (used_ids s)" by (simp add: s' wi used_ids_def lessThan_Suc)
  have app: "withdrawals s' = withdrawals s @ [w]" by (simp add: s')
  have z: "held {} = 0" "flying {} = 0" "paid {} = 0" by (simp_all add: held_def flying_def paid_def)
  have ws: "wd_sum h P s' = wd_sum h P s" if "h {} = 0" for h P
    using that by (simp add: wd_sum_def st st0 app cong: if_cong)
  have "user_position s' = user_position s" "credited_total s' = credited_total s"
    using cs by (simp_all add: fun_eq_iff user_position_def credited_total_def chain_same_def ledger_same_facts(2) [OF l])
  then have "books s'"
    using core ws [of held, OF z(1)] ws [of flying, OF z(2)] ws [of paid, OF z(3)] ledger_same_facts(2) [OF l]
    by (simp add: books_def wd_core_def)
  moreover have "chain_inv s'" by (rule chain_inv_same [OF l cs wd_core_chain [OF core]])
  ultimately have core': "wd_core s'"
    using core fresh u unfolding wd_core_def st by (auto simp: s' unique_key_append)
  have "row s' j = (if j = w_id w then Some w else row s j)" for j
    using none by (auto simp: row_def s' find_append split: option.splits)
  then show "moves (w_id w) s s' w {} (nonces s)"
    using core' st st0 ledger_same_facts(3) [OF l] by (simp add: moves_def view_def touches_def s')
qed

lemma risk_facts_Inr: "risk_facts req cc ac a d s = Inr (f, s') \<Longrightarrow> s' = s"
  by (auto simp: risk_facts_def tx_simps user_balance_def sum_recent_withdrawals_def Let_def split: option.splits sum.splits)

text \<open>A request that is accepted, from the row it inserted.\<close>

lemma accept_tx_moves:
  fixes s s' :: "'x wd_db_scheme"
  assumes v: "view i w {} ns s" and w: "w_status w = WRequested" "w_id w = i" "w_tx_hash w = None" "w_nonce w = None" "0 < w_amount w"
    and c: "w_user w = wr_user req" "w_asset w = as_id asset" "w_amount w = wr_amount req"
    and a: "accept_tx v5 req asset d corr hld w s = Inr (r, s')"
  shows "\<exists>w'. moves i s s' w' {Reserved} ns \<and> row_ok w' {Reserved} \<and> w_nonce w' = None \<and> same_claim w w' \<and>
    w_status w' = (if hld then WValidated else WApproved) \<and> r = Accepted hld i"
proof -
  from a obtain o1 s1 p s2 s3 o2 s4 x y where t: "transition i WRequested WValidated s = Inr (o1, s1)"
    and rs: "reserve_withdrawal i (wr_user req) (as_id asset) (wr_amount req) (Some corr) s1 = Inr (p, s2)"
    and at: "attach_reservation i (post_result_id p) s2 = Inr (x, s3)"
    and ap: "(if hld then tx_return True else transition i WValidated WApproved) s3 = Inr (o2, s4)"
    and e: "\<exists>ev key. emit v5 ev corr key s4 = Inr (y, s')" and r: "r = Accepted hld i"
    unfolding accept_tx_def w(2) by (simp add: tx_simps) blast
  let ?w1 = "w\<lparr>w_status := WValidated\<rparr>" and ?w2 = "w\<lparr>w_status := WValidated, w_reserve_tx := Some (post_result_id p)\<rparr>"
  have m1: "moves i s s1 ?w1 {} ns" using transition_view [OF v t] w(1) by simp
  have m2: "moves i s1 s2 ?w1 {Reserved} ns"
    by (rule stage_moves(1) [OF moves_view [OF m1] _ _ _ rs]) (use c in simp_all)
  have m3: "moves i s2 s3 ?w2 {Reserved} ns" using attach_reservation_view [OF moves_view [OF m2] at] by simp
  have "\<exists>w'. moves i s3 s4 w' {Reserved} ns \<and> row_ok w' {Reserved} \<and> w_nonce w' = None \<and> same_claim w w' \<and>
      w_status w' = (if hld then WValidated else WApproved)"
  proof (cases hld)
    case True
    then have "moves i s3 s4 ?w2 {Reserved} ns" using ap moves_refl [OF moves_view [OF m3]] by (simp add: tx_simps)
    with True w show ?thesis by (intro exI [of _ ?w2]) (simp add: row_ok_def same_claim_def)
  next
    case False
    then have "moves i s3 s4 (?w2\<lparr>w_status := WApproved, w_approved_at := Some (clock s3)\<rparr>) {Reserved} ns"
      using transition_view [OF moves_view [OF m3], of WValidated WApproved o2 s4] ap by simp
    with False w show ?thesis
      by (intro exI [of _ "?w2\<lparr>w_status := WApproved, w_approved_at := Some (clock s3)\<rparr>"]) (simp add: row_ok_def same_claim_def)
  qed
  then obtain w' where w': "moves i s3 s4 w' {Reserved} ns" "row_ok w' {Reserved}" "w_nonce w' = None" "same_claim w w'"
    "w_status w' = (if hld then WValidated else WApproved)" by blast
  obtain ev key where e: "emit v5 ev corr key s4 = Inr (y, s')" using e by blast
  have "moves i s s' w' {Reserved} ns"
    by (rule moves_trans [OF m1 moves_trans [OF m2 moves_trans [OF m3 moves_trans [OF w'(1) emit_moves [OF moves_view [OF w'(1)] e]]]]])
  with w' r show ?thesis by blast
qed

lemma new_row_step:
  fixes s s' :: "'x wd_db_scheme"
  assumes inv: "wd_inv H s" and m: "moves i s s' w' T (nonces s)" and none: "row s i = None"
    and ok: "row_ok w' T" "w_nonce w' = None"
  shows "wd_step H s s'"
proof (rule moves_step [OF inv _ ok(1)])
  show "moves i s s' w' T (nonces s')" using m by (simp add: moves_def view_def)
  show "wd_evolves v w'" if "row s i = Some v" for v using that none by simp
  show "nonces_ok H s'" using none ok(2) by (intro moves_nonces [OF inv m]) simp_all
qed

text \<open>How the request transaction ends.\<close>

definition create_ended ::
  "(string \<Rightarrow> string) \<Rightarrow> withdrawal_request \<Rightarrow> asset \<Rightarrow> address \<Rightarrow> 'x wd_db_scheme \<Rightarrow> 'x wd_db_scheme \<Rightarrow> create_end \<Rightarrow> bool" where
  "create_ended digest req asset d s s' r \<longleftrightarrow> (case r of Replayed w \<Rightarrow> w \<in> set (withdrawals s) \<and> s' = s \<and> w_user w = wr_user req \<and>
             w_idempotency_key w = wr_idempotency_key req \<and> w_fingerprint w = fingerprint digest req (storage_key d)
         | DeniedBy code msg \<Rightarrow> \<exists>i w. row s i = None \<and> row s' i = Some w \<and> w_status w = WFailed \<and> stages s' i = {}
         | Accepted hld i \<Rightarrow> row s i = None \<and> (\<exists>w. row s' i = Some w \<and>
             w_status w = (if hld then WValidated else WApproved) \<and> stages s' i = {Reserved} \<and>
             w_user w = wr_user req \<and> w_asset w = as_id asset \<and> w_amount w = wr_amount req))"

lemma create_tx_step:
  fixes s s' :: "'x wd_db_scheme"
  assumes c: "create_tx digest v5 risk req cc ac asset d corr s = Inr (r, s')" and inv: "wd_inv H s"
  shows "wd_step H s s'"
    and "create_ended digest req asset d s s' r"
proof -
  let ?n = "\<lparr>nw_user = wr_user req, nw_asset = as_id asset, nw_chain = wr_chain req, nw_destination = d,
    nw_amount = wr_amount req, nw_idempotency_key = wr_idempotency_key req,
    nw_fingerprint = fingerprint digest req (storage_key d), nw_correlation = Some corr\<rparr>"
  obtain o1 s1 where cw: "create_withdrawal ?n s = Inr (o1, s1)" and more: "(case o1 of
       ExistingRow w \<Rightarrow> tx_return (Replayed w)
     | CreatedRow w \<Rightarrow>
         tx_bind (risk_facts req cc ac asset d) (\<lambda>facts.
         case evaluate risk facts of
           Deny code message \<Rightarrow>
             tx_then (mark_failed (w_id w) WRequested code message) (tx_return (DeniedBy code message))
         | decision \<Rightarrow> accept_tx v5 req asset d corr (requires_manual_approval decision) w)) s1 = Inr (r, s')"
    using c unfolding create_tx_def tx_bind_Inr by blast
  have both: "wd_step H s s' \<and> create_ended digest req asset d s s' r"
  proof (cases o1)
    case (ExistingRow w)
    have "s1 = s \<and> w \<in> set (withdrawals s) \<and> w_user w = wr_user req \<and> w_idempotency_key w = wr_idempotency_key req \<and>
        w_fingerprint w = fingerprint digest req (storage_key d)"
      using cw ExistingRow
      by (auto simp: create_withdrawal_def Let_def gen_uuid_def tx_simps split: sum.splits option.splits if_splits
          dest!: find_Some_setD)
    moreover have "r = Replayed w \<and> s' = s1"
      using more ExistingRow by (simp add: tx_simps)
    ultimately show ?thesis using wd_step_refl [OF inv] by (simp add: create_ended_def)
  next
    case (CreatedRow w)
    let ?i = "w_id w"
    note cr = created_row [OF cw [unfolded CreatedRow] wd_inv_core [OF inv], simplified]
    obtain f where rest: "(case evaluate risk f of
        Deny code message \<Rightarrow> tx_then (mark_failed ?i WRequested code message) (tx_return (DeniedBy code message))
      | decision \<Rightarrow> accept_tx v5 req asset d corr (requires_manual_approval decision) w) s1 = Inr (r, s')"
      using more unfolding CreatedRow by (auto simp: tx_bind_Inr dest!: risk_facts_Inr)
    show ?thesis
    proof (cases "decision_is_denied (evaluate risk f)")
      case True
      then obtain code msg where d: "evaluate risk f = Deny code msg" by (cases "evaluate risk f") simp_all
      with rest obtain ok where mf: "mark_failed ?i WRequested code msg s1 = Inr (ok, s')" and r: "r = DeniedBy code msg"
        by (auto simp: tx_simps)
      let ?w = "w\<lparr>w_status := WFailed, w_failure_code := Some code, w_failure_reason := Some msg\<rparr>"
      have m: "moves ?i s s' ?w {} (nonces s)"
        using moves_trans [OF cr(1)] mark_failed_view [OF moves_view [OF cr(1)] mf] cr(6) by simp
      moreover have "wd_step H s s'"
        by (rule new_row_step [OF inv m cr(2)]) (use cr in \<open>simp_all add: row_ok_def\<close>)
      ultimately show ?thesis using r cr(2) by (auto simp: moves_def view_def create_ended_def)
    next
      case False
      then have "accept_tx v5 req asset d corr (requires_manual_approval (evaluate risk f)) w s1 = Inr (r, s')"
        using rest by (cases "evaluate risk f") simp_all
      from accept_tx_moves [OF moves_view [OF cr(1)] _ _ _ _ _ _ _ _ this] cr obtain w' where
        w': "moves ?i s1 s' w' {Reserved} (nonces s)" "row_ok w' {Reserved}" "w_nonce w' = None" "same_claim w w'"
        "w_status w' = (if requires_manual_approval (evaluate risk f) then WValidated else WApproved)"
        and r: "r = Accepted (requires_manual_approval (evaluate risk f)) ?i" by auto
      have m: "moves ?i s s' w' {Reserved} (nonces s)" by (rule moves_trans [OF cr(1) w'(1)])
      moreover have "wd_step H s s'" by (rule new_row_step [OF inv m cr(2) w'(2,3)])
      ultimately show ?thesis using r cr w'(4,5) by (auto simp: moves_def view_def same_claim_def create_ended_def)
    qed
  qed
  then show "wd_step H s s'" "create_ended digest req asset d s s' r" by blast+
qed

end
