(* ===== verification/Withdrawal_Acts.thy ===== *)
theory Withdrawal_Acts
  imports Withdrawal_Run
begin

text \<open>
  The operations of the service and of the pipeline, each a sequence of transactions and calls to
  the node, are sequences of steps, whatever the node answers and wherever they fail.
\<close>

section \<open>Transactions as actions\<close>

lemma wd_step_ledger: "wd_step H s s' \<Longrightarrow> ledger_inv s'"
  unfolding wd_step_def by (blast intro: wd_inv_ledger)

lemma step_seen: "wd_step H s s' \<Longrightarrow> seen s w \<Longrightarrow> seen s' w"
  unfolding wd_step_def by (blast intro: seen_mono)

lemma or_rollback_state:
  fixes s :: "'x wd_db_scheme"
  assumes "wd_inv H s" "\<And>a s'. m s = Inr (Some a, s') \<Longrightarrow> wd_step H s s'"
  shows "wd_step H s (snd (or_rollback m s))"
    "or_rollback m s = (Inr (Some a), s') \<longleftrightarrow> m s = Inr (Some a, s')"
proof -
  have c: "commit s' = Inr ((), s')" if "m s = Inr (Some a, s')" for a s'
    using assms(2) [OF that] by (intro commit_inv wd_step_ledger)
  have some: "or_rollback m s = (Inr (Some a), s')" if "m s = Inr (Some a, s')" for a s'
    using that c [OF that] by (simp add: or_rollback_def atomically_def tx_eval)
  have other: "snd (or_rollback m s) = s \<and> (\<forall>a. fst (or_rollback m s) \<noteq> Inr (Some a))" if "\<forall>a s'. m s \<noteq> Inr (Some a, s')"
    using that by (auto simp: or_rollback_def atomically_def tx_eval split: sum.splits option.splits prod.splits)
  show "or_rollback m s = (Inr (Some a), s') \<longleftrightarrow> m s = Inr (Some a, s')"
  proof (cases "\<exists>a s'. m s = Inr (Some a, s')")
    case True
    then show ?thesis using some by auto
  next
    case False
    then show ?thesis using other by auto
  qed
  show "wd_step H s (snd (or_rollback m s))"
  proof (cases "\<exists>a s'. m s = Inr (Some a, s')")
    case True
    then show ?thesis using some assms(2) by auto
  next
    case False
    then show ?thesis using other wd_step_refl [OF assms(1)] by simp
  qed
qed

lemma rollback_acts:
  assumes "\<And>s a s'. wd_inv H s \<Longrightarrow> \<forall>w\<in>K. seen s w \<Longrightarrow> m s = Inr (Some a, s') \<Longrightarrow> wd_step H s s'"
  shows "ws.acts H K (or_rollback m)"
  by (rule ws.actsI) (use or_rollback_state(1) [of H _ m] assms step_seen in blast)

lemma atomically_step:
  fixes s :: "'x wd_db_scheme"
  assumes "wd_inv H s" "\<And>a s'. m s = Inr (a, s') \<Longrightarrow> wd_step H s s'"
  shows "wd_step H s (snd (atomically m s))"
    "atomically m s = (case m s of Inl e \<Rightarrow> (Inl e, s) | Inr (a, s') \<Rightarrow> (Inr a, s'))"
proof -
  show a: "atomically m s = (case m s of Inl e \<Rightarrow> (Inl e, s) | Inr (a, s') \<Rightarrow> (Inr a, s'))"
    by (rule atomically_inv) (use assms(2) wd_step_ledger in blast)
  show "wd_step H s (snd (atomically m s))"
    using assms(2) wd_step_refl [OF assms(1)] by (auto simp: a split: sum.split)
qed

text \<open>The log of the network is not part of the database.\<close>

lemma sent_step:
  fixes s :: "'x wd_net_scheme"
  assumes "wd_inv H s"
  shows "wd_step H s (s\<lparr>sent := l\<rparr>)"
proof -
  let ?s = "s\<lparr>sent := l\<rparr>"
  have l: "ledger_same s ?s" "chain_same s ?s" by (simp_all add: ledger_same_def chain_same_def)
  note c = same_core [OF l _ wd_inv_core [OF assms]]
  have "wd_inv H ?s" using assms c by (simp add: wd_inv_def nonces_ok_def)
  moreover have "withdrawals_evolve s ?s" using seen_mem [of _ ?s] by (simp add: withdrawals_evolve_def)
  ultimately show ?thesis using ledger_same_facts(3) [OF l(1)] by (simp add: wd_step_def)
qed

section \<open>The service\<close>

lemma then_get_step:
  assumes "wd_inv H s" "\<And>u s'. m s = Inr (u, s') \<Longrightarrow> wd_step H s s'"
  shows "wd_step H s (snd (then_get i m s))"
  using atomically_step(1) [of H s m, OF assms] wd_step_refl [OF assms(1)]
  by (auto simp: then_get_def split: sum.split prod.split)

lemma approve_step: "wd_inv H s \<Longrightarrow> wd_step H s (snd (approve i s))"
  unfolding approve_def by (rule then_get_step) (auto intro: approve_tx_step)

lemma cancel_step: "wd_inv H s \<Longrightarrow> wd_step H s (snd (cancel i reason s))"
  unfolding cancel_def by (rule then_get_step) (auto intro: cancel_tx_step)

lemma create_step:
  fixes s :: "'x wd_db_scheme"
  assumes "wd_inv H s"
  shows "wd_step H s (snd (create keccak digest v5 cfg risk fc req s))"
proof -
  have "wd_step H s (snd (atomically (create_tx digest v5 risk req cc ac asset d corr) s))" for cc ac asset d corr
    by (rule atomically_step(1) [OF assms]) (rule create_tx_step(1) [OF _ assms])
  then show ?thesis using wd_step_refl [OF assms]
    by (auto simp: create_def split: sum.split prod.split create_end.split) (metis snd_conv)+
qed

section \<open>The pipeline\<close>

lemma send_acts: "ws.acts H K (send adapter signed)"
  unfolding ws.acts_def send_def snd_conv by (blast intro: sent_step step_seen)

lemma mark_broadcast_acts: "ws.acts H K (mark_broadcast v5 i h n)"
  unfolding mark_broadcast_def by (rule rollback_acts) (auto intro: mark_broadcast_tx_step(1))

lemma fail_and_release_acts: "w \<in> K \<Longrightarrow> ws.acts H K (fail_and_release v5 w code reason)"
  unfolding fail_and_release_def
  by (intro ws.act_rules rollback_acts) (auto intro: fail_and_release_tx_step)

lemma settle_success_acts: "w \<in> K \<Longrightarrow> ws.acts H K (settle_success v5 w b n fee)"
  unfolding settle_success_def by (rule rollback_acts) (auto intro: settle_success_tx_step)

lemma settle_failure_acts:
  "w \<in> K \<Longrightarrow> w_status w \<in> {WBroadcast, WConfirming} \<Longrightarrow> ws.acts H K (settle_failure v5 w fee)"
  unfolding settle_failure_def by (rule rollback_acts) (blast intro: settle_failure_tx_step)

lemma confirm_acts: "w \<in> K \<Longrightarrow> ws.acts H K (or_rollback (confirm_tx w b n))"
  by (rule rollback_acts) (blast intro: confirm_tx_step)

text \<open>The row behind a snapshot is on the snapshot's chain.\<close>

lemma sign_acts:
  assumes "w \<in> K" "w_id w = i" "storage_key hot = H (w_chain w)"
  shows "ws.acts H K (or_rollback (sign_tx signer adapter hot i))"
proof (rule rollback_acts)
  fix s :: "'a wd_db_scheme" and a s'
  assume inv: "wd_inv H s" and k: "\<forall>w\<in>K. seen s w" and r: "sign_tx signer adapter hot i s = Inr (Some a, s')"
  obtain signed n where a: "a = (signed, n)" by fastforce
  have "seen s w" using k assms(1) by blast
  then have "w_chain v = w_chain w" if "row s i = Some v" for v
    using seen_row [OF _ inv, of w v] that assms(2) by (simp add: wd_evolves_def same_claim_def)
  then show "wd_step H s s'" using sign_tx_step(1) [OF r [unfolded a] inv] assms(3) by simp
qed

lemma sign_and_broadcast_acts:
  "w \<in> K \<Longrightarrow> w_id w = i \<Longrightarrow> storage_key hot = H (w_chain w) \<Longrightarrow> ws.acts H K (sign_and_broadcast v5 signer adapter hot i)"
  unfolding sign_and_broadcast_def
  by (intro ws.act_rules sign_acts) (auto split: prod.split intro!: ws.act_rules send_acts mark_broadcast_acts)

lemma fail_before_broadcast_acts: "ws.acts H K (fail_before_broadcast v5 i err)"
proof (rule ws.actsI)
  fix s :: "'a wd_net_scheme" assume s: "wd_inv H s \<and> (\<forall>w\<in>K. seen s w)"
  show "wd_step H s (snd (fail_before_broadcast v5 i err s)) \<and> (\<forall>w\<in>K. seen (snd (fail_before_broadcast v5 i err s)) w)"
  proof (cases "get_withdrawal i s")
    case (Inl e)
    then show ?thesis using s wd_step_refl [of H s] by (simp add: fail_before_broadcast_def act_eval)
  next
    case (Inr r)
    then obtain w where w: "get_withdrawal i s = Inr (w, s)" "w \<in> set (withdrawals s)"
      by (auto simp: get_withdrawal_def split: option.splits dest: find_Some_setD)
    have "wd_inv H s \<and> (\<forall>v\<in>insert w K. seen s v)" using s w(2) seen_mem by blast
    then have "wd_step H s (snd (fail_and_release v5 w c m s)) \<and> (\<forall>v\<in>insert w K. seen (snd (fail_and_release v5 w c m s)) v)" for c m
      by (rule ws.actsD [OF fail_and_release_acts, of w "insert w K", OF insertI1])
    then show ?thesis using s w(1) wd_step_refl [of H s] by (simp add: fail_before_broadcast_def act_eval)
  qed
qed

lemma approved_step_acts:
  "w \<in> K \<Longrightarrow> w_id w = i \<Longrightarrow> storage_key hot = H (w_chain w) \<Longrightarrow> ws.acts H K (approved_step v5 signer adapter hot i pass)"
  unfolding approved_step_def by (intro ws.act_rules sign_and_broadcast_acts fail_before_broadcast_acts)

lemma rebroadcast_acts: "ws.acts H K (rebroadcast v5 p adapter w)"
  unfolding rebroadcast_def by (intro ws.act_rules send_acts mark_broadcast_acts)

lemma recover_step_acts: "w \<in> K \<Longrightarrow> ws.acts H K (recover_step v5 p adapter head w n)"
  unfolding recover_step_def by (intro ws.act_rules rebroadcast_acts fail_and_release_acts mark_broadcast_acts)

lemma in_flight_step_acts:
  "w \<in> K \<Longrightarrow> w_status w \<in> {WBroadcast, WConfirming} \<Longrightarrow> ws.acts H K (in_flight_step v5 adapter req head w pass)"
  unfolding in_flight_step_def
  by (intro ws.act_rules) (auto split: tx_status.split intro!: ws.act_rules settle_failure_acts settle_success_acts confirm_acts)

text \<open>
  The hot wallets of a configuration. A pass reads a batch of rows and works on these snapshots,
  which stay behind the rows as others change them.
\<close>

definition hot_wallets :: "app_config \<Rightarrow> string \<Rightarrow> string" where
  "hot_wallets cfg c = (case cfg_chain cfg c of
     None \<Rightarrow> [] | Some cc \<Rightarrow> (case ch_hot_wallet cc of None \<Rightarrow> [] | Some h \<Rightarrow> to_ascii_lowercase h))"

lemma claim_by_status_mem:
  "w \<in> set (claim_by_status locked chain st n s) \<Longrightarrow> w \<in> set (withdrawals s) \<and> w_chain w = chain \<and> w_status w = st"
  by (auto simp: claim_by_status_def dest!: in_set_takeD)

lemma batch_step:
  assumes "wd_inv H s" "set ws \<subseteq> set (withdrawals s)"
    "\<And>x b. x \<in> set xs \<Longrightarrow> ws.acts H (set ws) (f x b)"
  shows "wd_step H s (snd (act_fold f xs b s))"
  using ws.actsD [OF ws.acts_fold [of xs H "set ws" f b, OF assms(3)], of s] assms(1,2) seen_mem [of _ s] by blast

lemma process_approved_step:
  assumes inv: "wd_inv (hot_wallets (wp_cfg p)) s"
  shows "wd_step (hot_wallets (wp_cfg p)) s (snd (process_approved v5 p locked chain s))"
proof -
  let ?H = "hot_wallets (wp_cfg p)" and ?ws = "claim_by_status locked chain WApproved (wp_batch_size p) s"
  have fold: "wd_step ?H s (snd (act_fold (approved_step v5 (wp_signer p) ad (to_ascii_lowercase h)) (map w_id ?ws) b s))"
    if "cfg_chain (wp_cfg p) chain = Some cc" "ch_hot_wallet cc = Some h" for ad b cc h
  proof (rule batch_step [OF inv, of ?ws])
    show "set ?ws \<subseteq> set (withdrawals s)" using claim_by_status_mem by blast
    fix i b' assume "i \<in> set (map w_id ?ws)"
    then obtain w where w: "w \<in> set ?ws" "w_id w = i" by auto
    have "storage_key (to_ascii_lowercase h) = ?H (w_chain w)"
      using that claim_by_status_mem [OF w(1)] by (simp add: hot_wallets_def storage_key_def)
    with w show "ws.acts ?H (set ?ws) (approved_step v5 (wp_signer p) ad (to_ascii_lowercase h) i b')"
      by (rule approved_step_acts)
  qed
  show ?thesis
    using fold wd_step_refl [OF inv]
    by (auto simp: process_approved_def act_eval svc_chain_config_def tx_read_def split: sum.split option.split)
qed

lemma recover_signing_step:
  assumes inv: "wd_inv H s"
  shows "wd_step H s (snd (recover_signing v5 p locked chain s))"
proof -
  let ?ws = "claim_by_status locked chain WSigning (wp_batch_size p) s"
  have "wd_step H s (snd (act_fold (recover_step v5 p ad head) ?ws b s))" for ad head b
    by (rule batch_step [OF inv, of ?ws]) (use claim_by_status_mem in \<open>blast intro: recover_step_acts\<close>)+
  then show ?thesis using wd_step_refl [OF inv]
    by (auto simp: recover_signing_def act_eval tx_read_def split: sum.split)
qed

lemma process_in_flight_step:
  assumes inv: "wd_inv H s"
  shows "wd_step H s (snd (process_in_flight v5 p locked chain s))"
proof -
  let ?ws = "claim_by_status locked chain WBroadcast (wp_batch_size p) s @ claim_by_status locked chain WConfirming (wp_batch_size p) s"
  have mem: "w \<in> set (withdrawals s) \<and> w_status w \<in> {WBroadcast, WConfirming}" if "w \<in> set ?ws" for w
    using that by (auto dest!: claim_by_status_mem)
  have "wd_step H s (snd (act_fold (in_flight_step v5 ad req head) ?ws b s))" for ad req head b
    by (rule batch_step [OF inv, of ?ws]) (use mem in \<open>blast intro: in_flight_step_acts\<close>)+
  then show ?thesis using wd_step_refl [OF inv]
    by (auto simp: process_in_flight_def act_eval tx_read_def svc_chain_config_def split: sum.split option.split)
qed

lemma chain_pass_acts:
  assumes "wp_cfg p2 = cfg"
  shows "ws.acts (hot_wallets cfg) {} (chain_pass v5 p1 p2 p3 locked cc acc)"
proof -
  have "ws.acts (hot_wallets cfg) {} (recover_signing v5 p1 locked c)" "ws.acts (hot_wallets cfg) {} (process_approved v5 p2 locked c)"
    "ws.acts (hot_wallets cfg) {} (process_in_flight v5 p3 locked c)" for c
    unfolding assms [symmetric] ws.acts_def
    using process_approved_step recover_signing_step process_in_flight_step by blast+
  then show ?thesis unfolding chain_pass_def by (intro ws.act_rules)
qed

lemma run_once_step:
  assumes "wp_cfg p2 = cfg" "wd_inv (hot_wallets cfg) s"
  shows "wd_step (hot_wallets cfg) s (snd (run_once v5 p1 p2 p3 locked s))"
proof -
  have "ws.acts (hot_wallets cfg) {} (run_once v5 p1 p2 p3 locked)"
    unfolding run_once_def by (intro ws.acts_fold chain_pass_acts [OF assms(1)])
  then show ?thesis using ws.actsD assms(2) by blast
qed

end
