(* ===== verification/System.thy ===== *)
theory System
  imports Deposit_Spec Withdrawal_Acts
begin

text \<open>
  The running system: deposit pipeline, withdrawal requests and withdrawal workers over one
  database. A history is any sequence of calls, in which a worker's transactions may interleave
  with everything else; what a worker read earlier it keeps as a snapshot, which may be stale when
  it acts on it.
\<close>

section \<open>Deposits and withdrawals share a database\<close>

text \<open>A step of the deposit side leaves the withdrawal side as it was.\<close>

lemma deposit_step_is_step:
  fixes s s' :: "'x wd_db_scheme"
  assumes inv: "wd_inv H s" and d: "deposit_step s s'"
  shows "wd_step H s s'"
proof -
  note core = wd_inv_core [OF inv]
  have k: "withdrawals_kept s s'" and gap: "deposit_gap s' = deposit_gap s" and ch: "chain_inv s'"
    using d by (simp_all add: deposit_step_def)
  have "chain_db.more s' = chain_db.more s" using k by (simp add: withdrawals_kept_def)
  then have t: "withdrawals s' = withdrawals s" "nonces s' = nonces s" by (cases s; cases s'; simp)+
  have st: "stages s' = stages s" using k by (simp add: fun_eq_iff stages_def withdrawals_kept_def)
  have ws: "wd_sum h P s' = wd_sum h P s" for h P by (simp add: wd_sum_def t st cong: if_cong)
  have "user_position s' u x - credited_total s' u x = user_position s u x - credited_total s u x" for u x
    using fun_cong [OF fun_cong [OF gap, of u], of x] by (simp add: deposit_gap_def)
  moreover have bk: "books s" using core by (simp add: wd_core_def)
  ultimately have pos: "user_position s' u x = credited_total s' u x - wd_sum paid (of_user u x) s" for u x
    unfolding books_def by (smt (verit))
  have "books s'" using bk pos k by (simp add: books_def ws withdrawals_kept_def)
  moreover have "used_ids s \<subseteq> used_ids s'" using k by (intro used_ids_mono) (simp_all add: withdrawals_kept_def)
  ultimately have "wd_core s'" using core ch unfolding wd_core_def st t by blast
  then have "wd_inv H s'" using inv by (simp add: wd_inv_def st t nonces_ok_def)
  moreover have "withdrawals_evolve s s'" using seen_mem [of _ s'] by (simp add: withdrawals_evolve_def t)
  ultimately show ?thesis using d by (simp add: wd_step_def deposit_step_def)
qed

lemma fund_custody_step:
  fixes s s' :: "'x wd_db_scheme"
  assumes inv: "wd_inv H s" and f: "fund_custody x m ref c s = Inr (r, s')"
  shows "wd_step H s s'"
proof -
  note p = fund_custody_posts [OF wd_inv_ledger [OF inv] f]
  have a: "''custody_funding:'' @ ref \<noteq> stage_key t j" for t j by (cases t) simp_all
  have b: "''custody_funding:'' @ ref \<notin> deposit_keys" by (auto simp: deposit_keys_def credit_key_def reversal_key_def)
  have "wd_core s' \<and> stages s' = stages s"
    by (rule other_post [OF p wd_inv_core [OF inv] b a]) (auto simp: leg_delta_def)
  then show ?thesis
    using inv posts_wd [OF p] seen_mem [of _ s'] by (simp add: wd_step_def wd_inv_def nonces_ok_def withdrawals_evolve_def)
qed

section \<open>Histories\<close>

record deployment =
  dp_cfg :: app_config
  dp_v5 :: "string \<Rightarrow> uuid"
  dp_keccak :: "nat list \<Rightarrow> nat list"
  dp_digest :: "string \<Rightarrow> string"

text \<open>
  The calls. The first group are whole operations; \<open>CallRead\<close> and those after it are the single
  transactions and network calls of the withdrawal workers, by the index of a snapshot.
\<close>

datatype system_call =
    CallDeposits pipeline_call
  | CallCreate string withdrawal_request
  | CallApprove uuid
  | CallCancel uuid string
  | CallFund uuid amount string "string option"
  | CallPass signer "(string \<times> chain_adapter) list" "(string \<times> chain_adapter) list" "(string \<times> chain_adapter) list" "uuid set"
  | CallRead "uuid set" string withdrawal_status nat
  | CallSign signer chain_adapter nat
  | CallSend chain_adapter signed_transaction
  | CallMarkBroadcast uuid hash32 nat
  | CallFail nat string string
  | CallConfirmations nat nat nat
  | CallSettle nat nat nat amount
  | CallRevert nat amount

definition with_snapshot :: "nat \<Rightarrow> (withdrawal \<Rightarrow> 's \<Rightarrow> 's) \<Rightarrow> 's \<times> withdrawal list \<Rightarrow> 's \<times> withdrawal list" where
  "with_snapshot k f sk = (if k < length (snd sk) then (f (snd sk ! k) (fst sk), snd sk) else sk)"

definition pipeline_of :: "deployment \<Rightarrow> signer \<Rightarrow> (string \<times> chain_adapter) list \<Rightarrow> withdrawal_pipeline" where
  "pipeline_of dp signer ads = pipeline_new (dp_cfg dp) signer ads 0"

fun run_system_call ::
  "deployment \<Rightarrow> system_call \<Rightarrow> 'x wd_net_scheme \<times> withdrawal list \<Rightarrow> 'x wd_net_scheme \<times> withdrawal list" where
  "run_system_call dp (CallDeposits c) (s, k) = (run_pipeline_call (dp_v5 dp) c s, k)"
| "run_system_call dp (CallCreate corr req) (s, k) =
     (snd (create (dp_keccak dp) (dp_digest dp) (dp_v5 dp) (dp_cfg dp) (risk_engine_new (cfg_risk (dp_cfg dp))) corr req s), k)"
| "run_system_call dp (CallApprove i) (s, k) = (snd (approve i s), k)"
| "run_system_call dp (CallCancel i reason) (s, k) = (snd (cancel i reason s), k)"
| "run_system_call dp (CallFund x m reference corr) (s, k) = (snd (atomically (fund_custody x m reference corr) s), k)"
| "run_system_call dp (CallPass signer a1 a2 a3 locked) (s, k) =
     (snd (run_once (dp_v5 dp) (pipeline_of dp signer a1) (pipeline_of dp signer a2) (pipeline_of dp signer a3) locked s), k)"
| "run_system_call dp (CallRead locked chain status n) (s, k) = (s, k @ claim_by_status locked chain status n s)"
| "run_system_call dp (CallSign signer adapter j) (s, k) = with_snapshot j (\<lambda>w s.
     snd (or_rollback (sign_tx signer adapter (hot_wallets (dp_cfg dp) (w_chain w)) (w_id w)) s)) (s, k)"
| "run_system_call dp (CallSend adapter signed) (s, k) = (snd (send adapter signed s), k)"
| "run_system_call dp (CallMarkBroadcast i h n) (s, k) = (snd (mark_broadcast (dp_v5 dp) i h n s), k)"
| "run_system_call dp (CallFail j code reason) (s, k) = with_snapshot j (\<lambda>w s.
     snd (fail_and_release (dp_v5 dp) w code reason s)) (s, k)"
| "run_system_call dp (CallConfirmations j b n) (s, k) = with_snapshot j (\<lambda>w s. snd (or_rollback (confirm_tx w b n) s)) (s, k)"
| "run_system_call dp (CallSettle j b n fee) (s, k) = with_snapshot j (\<lambda>w s.
     snd (settle_success (dp_v5 dp) w b n fee s)) (s, k)"
| "run_system_call dp (CallRevert j fee) (s, k) = with_snapshot j (\<lambda>w s.
     if w_status w \<in> {WBroadcast, WConfirming} then snd (settle_failure (dp_v5 dp) w fee s) else s) (s, k)"

fun system_run :: "deployment \<Rightarrow> system_call list \<Rightarrow> 'x wd_net_scheme \<times> withdrawal list \<Rightarrow> 'x wd_net_scheme \<times> withdrawal list" where
  "system_run dp [] sk = sk"
| "system_run dp (c # cs) sk = system_run dp cs (run_system_call dp c sk)"

lemma system_run_append: "system_run dp (cs @ cs') sk = system_run dp cs' (system_run dp cs sk)"
  by (induction cs arbitrary: sk) simp_all

definition fresh_system :: "'x wd_net_scheme \<Rightarrow> bool" where
  "fresh_system s \<longleftrightarrow> fresh_chain s \<and> withdrawals s = []"

abbreviation "hots dp \<equiv> hot_wallets (dp_cfg dp)"

definition system_inv :: "deployment \<Rightarrow> 'x wd_net_scheme \<times> withdrawal list \<Rightarrow> bool" where
  "system_inv dp sk \<longleftrightarrow> wd_inv (hots dp) (fst sk) \<and> (\<forall>w\<in>set (snd sk). seen (fst sk) w)"

lemma fresh_system_inv:
  assumes "fresh_system s"
  shows "system_inv dp (s, [])"
proof -
  have f: "fresh_chain s" "withdrawals s = []" using assms by (simp_all add: fresh_system_def)
  then have "ltransactions s = []" "accounts s = []" "deposits s = []" by (simp_all add: fresh_chain_def fresh_ledger_def)
  then show ?thesis using f fresh_chain_inv(1) [OF f(1)]
    by (simp add: system_inv_def wd_inv_def wd_core_def books_def wd_sum_def stages_def posted_key_def nonces_ok_def
        balance_of_def user_position_def credited_total_def)
qed

lemma acts_step: "ws.acts H (set k) m \<Longrightarrow> wd_inv H s \<Longrightarrow> \<forall>w\<in>set k. seen s w \<Longrightarrow> wd_step H s (snd (m s))"
  using ws.actsD by blast

lemma with_snapshot_cases:
  assumes "wd_step H s s" "\<And>w. w \<in> set k \<Longrightarrow> wd_step H s (f w s)"
  shows "wd_step H s (fst (with_snapshot j f (s, k))) \<and> snd (with_snapshot j f (s, k)) = k"
  using assms by (simp add: with_snapshot_def)

lemma storage_key_hot: "storage_key (hot_wallets cfg c) = hot_wallets cfg c"
  by (auto simp: storage_key_def hot_wallets_def split: option.split) (simp_all add: to_ascii_lowercase_def)

lemma system_call_step:
  assumes inv: "system_inv dp (s, k)"
  shows "wd_step (hots dp) s (fst (run_system_call dp c (s, k))) \<and> system_inv dp (run_system_call dp c (s, k))"
proof -
  let ?H = "hots dp"
  have i: "wd_inv ?H s" and sn: "\<forall>w\<in>set k. seen s w" using inv by (simp_all add: system_inv_def)
  note refl = wd_step_refl [OF i]
  have keep: "wd_step ?H s s' \<and> system_inv dp (s', k)" if "wd_step ?H s s'" for s'
    using that sn step_seen [OF that] by (simp add: system_inv_def wd_step_def)
  have snap: "wd_step ?H s (fst (with_snapshot j f (s, k))) \<and> system_inv dp (with_snapshot j f (s, k))"
    if "\<And>w. w \<in> set k \<Longrightarrow> wd_step ?H s (f w s)" for j f
    using with_snapshot_cases [of ?H s k f j, OF refl that] keep [of "fst (with_snapshot j f (s, k))"]
    by (metis prod.collapse)
  show ?thesis
  proof (cases c)
    case (CallDeposits d)
    have "deposit_step s (run_pipeline_call (dp_v5 dp) d s)"
      by (rule pipeline_call_step [OF wd_core_chain [OF wd_inv_core [OF i]]])
    then show ?thesis using keep deposit_step_is_step [OF i] by (simp add: CallDeposits)
  next
    case (CallFund x m ref corr)
    have "wd_step ?H s (snd (atomically (fund_custody x m ref corr) s))"
      by (rule atomically_step(1) [OF i]) (rule fund_custody_step [OF i])
    then show ?thesis using keep by (simp add: CallFund)
  next
    case (CallRead locked chain status n)
    then show ?thesis
      using refl i sn seen_mem [of _ s] claim_by_status_mem [of _ locked chain status n s]
      by (auto simp: system_inv_def)
  next
    case (CallPass sg a1 a2 a3 locked)
    have "wd_step ?H s (snd (run_once (dp_v5 dp) (pipeline_of dp sg a1) (pipeline_of dp sg a2) (pipeline_of dp sg a3) locked s))"
      by (rule run_once_step [OF _ i]) (simp add: pipeline_of_def pipeline_new_def)
    then show ?thesis using keep by (simp add: CallPass)
  next
    case (CallSign sg ad j)
    show ?thesis unfolding CallSign run_system_call.simps
      by (rule snap, rule acts_step [OF sign_acts i sn]) (simp_all add: storage_key_hot)
  next
    case (CallFail j code reason)
    show ?thesis unfolding CallFail run_system_call.simps
      by (rule snap, rule acts_step [OF fail_and_release_acts i sn])
  next
    case (CallConfirmations j b n)
    show ?thesis unfolding CallConfirmations run_system_call.simps
      by (rule snap, rule acts_step [OF confirm_acts i sn])
  next
    case (CallSettle j b n fee)
    show ?thesis unfolding CallSettle run_system_call.simps
      by (rule snap, rule acts_step [OF settle_success_acts i sn])
  next
    case (CallRevert j fee)
    have "wd_step ?H s (if w_status w \<in> {WBroadcast, WConfirming} then snd (settle_failure (dp_v5 dp) w fee s) else s)"
      if "w \<in> set k" for w
      using acts_step [OF settle_failure_acts [OF that] i sn] refl by simp
    then show ?thesis unfolding CallRevert run_system_call.simps by (rule snap)
  next
    case (CallSend ad st)
    then show ?thesis using keep [OF acts_step [OF send_acts i sn]] by simp
  next
    case (CallMarkBroadcast a h n)
    then show ?thesis using keep [OF acts_step [OF mark_broadcast_acts i sn]] by simp
  qed (use keep create_step [OF i] approve_step [OF i] cancel_step [OF i] in simp_all)
qed

lemma system_run_step:
  assumes "system_inv dp sk"
  shows "wd_step (hots dp) (fst sk) (fst (system_run dp cs sk)) \<and> system_inv dp (system_run dp cs sk)"
  using assms
proof (induction cs arbitrary: sk)
  case Nil
  then show ?case by (simp add: system_inv_def wd_step_refl)
next
  case (Cons c cs)
  have 1: "wd_step (hots dp) (fst sk) (fst (run_system_call dp c sk)) \<and> system_inv dp (run_system_call dp c sk)"
    using system_call_step [of dp "fst sk" "snd sk" c] Cons.prems by simp
  then show ?case using Cons.IH [of "run_system_call dp c sk"] wd_step_trans by (metis system_run.simps(2))
qed

section \<open>Totals by status\<close>

definition total_in :: "withdrawal_status set \<Rightarrow> (withdrawal \<Rightarrow> bool) \<Rightarrow> 'x wd_db_scheme \<Rightarrow> int" where
  "total_in S P s = sum_list (map w_amount (filter (\<lambda>w. P w \<and> w_status w \<in> S) (withdrawals s)))"

definition live_statuses :: "withdrawal_status set" where
  "live_statuses = {WValidated, WApproved, WSigning, WBroadcast, WConfirming}"

lemma wd_sum_total:
  assumes "\<And>w. w \<in> set (withdrawals s) \<Longrightarrow> h (stages s (w_id w)) = of_bool (w_status w \<in> S)"
  shows "wd_sum h P s = total_in S P s"
proof -
  have "sum_list (map (\<lambda>w. if P w then w_amount w * h (stages s (w_id w)) else 0) ws) =
      sum_list (map w_amount (filter (\<lambda>w. P w \<and> w_status w \<in> S) ws))" if "set ws \<subseteq> set (withdrawals s)" for ws
    using that by (induction ws) (auto simp: assms)
  then show ?thesis by (simp add: wd_sum_def total_in_def)
qed

lemma row_totals:
  assumes "row_ok w T"
  shows "held T = of_bool (w_status w \<in> live_statuses)" "flying T = of_bool (w_status w \<in> {WBroadcast, WConfirming})"
    "paid T = of_bool (w_status w \<in> {WCompleted})"
  using assms by (cases "w_status w"; auto simp: row_ok_def held_def flying_def paid_def live_statuses_def)+

lemma wd_inv_books:
  assumes "wd_inv H s"
  shows "balance_of s (UserReserved, Some u, x) = total_in live_statuses (of_user u x) s"
    "balance_of s (WithdrawalClearing, None, x) = total_in {WBroadcast, WConfirming} (of_asset x) s"
    "user_position s u x = credited_total s u x - total_in {WCompleted} (of_user u x) s"
proof -
  have ok: "row_ok w (stages s (w_id w))" if "w \<in> set (withdrawals s)" for w using assms that by (simp add: wd_inv_def)
  note t = row_totals [OF ok]
  have "books s" using assms by (simp add: wd_inv_def wd_core_def)
  then show "balance_of s (UserReserved, Some u, x) = total_in live_statuses (of_user u x) s"
    "balance_of s (WithdrawalClearing, None, x) = total_in {WBroadcast, WConfirming} (of_asset x) s"
    "user_position s u x = credited_total s u x - total_in {WCompleted} (of_user u x) s"
    using wd_sum_total [of s held, OF t(1)] wd_sum_total [of s flying, OF t(2)] wd_sum_total [of s paid, OF t(3)]
    by (simp_all add: books_def)
qed

end
