(* ===== verification/Withdrawal_Spec.thy ===== *)
theory Withdrawal_Spec
  imports System
begin

text \<open>
  The properties of the withdrawal side. For the concrete witnesses: the deployment of
  \<open>Deposit_Spec\<close>, whose user has a deposit of 7, with one EVM chain and its hot wallet, and a signer
  whose hash depends on the fee of the transaction it signs.
\<close>

section \<open>A concrete deployment\<close>

definition demo_cfg :: app_config where
  "demo_cfg = \<lparr>cfg_environment = ''local'', cfg_service_name = ''chainrail'',
     cfg_http = \<lparr>hc_bind = [], hc_request_timeout_ms = 1, hc_max_body_bytes = 1, hc_rate_limit_rps = 1, hc_rate_limit_burst = 1,
       hc_default_page_size = 1, hc_max_page_size = 1, hc_api_token = None\<rparr>,
     cfg_database = \<lparr>dc_url = ''d'', dc_max_connections = 1, dc_min_connections = 1, dc_acquire_timeout_ms = 1,
       dc_statement_timeout_ms = 1, dc_run_migrations_on_boot = True\<rparr>,
     cfg_redis = \<lparr>rd_url = [], rd_timeout_ms = 1, rd_required = False\<rparr>,
     cfg_kafka = \<lparr>kc_brokers = [], kc_consumer_group = [], kc_topic_prefix = [], kc_request_timeout_ms = 1,
       kc_max_delivery_attempts = 5, kc_retry_backoff_base_ms = 1, kc_retry_backoff_max_ms = 1, kc_use_outbox = True,
       kc_outbox_poll_interval_ms = 1, kc_outbox_batch_size = 1\<rparr>,
     cfg_observability = \<lparr>oc_log_level = [], oc_log_format = ''json'', oc_otlp_endpoint = None,
       oc_trace_sample_ratio = Some 0, oc_metrics_bind = []\<rparr>,
     cfg_signer = MockSigner,
     cfg_risk = \<lparr>rc_maintenance_mode = False, rc_manual_approval_threshold = [], rc_max_per_request = [],
       rc_min_per_request = [], rc_max_per_user_per_day = [], rc_max_withdrawals_per_user_per_day = None,
       rc_allowed_chains = [], rc_destination_denylist = []\<rparr>,
     cfg_chains = [\<lparr>ch_id = ''e'', ch_kind = Evm, ch_numeric_chain_id = Some 1, ch_finality = Confirmations 2,
       ch_poll_interval_ms = 1, ch_block_batch_size = 10, ch_reorg_scan_depth = 3, ch_start_block = None,
       ch_hot_wallet = Some (''0x'' @ replicate 40 CHR ''b''), ch_transfer_gas_limit = 1, ch_fee_bump_pct = 100, ch_rpc = [],
       ch_assets = [\<lparr>ac_symbol = ''ETH'', ac_decimals = 18, ac_contract_address = None, ac_deposits_enabled = True,
         ac_withdrawals_enabled = True\<rparr>]\<rparr>],
     cfg_worker = \<lparr>wc_run_watcher = True, wc_run_confirmations = True, wc_run_deposit_consumer = True,
       wc_run_withdrawal_pipeline = True, wc_run_outbox_relay = True, wc_tick_interval_ms = 1, wc_shutdown_grace_ms = 1\<rparr>\<rparr>"

definition demo_deployment :: deployment where
  "demo_deployment = \<lparr>dp_cfg = demo_cfg, dp_v5 = (\<lambda>k. k), dp_keccak = (\<lambda>_. replicate 32 0), dp_digest = (\<lambda>k. k)\<rparr>"

definition demo_net :: wd_net where
  "demo_net = \<lparr>id_src = (\<lambda>n. replicate n CHR ''i''), id_next = 1, clock = 5,
     users = users demo_chain, assets = assets demo_chain, deposit_addresses = deposit_addresses demo_chain,
     accounts = [], ltransactions = [], lentries = [], outbox = [], processed = [], dead_letters = [],
     blocks = [], cursors = [], transfers = [], deposits = [], withdrawals = [], nonces = [], sent = []\<rparr>"

definition demo_adapter :: "amount \<Rightarrow> hash32 res \<Rightarrow> tx_status \<Rightarrow> chain_adapter" where
  "demo_adapter fee out st = \<lparr>ad_head = Inr 10, ad_nonce_hint = (\<lambda>_. Inr 0),
     ad_build = (\<lambda>i. Inr (UnsignedEvm \<lparr>tr_chain_id = 1, tr_nonce = wi_nonce i, tr_to = wi_destination i,
       tr_value = wi_amount i, tr_data = [], tr_gas_limit = 1, tr_max_fee = fee, tr_max_priority_fee = 0\<rparr>)),
     ad_broadcast = (\<lambda>_. out), ad_status = (\<lambda>h _. Inr st)\<rparr>"

fun demo_signer :: signer where
  "demo_signer (UnsignedEvm r) = Inr \<lparr>st_raw = [tr_nonce r], st_tx_hash = ''0x'' @ show_nat (nat (tr_max_fee r)), st_from = []\<rparr>"

definition demo_request :: withdrawal_request where
  "demo_request = \<lparr>wr_user = ''u'', wr_chain = ''e'', wr_asset_symbol = ''ETH'', wr_amount = 5,
     wr_destination = ''0x'' @ replicate 40 CHR ''c'', wr_idempotency_key = ''12345678'', wr_correlation = Some ''c''\<rparr>"

definition demo_deposited :: "system_call list" where
  "demo_deposited = [CallDeposits demo_tick, CallDeposits demo_tick, CallDeposits demo_confirm, CallDeposits demo_deliver]"

definition demo_pass :: "tx_status \<Rightarrow> system_call" where
  "demo_pass st = CallPass demo_signer [(''e'', demo_adapter 1 (Inr []) TxUnknown)] [(''e'', demo_adapter 1 (Inr []) TxUnknown)]
     [(''e'', demo_adapter 1 (Inr []) st)] {}"

lemma demo_net_fresh: "fresh_system demo_net"
  by (simp add: fresh_system_def fresh_chain_def fresh_ledger_def demo_net_def demo_chain_def inj_replicate)

section \<open>Requests\<close>

lemma update_same: "update_withdrawals P f s = Inr (n, s') \<Longrightarrow> ledger_same s s'"
  using update_withdrawals_Inr(1) [of P f s n s'] by (simp add: ledger_same_def)

lemma row_ops_same:
  "transition i a b s = Inr (ok, s') \<Longrightarrow> ledger_same s s'"
  "attach_reservation i ltx s = Inr (u, s') \<Longrightarrow> ledger_same s s'"
  "mark_failed i a code reason s = Inr (ok, s') \<Longrightarrow> ledger_same s s'"
  by (auto simp: transition_def attach_reservation_def mark_failed_def tx_simps dest: update_same)

text \<open>What the request transaction does to the balances.\<close>

definition create_balances :: "withdrawal_request \<Rightarrow> asset \<Rightarrow> 'x wd_db_scheme \<Rightarrow> 'x wd_db_scheme \<Rightarrow> create_end \<Rightarrow> bool" where
  "create_balances req asset s s' r \<longleftrightarrow> (case r of
     Accepted hld i \<Rightarrow> wr_amount req \<le> balance_of s (UserAvailable, Some (wr_user req), as_id asset) \<and>
       (\<forall>k. balance_of s' k = balance_of s k +
          sum_list (map (leg_delta k) (stage_legs Reserved (wr_user req) (as_id asset) (wr_amount req))))
   | _ \<Rightarrow> balance_of s' = balance_of s)"

lemma create_tx_balances:
  fixes s s' :: "'x wd_db_scheme"
  assumes c: "create_tx digest v5 risk req cc ac asset d corr s = Inr (r, s')" and inv: "wd_inv H s"
  shows "create_balances req asset s s' r"
proof -
  obtain o1 s1 where cw: "create_withdrawal \<lparr>nw_user = wr_user req, nw_asset = as_id asset, nw_chain = wr_chain req,
      nw_destination = d, nw_amount = wr_amount req, nw_idempotency_key = wr_idempotency_key req,
      nw_fingerprint = fingerprint digest req (storage_key d), nw_correlation = Some corr\<rparr> s = Inr (o1, s1)"
    and more: "(case o1 of ExistingRow w \<Rightarrow> tx_return (Replayed w)
     | CreatedRow w \<Rightarrow> tx_bind (risk_facts req cc ac asset d) (\<lambda>facts. case evaluate risk facts of
           Deny code message \<Rightarrow> tx_then (mark_failed (w_id w) WRequested code message) (tx_return (DeniedBy code message))
         | decision \<Rightarrow> accept_tx v5 req asset d corr (requires_manual_approval decision) w)) s1 = Inr (r, s')"
    using c unfolding create_tx_def tx_bind_Inr by blast
  have l1: "ledger_same s s1"
    using cw by (auto simp: create_withdrawal_def Let_def gen_uuid_def tx_simps ledger_same_def split: sum.splits option.splits if_splits)
  note b1 = ledger_same_facts(2) [OF l1]
  show ?thesis
  proof (cases o1)
    case (ExistingRow w)
    then show ?thesis using more b1 by (simp add: tx_simps create_balances_def)
  next
    case (CreatedRow w)
    note cr = created_row [OF cw [unfolded CreatedRow] wd_inv_core [OF inv], simplified]
    obtain f where rest: "(case evaluate risk f of
        Deny code message \<Rightarrow> tx_then (mark_failed (w_id w) WRequested code message) (tx_return (DeniedBy code message))
      | decision \<Rightarrow> accept_tx v5 req asset d corr (requires_manual_approval decision) w) s1 = Inr (r, s')"
      using more unfolding CreatedRow by (auto simp: tx_bind_Inr dest!: risk_facts_Inr)
    show ?thesis
    proof (cases "decision_is_denied (evaluate risk f)")
      case True
      then obtain code msg where d: "evaluate risk f = Deny code msg" by (cases "evaluate risk f") simp_all
      with rest show ?thesis using b1 row_ops_same(3) ledger_same_facts(2)
        by (auto simp: tx_simps create_balances_def dest!: row_ops_same(3) ledger_same_facts(2))
    next
      case False
      let ?h = "requires_manual_approval (evaluate risk f)"
      from False have "accept_tx v5 req asset d corr ?h w s1 = Inr (r, s')" using rest by (cases "evaluate risk f") simp_all
      then obtain o1 s2 p s3 s4 o2 s5 x y where t: "transition (w_id w) WRequested WValidated s1 = Inr (o1, s2)"
        and rs: "reserve_withdrawal (w_id w) (wr_user req) (as_id asset) (wr_amount req) (Some corr) s2 = Inr (p, s3)"
        and at: "attach_reservation (w_id w) (post_result_id p) s3 = Inr (x, s4)"
        and ap: "(if ?h then tx_return True else transition (w_id w) WValidated WApproved) s4 = Inr (o2, s5)"
        and e: "\<exists>ev key. emit v5 ev corr key s5 = Inr (y, s')" and r: "r = Accepted ?h (w_id w)"
        unfolding accept_tx_def by (simp add: tx_simps) blast
      have v2: "view (w_id w) (w\<lparr>w_status := WValidated\<rparr>) {} (nonces s) s2"
        using transition_view [OF moves_view [OF cr(1)] t] cr(6) by (simp add: moves_def)
      have "\<not> posted_key s2 (stage_key Reserved (w_id w))" using v2 by (auto simp: view_def stages_def simp del: stage_key.simps)
      then have np: "\<not> posted_key s2 (''withdrawal_reserve:'' @ w_id w)" by simp
      note q = reserve_withdrawal_Inr [OF wd_core_ledger [OF view_core [OF v2]] rs]
      have l5: "ledger_same s4 s5" using ap by (cases ?h) (auto simp: tx_simps dest: row_ops_same(1))
      have l6: "ledger_same s5 s'" using e emit_wd(1) by blast
      have "balance_of s' = balance_of s3"
        using ledger_same_facts(2) [OF l6] ledger_same_facts(2) [OF l5] ledger_same_facts(2) [OF row_ops_same(2) [OF at]] by simp
      moreover have "balance_of s2 = balance_of s" using ledger_same_facts(2) [OF row_ops_same(1) [OF t]] b1 by simp
      ultimately show ?thesis
        using q posts_balance [OF conjunct2 [OF q] np] by (simp add: r create_balances_def)
    qed
  qed
qed

text \<open>The balances after an accepted request, as a function update.\<close>

lemma reserved_balances:
  "\<forall>k. balance_of s' k = balance_of s k + sum_list (map (leg_delta k) (stage_legs Reserved u x m)) \<Longrightarrow>
   balance_of s' = (balance_of s)((UserAvailable, Some u, x) := balance_of s (UserAvailable, Some u, x) - m,
     (UserReserved, Some u, x) := balance_of s (UserReserved, Some u, x) + m)"
  by (auto simp: fun_eq_iff leg_delta_def natural_delta_def)

text \<open>A request fails before its transaction, in it, or ends as the transaction ended.\<close>

lemma create_cases:
  fixes s :: "'x wd_db_scheme"
  assumes inv: "wd_inv H s"
  obtains e where "create keccak digest v5 cfg risk fc req s = (Inl e, s)"
    | cc ac d asset corr r s' where "create_tx digest v5 risk req cc ac asset d corr s = Inr (r, s')"
      "create keccak digest v5 cfg risk fc req s = (case r of Replayed w \<Rightarrow> (Inr (CreateIdempotent w), s)
        | DeniedBy code message \<Rightarrow> (Inl (PolicyDenied code message), s')
        | Accepted hld i \<Rightarrow> (case get_withdrawal i s' of Inl e \<Rightarrow> (Inl e, s')
            | Inr (w, _) \<Rightarrow> (Inr (if hld then CreatePending w else CreateApproved w), s')))"
proof (cases "validate_request keccak cfg req")
  case (Inl e)
  then show ?thesis by (intro that(1)) (simp add: create_def)
next
  case v: (Inr v)
  obtain cc ac d where vv: "v = (cc, ac, d)" by (cases v)
  show ?thesis
  proof (cases "get_asset (wr_chain req) (wr_asset_symbol req) s")
    case (Inl e)
    then show ?thesis using v vv by (intro that(1)) (simp add: create_def)
  next
    case g: (Inr g)
    obtain asset g' where gg: "g = (asset, g')" by (cases g)
    define corr where "corr = (case wr_correlation req of Some c \<Rightarrow> c | None \<Rightarrow> fc)"
    let ?t = "create_tx digest v5 risk req cc ac asset d corr"
    have at: "atomically ?t s = (case ?t s of Inl e \<Rightarrow> (Inl e, s) | Inr (a, s') \<Rightarrow> (Inr a, s'))"
      by (rule atomically_step(2) [OF inv]) (rule create_tx_step(1) [OF _ inv])
    show ?thesis
    proof (cases "?t s")
      case (Inl e)
      then show ?thesis using v vv g gg at by (intro that(1)) (simp add: create_def corr_def [symmetric])
    next
      case (Inr q)
      then obtain r s' where q: "?t s = Inr (r, s')" by (cases q) simp
      then show ?thesis using v vv g gg at
        by (intro that(2) [OF q]) (cases r; simp add: create_def corr_def [symmetric])
    qed
  qed
qed

text \<open>
  C2: A withdrawal request does exactly what its answer says. A replay (same user, key and
  fingerprint) changes nothing and returns the stored withdrawal. A new withdrawal was not there
  before, is stored as returned, and moves exactly its amount, which the available balance covered,
  from the available to the reserved account. In every error no balance changes, and unless a risk
  rule denied the request nothing changes at all.
\<close>

theorem create_exact:
  fixes s :: "'x wd_db_scheme"
  assumes "wd_inv H s"
  shows "case create keccak digest v5 cfg risk fc req s of
      (Inr (CreateIdempotent w), s') \<Rightarrow> s' = s \<and> w \<in> set (withdrawals s) \<and> w_user w = wr_user req \<and>
        w_idempotency_key w = wr_idempotency_key req
    | (Inr r, s') \<Rightarrow> (let w = create_result_withdrawal r; u = wr_user req; x = w_asset w; m = wr_amount req in
        row s (w_id w) = None \<and> row s' (w_id w) = Some w \<and> w_user w = u \<and> w_amount w = m \<and> stages s' (w_id w) = {Reserved} \<and>
        m \<le> balance_of s (UserAvailable, Some u, x) \<and>
        balance_of s' = (balance_of s)((UserAvailable, Some u, x) := balance_of s (UserAvailable, Some u, x) - m,
          (UserReserved, Some u, x) := balance_of s (UserReserved, Some u, x) + m))
    | (Inl e, s') \<Rightarrow> balance_of s' = balance_of s \<and> ((\<exists>c m. e = PolicyDenied c m) \<or> s' = s)"
proof -
  have res: "create_ended digest req asset d s s' r \<and> create_balances req asset s s' r"
    if "create_tx digest v5 risk req cc ac asset d corr s = Inr (r, s')" for cc ac asset d corr s' r
    using create_tx_step(2) [OF that assms] create_tx_balances [OF that assms] by blast
  show ?thesis
  proof (cases rule: create_cases [OF assms, of keccak digest v5 cfg risk fc req])
    case (1 e)
    then show ?thesis by simp
  next
    case (2 cc ac d asset corr r s')
    note R = res [OF 2(1)]
    show ?thesis
    proof (cases r)
      case (Accepted hld i)
      with R obtain w where w: "row s i = None" "row s' i = Some w" "stages s' i = {Reserved}" "w_user w = wr_user req"
        "w_asset w = as_id asset" "w_amount w = wr_amount req" by (auto simp: create_ended_def)
      have i: "w_id w = i" using w(2) by (auto simp: row_def dest: find_Some_setD)
      have "get_withdrawal i s' = Inr (w, s')" using w(2) by (simp add: get_withdrawal_def row_def)
      then show ?thesis
        using R reserved_balances [of s' s "wr_user req" "as_id asset" "wr_amount req"] w i
        by (simp add: 2(2) Accepted create_balances_def Let_def del: stage_legs.simps)
    qed (use R in \<open>simp_all add: 2(2) create_ended_def create_balances_def\<close>)
  qed
qed

definition demo_with_deposit :: wd_net where
  "demo_with_deposit = fst (system_run demo_deployment demo_deposited (demo_net, []))"

lemma demo_with_deposit_inv: "wd_inv (hots demo_deployment) demo_with_deposit"
  using system_run_step [OF fresh_system_inv [OF demo_net_fresh], of demo_deployment demo_deposited]
  by (simp add: demo_with_deposit_def system_inv_def)

definition demo_create :: "create_result res \<times> wd_net" where
  "demo_create = create (\<lambda>_. replicate 32 0) (\<lambda>k. k) (\<lambda>k. k) demo_cfg (risk_engine_new (cfg_risk demo_cfg)) [] demo_request demo_with_deposit"

lemma demo_create_eval:
  "case fst demo_create of Inr (CreateApproved w) \<Rightarrow> w_asset w = ''x'' | _ \<Rightarrow> False"
  unfolding demo_create_def demo_with_deposit_def by code_simp

theorem create_exact_witness:
  "balance_of (snd demo_create) (UserReserved, Some ''u'', ''x'') = balance_of demo_with_deposit (UserReserved, Some ''u'', ''x'') + 5"
proof -
  obtain w s' where c: "demo_create = (Inr (CreateApproved w), s')" "w_asset w = ''x''"
    using demo_create_eval by (auto split: sum.splits create_result.splits) (metis prod.collapse)
  show ?thesis
    using create_exact [OF demo_with_deposit_inv, of demo_request "\<lambda>_. replicate 32 0" "\<lambda>k. k" "\<lambda>k. k" demo_cfg
        "risk_engine_new (cfg_risk demo_cfg)" "[]"]
    unfolding demo_create_def [symmetric] c(1) by (simp add: c(2) Let_def demo_request_def)
qed

section \<open>Signing and broadcast\<close>

lemma or_rollback_none:
  assumes "\<forall>a s'. m s \<noteq> Inr (Some a, s')"
  shows "snd (or_rollback m s) = s" "fst (or_rollback m s) \<noteq> Inr (Some a)"
  using assms by (auto simp: or_rollback_def atomically_def tx_eval split: sum.splits option.splits prod.splits)

lemma seen_hash:
  assumes "seen s w" "wd_inv H s" "w_tx_hash w = Some h"
  shows "\<exists>w'. row s (w_id w) = Some w' \<and> w_tx_hash w' = Some h"
  using assms row_Some [OF wd_inv_core [OF assms(2)]] by (fastforce simp: seen_def wd_evolves_def same_claim_def)

text \<open>Recording a broadcast sends nothing and keeps every recorded hash.\<close>

lemma mark_broadcast_keeps:
  fixes s :: "'x wd_net_scheme"
  assumes inv: "wd_inv H s" and w: "row s i = Some w" "w_tx_hash w = Some h"
  shows "sent (snd (mark_broadcast v5 j hh n s)) = sent s \<and>
    (\<exists>w'. row (snd (mark_broadcast v5 j hh n s)) i = Some w' \<and> w_tx_hash w' = Some h)"
proof (cases "\<exists>u s'. mark_broadcast_tx v5 j hh n s = Inr (Some u, s')")
  case True
  then obtain u s' where m: "mark_broadcast_tx v5 j hh n s = Inr (Some u, s')" by blast
  have e: "mark_broadcast v5 j hh n s = (Inr (Some u), s')"
    unfolding mark_broadcast_def
    by (subst or_rollback_state(2) [OF inv]) (use mark_broadcast_tx_step(1) [OF _ inv] m in blast)+
  have st: "wd_step H s s'" and "touches j s s'" by (rule mark_broadcast_tx_step [OF m inv])+
  then have "wd_db.more s' = wd_db.more s" by (simp add: touches_def)
  then have "sent s' = sent s" by (cases s; cases s') simp
  moreover have "w \<in> set (withdrawals s)" "w_id w = i" using w(1) row_Some [OF wd_inv_core [OF inv]] by blast+
  moreover from this st have "seen s' w" "wd_inv H s'" by (auto simp: wd_step_def withdrawals_evolve_def)
  ultimately show ?thesis using e seen_hash [of s' w H h] w(2) by simp
next
  case False
  then have "snd (mark_broadcast v5 j hh n s) = s"
    unfolding mark_broadcast_def by (intro or_rollback_none) blast
  then show ?thesis using w by simp
qed


definition demo_requested :: wd_net where
  "demo_requested = fst (system_run demo_deployment (demo_deposited @ [CallCreate [] demo_request]) (demo_net, []))"

abbreviation "demo_id \<equiv> replicate 15 CHR ''i''"
abbreviation "demo_hot \<equiv> ''0x'' @ replicate 40 CHR ''b''"

definition demo_signed :: "bool res \<times> wd_net" where
  "demo_signed = sign_and_broadcast (\<lambda>k. k) demo_signer (demo_adapter 1 (Inr []) TxUnknown) demo_hot demo_id demo_requested"

lemma demo_requested_inv: "wd_inv (hots demo_deployment) demo_requested"
  using system_run_step [OF fresh_system_inv [OF demo_net_fresh], of demo_deployment "demo_deposited @ [CallCreate [] demo_request]"]
  by (simp add: demo_requested_def system_inv_def)

lemma demo_requested_row: "map w_chain (withdrawals demo_requested) = [''e'']"
  unfolding demo_requested_def by code_simp

lemma demo_signed_eval: "map st_tx_hash (sent (snd demo_signed)) = [''0x1'']"
  unfolding demo_signed_def demo_requested_def by code_simp

lemma demo_hot_eval: "storage_key demo_hot = hots demo_deployment ''e''"
  by code_simp


end
