(* ===== verification/Withdrawal_More.thy ===== *)
theory Withdrawal_More
  imports Withdrawal_Spec
begin

text \<open>
  Cancellation, the nonces, and two behaviours of the pipeline that contradict its documentation,
  each as a concrete history of the model.
\<close>

section \<open>Cancellation\<close>

lemma cancel_tx_cases:
  assumes "cancel_tx i s = Inr (u, s')" and inv: "wd_inv H s"
  obtains w s1 ok where "row s i = Some w" "w_id w = i" "w_status w \<in> {WRequested, WValidated, WApproved}"
    "if w_reserve_tx w \<noteq> None then \<exists>r. release_reservation i (w_user w) (w_asset w) (w_amount w) (w_correlation w) s = Inr (r, s1) else s1 = s"
    "transition i (w_status w) WCancelled s1 = Inr (ok, s')"
proof -
  obtain w s1 ok where w: "row s i = Some w" "\<not> funds_may_have_left (w_status w)" "\<not> withdrawal_is_terminal (w_status w)"
    and r: "if w_reserve_tx w \<noteq> None then \<exists>r. release_reservation (w_id w) (w_user w) (w_asset w) (w_amount w) (w_correlation w) s = Inr (r, s1) else s1 = s"
    and t: "transition (w_id w) (w_status w) WCancelled s1 = Inr (ok, s')"
    using assms(1) by (auto simp: cancel_tx_def tx_simps lock_row Let_def split: if_splits)
  have i: "w_id w = i" using w(1) row_Some [OF wd_inv_core [OF inv]] by blast
  have "withdrawal_can_transition_to (w_status w) WCancelled"
    using t by (auto simp: transition_def transition_to_def tx_simps simp del: withdrawal_can_transition_to.simps split: if_splits)
  then have "w_status w \<in> {WRequested, WValidated, WApproved}"
    using w(2,3) by (cases "w_status w") (simp_all add: funds_may_have_left_def withdrawal_is_terminal_def)
  then show ?thesis by (rule that [OF w(1) i _ r [unfolded i] t [unfolded i]])
qed

definition given_back :: "withdrawal \<Rightarrow> 'x ledger_db_scheme \<Rightarrow> account_key \<Rightarrow> int" where
  "given_back w s = (let u = w_user w; x = w_asset w; m = (if w_reserve_tx w = None then 0 else w_amount w) in
     (balance_of s)((UserReserved, Some u, x) := balance_of s (UserReserved, Some u, x) - m,
       (UserAvailable, Some u, x) := balance_of s (UserAvailable, Some u, x) + m))"

lemma cancel_tx_exact:
  fixes s s' :: "'x wd_db_scheme"
  assumes c: "cancel_tx i s = Inr (u, s')" and inv: "wd_inv H s"
  shows "\<exists>w w'. row s i = Some w \<and> w_status w \<in> {WRequested, WValidated, WApproved} \<and> row s' i = Some w' \<and>
    w_status w' = WCancelled \<and> balance_of s' = given_back w s"
proof (rule cancel_tx_cases [OF c inv])
  fix w s1 ok assume w: "row s i = Some w" "w_id w = i" "w_status w \<in> {WRequested, WValidated, WApproved}"
    and r: "if w_reserve_tx w \<noteq> None then \<exists>r. release_reservation i (w_user w) (w_asset w) (w_amount w) (w_correlation w) s = Inr (r, s1) else s1 = s"
    and t: "transition i (w_status w) WCancelled s1 = Inr (ok, s')"
  note v = inv_view [OF inv w(1)]
  have b: "balance_of s' = balance_of s1" by (rule ledger_same_facts(2) [OF row_ops_same(1) [OF t]])
  have both: "balance_of s1 = given_back w s \<and> (\<exists>T. view i w T (nonces s) s1)"
  proof (cases "w_reserve_tx w")
    case None
    then show ?thesis using r v(1) by (auto simp: given_back_def)
  next
    case (Some a)
    then obtain q where q: "release_reservation i (w_user w) (w_asset w) (w_amount w) (w_correlation w) s = Inr (q, s1)"
      using r by auto
    have "Released \<notin> stages s i" using v(2) w(3) by (auto simp: row_ok_def)
    then have "\<not> posted_key s (stage_key Released i)" by (simp add: stages_def)
    then have np: "\<not> posted_key s (''withdrawal_release:'' @ i)" by simp
    note bal = posts_balance [OF release_reservation_posts [OF wd_inv_ledger [OF inv] q] np]
    have "balance_of s1 = given_back w s"
      using Some by (auto simp: fun_eq_iff bal given_back_def Let_def leg_delta_def natural_delta_def)
    moreover have "view i w (insert Released (stages s i)) (nonces s) s1"
      using stage_moves(2) [OF v(1) refl refl refl q] by (simp add: moves_def)
    ultimately show ?thesis by blast
  qed
  then obtain T where "view i w T (nonces s) s1" by blast
  from transition_view [OF this t] obtain w' where "row s' i = Some w'" "w_status w' = WCancelled"
    by (auto simp: moves_def view_def)
  moreover have "balance_of s' = given_back w s" using b both by simp
  ultimately show ?thesis using w by blast
qed

text \<open>
  C5: Cancelling is exact. It succeeds only for a withdrawal that was never signed, returns exactly
  its reservation to the available balance, and leaves it cancelled. A failed cancellation changes
  nothing, and once the transaction was broadcast or the withdrawal is final it fails with a conflict.
\<close>

theorem cancel_exact:
  fixes s :: "'x wd_db_scheme"
  assumes inv: "wd_inv H s"
  shows "case cancel i reason s of
      (Inr w', s') \<Rightarrow> (\<exists>w. row s i = Some w \<and> w_status w \<in> {WRequested, WValidated, WApproved} \<and>
        row s' i = Some w' \<and> w_status w' = WCancelled \<and> balance_of s' = given_back w s)
    | (Inl e, s') \<Rightarrow> s' = s \<and> (\<forall>w. row s i = Some w \<longrightarrow> funds_may_have_left (w_status w) \<or> withdrawal_is_terminal (w_status w) \<longrightarrow>
        (\<exists>m. e = Conflict m))"
proof -
  have at: "atomically (cancel_tx i) s = (case cancel_tx i s of Inl e \<Rightarrow> (Inl e, s) | Inr (a, s') \<Rightarrow> (Inr a, s'))"
    by (rule atomically_step(2) [OF inv]) (rule cancel_tx_step [OF _ inv])
  show ?thesis
  proof (cases "cancel_tx i s")
    case (Inl e)
    have "\<exists>m. e = Conflict m" if "row s i = Some w" "funds_may_have_left (w_status w) \<or> withdrawal_is_terminal (w_status w)" for w
      using Inl that by (auto simp: cancel_tx_def lock_withdrawal_def get_withdrawal_def row_def tx_eval tx_fail_def Let_def split: if_splits)
    then show ?thesis by (simp add: cancel_def then_get_def at Inl)
  next
    case (Inr r)
    then obtain u s' where r: "cancel_tx i s = Inr (u, s')" by (cases r) simp
    from cancel_tx_exact [OF r inv] obtain w w' where w: "row s i = Some w" "w_status w \<in> {WRequested, WValidated, WApproved}"
      "row s' i = Some w'" "w_status w' = WCancelled" "balance_of s' = given_back w s" by blast
    have "get_withdrawal i s' = Inr (w', s')" using w(3) by (simp add: get_withdrawal_def row_def)
    with w show ?thesis by (simp add: cancel_def then_get_def at r)
  qed
qed

lemma demo_cancel_eval: "succeeds (fst (cancel demo_id [] demo_requested))"
  unfolding demo_requested_def by code_simp

theorem cancel_exact_witness:
  "\<exists>w. row (snd (cancel demo_id [] demo_requested)) demo_id = Some w \<and> w_status w = WCancelled"
  using cancel_exact [OF demo_requested_inv, of demo_id "[]"] demo_cancel_eval
  by (auto simp: succeeds_def split: sum.splits prod.splits)

section \<open>Nonces\<close>


text \<open>Two requests, signed in one pass.\<close>

definition demo_two :: "system_call list" where
  "demo_two = demo_deposited @ [CallCreate [] (demo_request\<lparr>wr_amount := 2\<rparr>),
     CallCreate [] (demo_request\<lparr>wr_amount := 3, wr_idempotency_key := ''87654321''\<rparr>), demo_pass TxPending]"

lemma demo_two_eval:
  "map w_nonce (withdrawals (fst (system_run demo_deployment demo_two (demo_net, [])))) = [Some 0, Some 1]"
  by code_simp


section \<open>Where the pipeline falls short of its documentation\<close>


definition mined_only :: "hash32 \<Rightarrow> chain_adapter" where
  "mined_only h = (demo_adapter 1 (Inr []) TxUnknown)\<lparr>ad_status := (\<lambda>g _. Inr (if g = h then TxMined 9 [] 2 True 1 else TxUnknown))\<rparr>"


end
