(* ===== verification/Withdrawal_Live.thy ===== *)
theory Withdrawal_Live
  imports Withdrawal_Spec
begin

text \<open>
  Progress of the settlement: what it takes for a mined withdrawal to complete, and the one
  condition under which it cannot.
\<close>

section \<open>When the settlement's operations succeed\<close>

lemma settle_withdrawal_ok:
  assumes "ledger_inv s" "known_account s (UserReserved, Some u, x)"
    "leg_fits s ((UserReserved, Some u, x), Debit, m)"
    "leg_fits s ((WithdrawalClearing, None, x), Credit, m)" "in_i128 m" "length w \<le> 36"
  shows "\<exists>r s'. settle_withdrawal w u x m c s = Inr (r, s')"
proof -
  have m: "0 < m" using assms(3) by (simp add: leg_fits_def)
  have "known_account s (WithdrawalClearing, None, x)"
    using assms(2) by (simp add: known_account_def is_user_scoped_def)
  then obtain i j s1 s2 where a: "resolve_account UserReserved (Some u) x s = Inr (i, s1)"
    "resolve_account WithdrawalClearing None x s1 = Inr (j, s2)" "ledger_inv s2"
    "key_of s2 i = Some (UserReserved, Some u, x)" "key_of s2 j = Some (WithdrawalClearing, None, x)"
    "\<And>leg. leg_fits s2 leg = leg_fits s leg" "require_positive m = Inr ()"
    using two_accounts_ok [OF assms(1,2) _ m] by metis
  have k: "key_ok (''withdrawal_settle:'' @ w)"
    using assms(6) by (intro key_ok_append) (simp_all add: is_ws_def)
  let ?p = "with_description ''withdrawal confirmed on chain'' (with_correlation c
    (posting_new WithdrawalSettle RefWithdrawal (Some w) (''withdrawal_settle:'' @ w)))"
  obtain r s' where "post_transaction (posting_credit j x m (posting_debit i x m ?p)) s2 = Inr (r, s')"
    using two_legs_ok [OF a(3,4,5), of x m ?p] assms k a(6) by (auto simp: header_defs)
  then show ?thesis using a
    by (auto simp: settle_withdrawal_def user_account_def system_account_def is_user_scoped_def tx_eval)
qed

lemma record_network_fee_ok:
  assumes "ledger_inv s" "known_account s (ExchangeCustody, None, x)" "0 \<le> m"
    "m \<noteq> 0 \<Longrightarrow> leg_fits s ((NetworkFeeAccount, None, x), Debit, m)"
    "m \<noteq> 0 \<Longrightarrow> leg_fits s ((ExchangeCustody, None, x), Credit, m)" "in_i128 m" "length w \<le> 36"
  shows "\<exists>r s'. record_network_fee w x m c s = Inr (r, s')"
proof (cases "m = 0")
  case True
  then show ?thesis by (simp add: record_network_fee_def tx_return_def)
next
  case False
  then have m: "0 < m" using assms(3) by simp
  have "known_account s (NetworkFeeAccount, None, x)"
    using assms(2) by (simp add: known_account_def is_user_scoped_def)
  then obtain i j s1 s2 where a: "resolve_account ExchangeCustody None x s = Inr (i, s1)"
    "resolve_account NetworkFeeAccount None x s1 = Inr (j, s2)" "ledger_inv s2"
    "key_of s2 i = Some (ExchangeCustody, None, x)" "key_of s2 j = Some (NetworkFeeAccount, None, x)"
    "\<And>leg. leg_fits s2 leg = leg_fits s leg" "require_positive m = Inr ()"
    using two_accounts_ok [OF assms(1,2) _ m] by metis
  have k: "key_ok (''network_fee:'' @ w)"
    using assms(7) by (intro key_ok_append) (simp_all add: is_ws_def)
  let ?p = "with_description ''gas paid for withdrawal'' (with_correlation c
    (posting_new NetworkFeeKind RefWithdrawal (Some w) (''network_fee:'' @ w)))"
  obtain r s' where "post_transaction (posting_credit i x m (posting_debit j x m ?p)) s2 = Inr (r, s')"
    using two_legs_ok [OF a(3,5,4), of x m ?p] assms(4-6) False k a(6) by (auto simp: header_defs)
  then show ?thesis using a False
    by (auto simp: record_network_fee_def system_account_def is_user_scoped_def tx_eval)
qed

lemma network_fee_blocked:
  assumes "ledger_inv s" "\<not> posted_key s (''network_fee:'' @ w)" "balance_of s (ExchangeCustody, None, x) < m"
  shows "\<exists>e. record_network_fee w x m c s = Inl e"
proof (rule ccontr)
  assume "\<nexists>e. record_network_fee w x m c s = Inl e"
  then obtain r s' where r: "record_network_fee w x m c s = Inr (r, s')"
    by (cases "record_network_fee w x m c s") auto
  have nn: "0 \<le> balance_of t (ExchangeCustody, None, x)" if "ledger_inv t" for t :: "'a ledger_db_scheme"
    using balance_of_nonneg [OF that, of "(ExchangeCustody, None, x)"] by (simp add: allows_negative_def)
  have "m \<noteq> 0" using nn [OF assms(1)] assms(3) by simp
  then obtain q where p: "posts (''network_fee:'' @ w)
       [((NetworkFeeAccount, None, x), Debit, m), ((ExchangeCustody, None, x), Credit, m)] q s s'"
    using record_network_fee_posts [OF assms(1) r] by blast
  then have "ledger_inv s'" by (simp add: posts_def)
  from nn [OF this] show False
    using posts_balance [OF p assms(2), of "(ExchangeCustody, None, x)"] assms(3)
    by (simp add: leg_delta_def natural_delta_def)
qed

section \<open>Updates that pass the checks\<close>

lemma update_withdrawals_ok:
  assumes "\<And>v. v \<in> set (withdrawals s) \<Longrightarrow> P v \<Longrightarrow> check_update v (f v) = Inr ()"
  shows "\<exists>n s'. update_withdrawals P f s = Inr (n, s')"
proof -
  have "find (\<lambda>w. P w \<and> check_update w (f w) \<noteq> Inr ()) (withdrawals s) = None"
    using assms by (auto simp: find_None_iff)
  then show ?thesis by (simp add: update_withdrawals_def)
qed

lemma only_row:
  assumes "wd_core s" "row s i = Some w" "v \<in> set (withdrawals s)" "w_id v = i"
  shows "v = w"
  using assms row_Some [OF assms(1), of i v] by simp

lemma passing_update:
  assumes "wd_core s" "row s i = Some w" "Q w \<Longrightarrow> check_update w (f w) = Inr ()"
  shows "\<exists>n s'. update_withdrawals (\<lambda>w. w_id w = i \<and> Q w) f s = Inr (n, s')"
  by (rule update_withdrawals_ok) (use assms(3) only_row [OF assms(1,2)] in blast)

lemma violated_check_None:
  "violated_check w = None \<longleftrightarrow> 0 < w_amount w \<and>
     (w_status w \<in> {WBroadcast, WConfirming, WCompleted} \<longrightarrow> w_tx_hash w \<noteq> None) \<and>
     (w_status w = WCompleted \<longleftrightarrow> w_settle_tx w \<noteq> None \<and> w_completed_at w \<noteq> None) \<and>
     to_ascii_lowercase (w_destination w) = w_destination w \<and> (w_status w = WFailed \<longrightarrow> w_failure_code w \<noteq> None) \<and>
     8 \<le> length (w_idempotency_key w) \<and> length (w_idempotency_key w) \<le> 128 \<and>
     (\<forall>h. w_tx_hash w = Some h \<longrightarrow> to_ascii_lowercase h = h)"
  unfolding violated_check_def by (cases "w_tx_hash w") (simp_all add: not_less)

lemma check_update_ok:
  "check_update v v' = Inr () \<longleftrightarrow> violated_check v' = None \<and>
     withdrawals_guard_transition (withdrawal_status_str (w_status v)) (withdrawal_status_str (w_status v'))"
  by (simp add: check_update_def check_row_def split: option.split)

lemma confirming_ok:
  assumes "wd_core s" "row s i = Some w" "violated_check w = None"
  shows "\<exists>s'. wd_update_confirmations i b n s = Inr ((), s')"
proof -
  have "check_update w (w\<lparr>w_block_number := Some b, w_confirmations := n,
      w_status := (if w_status w = WBroadcast then WConfirming else w_status w)\<rparr>) = Inr ()"
    if "w_status w \<in> {WBroadcast, WConfirming}"
    using that assms(3)
    by (cases "w_status w") (simp_all add: check_update_ok violated_check_None withdrawals_guard_transition_def trigger_allowed_def)
  then have "\<exists>k s'. update_withdrawals (\<lambda>w. w_id w = i \<and> w_status w \<in> {WBroadcast, WConfirming})
       (\<lambda>w. w\<lparr>w_block_number := Some b, w_confirmations := n,
              w_status := (if w_status w = WBroadcast then WConfirming else w_status w)\<rparr>) s = Inr (k, s')"
    by (intro passing_update [OF assms(1,2)]) simp
  then show ?thesis by (elim exE) (simp add: wd_update_confirmations_def tx_eval)
qed

lemma completing_ok:
  assumes "wd_core s" "row s i = Some w" "violated_check w = None" "w_status w = WConfirming"
  shows "\<exists>ok s'. mark_completed i ltx fee s = Inr (ok, s')"
proof -
  have "check_update w (w\<lparr>w_status := WCompleted, w_settle_tx := Some ltx, w_fee_paid := Some fee,
            w_completed_at := Some (clock s)\<rparr>) = Inr ()"
    using assms(3,4)
    by (simp add: check_update_ok violated_check_None withdrawals_guard_transition_def trigger_allowed_def)
  then have "\<exists>k s'. update_withdrawals (\<lambda>w. w_id w = i \<and> w_status w \<in> {WBroadcast, WConfirming})
      (\<lambda>w. w\<lparr>w_status := WCompleted, w_settle_tx := Some ltx, w_fee_paid := Some fee,
            w_completed_at := Some (clock s)\<rparr>) s = Inr (k, s')"
    by (intro passing_update [OF assms(1,2)]) simp
  then show ?thesis by (elim exE) (simp add: mark_completed_def tx_eval)
qed

lemma mem_le_sum: "a \<in> set xs \<Longrightarrow> (\<And>b. b \<in> set xs \<Longrightarrow> 0 \<le> b) \<Longrightarrow> a \<le> sum_list (xs :: int list)"
proof (induction xs)
  case (Cons x xs)
  have "0 \<le> sum_list xs" using Cons.prems(2) by (intro sum_list_nonneg) simp
  moreover have "a = x \<or> a \<le> sum_list xs" using Cons by auto
  ultimately show ?case using Cons.prems(2) [of x] by auto
qed simp

lemma total_in_bound:
  assumes "wd_inv H s" "w \<in> set (withdrawals s)" "P w" "w_status w \<in> S"
  shows "w_amount w \<le> total_in S P s"
proof -
  let ?ws = "filter (\<lambda>w. P w \<and> w_status w \<in> S) (withdrawals s)"
  have "0 \<le> w_amount v" if "v \<in> set (withdrawals s)" for v
    using assms(1) that unfolding wd_inv_def row_ok_def by (metis less_imp_le)
  then have "0 \<le> a" if "a \<in> set (map w_amount ?ws)" for a using that by auto
  moreover have "w_amount w \<in> set (map w_amount ?ws)" using assms(2-4) by simp
  ultimately show ?thesis unfolding total_in_def using mem_le_sum by blast
qed


section \<open>Settlement\<close>

text \<open>
  What the settlement of \<open>w\<close> relies on: the row passes the constraints of its table, its user, asset
  and native asset exist, the amounts and balances are in range, and the fee was not booked before.
\<close>

definition settle_ready :: "withdrawal \<Rightarrow> asset \<Rightarrow> amount \<Rightarrow> 'x wd_db_scheme \<Rightarrow> bool" where
  "settle_ready w native fee s \<longleftrightarrow> violated_check w = None \<and> length (w_id w) \<le> 36 \<and>
     known_account s (UserReserved, Some (w_user w), w_asset w) \<and>
     find (\<lambda>a. as_chain a = w_chain w \<and> as_symbol a = native_symbol (w_chain w)) (assets s) = Some native \<and>
     list_all in_i128 [w_amount w, fee, balance_of s (UserReserved, Some (w_user w), w_asset w),
       balance_of s (WithdrawalClearing, None, w_asset w), balance_of s (ExchangeCustody, None, as_id native),
       balance_of s (NetworkFeeAccount, None, as_id native)] \<and>
     0 \<le> fee \<and> \<not> posted_key s (''network_fee:'' @ w_id w)"

lemma in_i128_sum: "in_i128 a \<Longrightarrow> in_i128 b \<Longrightarrow> numeric78 (a + b) \<and> numeric78 (a - b)"
  by (auto simp: in_i128_def numeric78_def)

lemma settle_legs_fit:
  assumes inv: "wd_inv H s" and w: "row s i = Some w" "w_status w \<in> {WBroadcast, WConfirming}" and r: "settle_ready w native fee s"
  shows "leg_fits s ((UserReserved, Some (w_user w), w_asset w), Debit, w_amount w)"
    "leg_fits s ((WithdrawalClearing, None, w_asset w), Credit, w_amount w)"
proof -
  have m: "w \<in> set (withdrawals s)" using w(1) row_Some [OF wd_inv_core [OF inv]] by blast
  have pos: "0 < w_amount w" using inv_view(2) [OF inv w(1)] by (simp add: row_ok_def)
  note bk = wd_inv_books [OF inv]
  have res: "w_amount w \<le> balance_of s (UserReserved, Some (w_user w), w_asset w)"
    unfolding bk(1) by (rule total_in_bound [OF inv m]) (use w(2) in \<open>auto simp: of_user_def live_statuses_def\<close>)
  have clr: "w_amount w \<le> balance_of s (WithdrawalClearing, None, w_asset w)"
    unfolding bk(2) by (rule total_in_bound [OF inv m]) (use w(2) in \<open>auto simp: of_asset_def\<close>)
  have rng: "in_i128 (w_amount w)" "in_i128 (balance_of s (UserReserved, Some (w_user w), w_asset w))"
    "in_i128 (balance_of s (WithdrawalClearing, None, w_asset w))"
    using r by (simp_all add: settle_ready_def)
  show "leg_fits s ((UserReserved, Some (w_user w), w_asset w), Debit, w_amount w)"
    using in_i128_sum [OF rng(2,1)] pos res by (simp add: leg_fits_def natural_delta_def)
  show "leg_fits s ((WithdrawalClearing, None, w_asset w), Credit, w_amount w)"
    using in_i128_sum [OF rng(3,1)] pos clr by (simp add: leg_fits_def natural_delta_def)
qed

text \<open>The first half of the transaction, up to the fee, always succeeds.\<close>

lemma settle_half:
  fixes s :: "'x wd_db_scheme"
  assumes inv: "wd_inv H s" and w: "row s i = Some w" "w_status w \<in> {WBroadcast, WConfirming}" and r: "settle_ready w native fee s"
  obtains s1 p s2 w1 where "wd_update_confirmations i b n s = Inr ((), s1)"
    "settle_withdrawal i (w_user w) (w_asset w) (w_amount w) (w_correlation w) s1 = Inr (p, s2)"
    "view i w1 (insert Settled (stages s i)) (nonces s) s2" "w1 = w\<lparr>w_block_number := Some b, w_confirmations := n, w_status := WConfirming\<rparr>"
    "assets s2 = assets s" "users s2 = users s"
    "balance_of s2 (ExchangeCustody, None, x) = balance_of s (ExchangeCustody, None, x)"
    "balance_of s2 (NetworkFeeAccount, None, x) = balance_of s (NetworkFeeAccount, None, x)"
    "posted_key s2 (''network_fee:'' @ i) = posted_key s (''network_fee:'' @ i)"
proof -
  note v = inv_view [OF inv w(1)]
  have i: "w_id w = i" using view_row [OF v(1)] by simp
  let ?w1 = "w\<lparr>w_block_number := Some b, w_confirmations := n, w_status := WConfirming\<rparr>"
  have "violated_check w = None" using r by (simp add: settle_ready_def)
  from confirming_ok [OF wd_inv_core [OF inv] w(1) this] obtain s1 where c: "wd_update_confirmations i b n s = Inr ((), s1)" by blast
  have same: "ledger_same s s1" using c by (auto simp: wd_update_confirmations_def tx_simps dest: update_same)
  have m1: "moves i s s1 ?w1 (stages s i) (nonces s)"
    using wd_update_confirmations_view [OF v(1) c] w(2) by (auto split: if_splits)
  have fit: "leg_fits s1 leg = leg_fits s leg" for leg by (simp add: leg_fits_def ledger_same_facts(2) [OF same])
  have "known_account s1 (UserReserved, Some (w_user w), w_asset w)"
    using r same by (simp add: settle_ready_def known_account_def ledger_same_def)
  moreover have "ledger_inv s1" using moves_view [OF m1] by (intro wd_core_ledger view_core)
  moreover have "in_i128 (w_amount w)" "length i \<le> 36" using r i by (simp_all add: settle_ready_def)
  ultimately obtain p s2 where t: "settle_withdrawal i (w_user w) (w_asset w) (w_amount w) (w_correlation w) s1 = Inr (p, s2)"
    using settle_withdrawal_ok [of s1 "w_user w" "w_asset w" "w_amount w" i] settle_legs_fit [OF inv w r] fit by metis
  have m2: "moves i s1 s2 ?w1 (insert Settled (stages s i)) (nonces s)"
    by (rule stage_moves(4) [OF moves_view [OF m1] _ _ _ t]) simp_all
  note ps = settle_withdrawal_posts [OF wd_core_ledger [OF view_core [OF moves_view [OF m1]]] t]
  have "Settled \<notin> stages s i" using v(2) w(2) by (auto simp: row_ok_def)
  then have "\<not> posted_key s1 (''withdrawal_settle:'' @ i)"
    by (simp add: ledger_same_facts(1) [OF same] stages_def)
  note bal = posts_balance [OF ps this]
  have "ledger_frame s1 s2" using ps by (simp add: posts_def ledger_extends_def)
  then have fr: "assets s2 = assets s" "users s2 = users s" using same unfolding ledger_frame_def ledger_same_def by simp_all
  show ?thesis
    by (rule that [OF c t moves_view [OF m2] refl fr])
      (simp_all add: bal leg_delta_def ledger_same_facts [OF same] posts_posted_key [OF ps])
qed


lemma book_fee_iff:
  fixes s :: "'x wd_db_scheme"
  assumes inv: "ledger_inv s" and a: "find (\<lambda>a. as_chain a = w_chain w \<and> as_symbol a = native_symbol (w_chain w)) (assets s) = Some native"
    and l: "length (w_id w) \<le> 36" and f: "0 \<le> fee" "in_i128 fee" "in_i128 (balance_of s (ExchangeCustody, None, as_id native))"
      "in_i128 (balance_of s (NetworkFeeAccount, None, as_id native))"
    and np: "\<not> posted_key s (''network_fee:'' @ w_id w)"
  shows "if fee \<le> balance_of s (ExchangeCustody, None, as_id native) then \<exists>s'. book_fee w fee s = Inr ((), s')
    else \<exists>e. book_fee w fee s = Inl e"
proof -
  let ?x = "as_id native"
  have ga: "get_asset (w_chain w) (native_symbol (w_chain w)) s = Inr (native, s)" using a by (simp add: get_asset_def)
  show ?thesis
  proof (cases "fee \<le> balance_of s (ExchangeCustody, None, ?x)")
    case True
    have "native \<in> set (assets s)" using a by (auto dest: find_Some_setD)
    then have k: "known_account s (ExchangeCustody, None, ?x)" by (simp add: known_account_def is_user_scoped_def)
    have nn: "0 \<le> balance_of s (NetworkFeeAccount, None, ?x)"
      using balance_of_nonneg [OF inv, of "(NetworkFeeAccount, None, ?x)"] by (simp add: allows_negative_def)
    have "\<exists>r s'. record_network_fee (w_id w) ?x fee (w_correlation w) s = Inr (r, s')"
      by (rule record_network_fee_ok [OF inv k f(1) _ _ f(2) l])
        (use f(1) True nn in_i128_sum [OF f(3,2)] in_i128_sum [OF f(4,2)] in \<open>simp_all add: leg_fits_def natural_delta_def\<close>)
    then show ?thesis using True by (auto simp: book_fee_def ga tx_eval)
  next
    case False
    then obtain e where "record_network_fee (w_id w) ?x fee (w_correlation w) s = Inl e"
      using network_fee_blocked [OF inv np, of ?x fee] by auto
    then show ?thesis using False by (auto simp: book_fee_def ga tx_eval)
  qed
qed

lemma known_asset:
  assumes "x \<in> as_id ` set (assets s)"
  obtains a where "get_asset_by_id x s = Inr (a, s)"
proof (cases "find (\<lambda>a. as_id a = x) (assets s)")
  case None
  then show ?thesis using assms by (auto simp: find_None_iff)
next
  case (Some a)
  then show ?thesis using that by (simp add: get_asset_by_id_def)
qed

lemma settle_tx_exact:
  fixes s :: "'x wd_db_scheme"
  assumes inv: "wd_inv H s" and w: "row s i = Some w" "w_status w \<in> {WBroadcast, WConfirming}" and r: "settle_ready w native fee s"
  shows "if fee \<le> balance_of s (ExchangeCustody, None, as_id native)
    then \<exists>s' w'. settle_success_tx v5 w b n fee s = Inr (Some (), s') \<and> row s' i = Some w' \<and> w_status w' = WCompleted
    else \<exists>e. settle_success_tx v5 w b n fee s = Inl e"
proof -
  have i: "w_id w = i" using view_row [OF inv_view(1) [OF inv w(1)]] by simp
  obtain s1 p s2 w1 where c: "wd_update_confirmations i b n s = Inr ((), s1)"
    and t: "settle_withdrawal i (w_user w) (w_asset w) (w_amount w) (w_correlation w) s1 = Inr (p, s2)"
    and v2: "view i w1 (insert Settled (stages s i)) (nonces s) s2"
    and w1: "w1 = w\<lparr>w_block_number := Some b, w_confirmations := n, w_status := WConfirming\<rparr>"
    and fr: "assets s2 = assets s" "users s2 = users s"
      "balance_of s2 (ExchangeCustody, None, as_id native) = balance_of s (ExchangeCustody, None, as_id native)"
      "balance_of s2 (NetworkFeeAccount, None, as_id native) = balance_of s (NetworkFeeAccount, None, as_id native)"
      "posted_key s2 (''network_fee:'' @ i) = posted_key s (''network_fee:'' @ i)"
    by (rule settle_half [OF inv w r])
  have lock: "lock_withdrawal i s = Inr (w, s)" using w(1) by (simp add: lock_row)
  have st: "w_status w \<noteq> WCompleted" "funds_may_have_left (w_status w)" using w(2) by (auto simp: funds_may_have_left_def)
  note rd = r [unfolded settle_ready_def]
  have fee: "if fee \<le> balance_of s (ExchangeCustody, None, as_id native) then \<exists>s3. book_fee w fee s2 = Inr ((), s3)
      else \<exists>e. book_fee w fee s2 = Inl e"
    using book_fee_iff [OF wd_core_ledger [OF view_core [OF v2]], of w native fee] rd fr i by simp
  show ?thesis
  proof (cases "fee \<le> balance_of s (ExchangeCustody, None, as_id native)")
    case True
    with fee obtain s3 where f: "book_fee w fee s2 = Inr ((), s3)" by auto
    note m3 = book_fee_moves [OF v2 f]
    have v3: "wd_core s3" "row s3 i = Some w1" using moves_view [OF m3] by (simp_all add: view_def)
    have "violated_check w1 = None"
      using rd w(2) by (cases "w_status w") (simp_all add: w1 violated_check_None)
    from completing_ok [OF v3 this, of "post_result_id p" fee] obtain ok s4
      where mc: "mark_completed i (post_result_id p) fee s3 = Inr (ok, s4)" by (auto simp: w1)
    note m4 = mark_completed_view [OF moves_view [OF m3] mc]
    obtain a where ga: "get_asset_by_id (w_asset w) s4 = Inr (a, s4)"
    proof -
      have "assets s4 = assets s3" using mc by (auto simp: mark_completed_def tx_simps dest!: update_same simp: ledger_same_def)
      moreover have "assets s3 = assets s2"
        using f rd fr(1) i record_network_fee_posts [OF wd_core_ledger [OF view_core [OF v2]]]
        by (auto simp: book_fee_def tx_simps get_asset_def posts_def ledger_extends_def ledger_frame_def
            split: option.splits) blast
      moreover have "w_asset w \<in> as_id ` set (assets s)" using rd by (simp add: known_account_def)
      ultimately show ?thesis using that known_asset [of "w_asset w" s4] fr(1) by metis
    qed
    obtain s5 where e: "emit v5 (WithdrawalCompleted \<lparr>wco_withdrawal = w_id w, wco_user = w_user w, wco_chain = w_chain w,
                   wco_tx_hash = (case w_tx_hash w of Some h \<Rightarrow> h | None \<Rightarrow> []), wco_asset = as_symbol a,
                   wco_amount = w_amount w, wco_fee = fee, wco_ledger_tx = post_result_id p\<rparr>)
                   (case w_correlation w of Some c \<Rightarrow> c | None \<Rightarrow> ''unknown'') (''completed:'' @ w_id w) s4 = Inr ((), s5)"
      using emit_ok by blast
    have ok: "ok" using m4 by (simp add: w1)
    have "settle_success_tx v5 w b n fee s = Inr (Some (), s5)"
      using lock st c t f mc ga e ok by (simp add: settle_success_tx_def tx_eval i Let_def)
    moreover have "\<exists>w'. row s5 i = Some w' \<and> w_status w' = WCompleted"
      using emit_moves [OF moves_view [OF conjunct1 [OF m4]] e] by (simp add: moves_def view_def w1)
    ultimately show ?thesis using True by auto
  next
    case False
    with fee obtain e where "book_fee w fee s2 = Inl e" by auto
    then have "settle_success_tx v5 w b n fee s = Inl e"
      using lock st c t by (simp add: settle_success_tx_def tx_eval i Let_def)
    then show ?thesis using False by simp
  qed
qed

text \<open>
  C38: Settlement makes progress. A withdrawal in flight whose transaction the chain mined is
  completed by the next settlement, in one transaction, whenever custody of the chain's native asset
  covers the network fee. When it does not, the settlement fails and changes nothing: the withdrawal
  stays in flight until custody is funded, although its coins have left.
\<close>

theorem settlement_progress:
  fixes s :: "'x wd_net_scheme"
  assumes inv: "wd_inv H s" and w: "row s i = Some w" "w_status w \<in> {WBroadcast, WConfirming}" and r: "settle_ready w native fee s"
  shows "if fee \<le> balance_of s (ExchangeCustody, None, as_id native)
    then \<exists>s' w'. settle_success v5 w b n fee s = (Inr (Some ()), s') \<and> row s' i = Some w' \<and> w_status w' = WCompleted
    else \<exists>e. settle_success v5 w b n fee s = (Inl e, s)"
proof -
  have "seen s w" using w(1) row_Some [OF wd_inv_core [OF inv]] seen_mem by blast
  then have some: "or_rollback (settle_success_tx v5 w b n fee) s = (Inr (Some a), s') \<longleftrightarrow>
      settle_success_tx v5 w b n fee s = Inr (Some a, s')" for a s'
    by (intro or_rollback_state(2) [OF inv] settle_success_tx_step [OF _ inv])
  have err: "or_rollback (settle_success_tx v5 w b n fee) s = (Inl e, s)" if "settle_success_tx v5 w b n fee s = Inl e" for e
    using that by (simp add: or_rollback_def atomically_def tx_eval)
  show ?thesis using settle_tx_exact [OF inv w r, of v5 b n] some err unfolding settle_success_def
    by (cases "fee \<le> balance_of s (ExchangeCustody, None, as_id native)") auto
qed


definition demo_in_flight :: wd_net where
  "demo_in_flight = fst (system_run demo_deployment (demo_deposited @ [CallCreate [] demo_request, demo_pass TxPending]) (demo_net, []))"

lemma demo_in_flight_inv: "wd_inv (hots demo_deployment) demo_in_flight"
  using system_run_step [OF fresh_system_inv [OF demo_net_fresh], of demo_deployment
      "demo_deposited @ [CallCreate [] demo_request, demo_pass TxPending]"]
  by (simp add: demo_in_flight_def system_inv_def)

text \<open>Custody holds two; a fee of one is covered, a fee of three is not.\<close>

definition demo_ready :: "wd_net \<Rightarrow> bool" where
  "demo_ready t = (case withdrawals t of
     [w] \<Rightarrow> w_id w = demo_id \<and> w_status w = WBroadcast \<and> settle_ready w (hd (assets t)) 1 t \<and> settle_ready w (hd (assets t)) 3 t \<and>
       balance_of t (ExchangeCustody, None, as_id (hd (assets t))) = 2
   | _ \<Rightarrow> False)"

lemma demo_in_flight_eval: "demo_ready demo_in_flight"
  unfolding demo_in_flight_def by code_simp

theorem settlement_progress_witness:
  "(\<exists>w s' w'. settle_success (\<lambda>k. k) w 9 2 1 demo_in_flight = (Inr (Some ()), s') \<and> row s' demo_id = Some w' \<and> w_status w' = WCompleted) \<and>
   (\<exists>w e. settle_success (\<lambda>k. k) w 9 2 3 demo_in_flight = (Inl e, demo_in_flight))"
proof -
  let ?a = "hd (assets demo_in_flight)"
  obtain w where w: "withdrawals demo_in_flight = [w]" "w_id w = demo_id" "w_status w = WBroadcast"
    "settle_ready w ?a 1 demo_in_flight" "settle_ready w ?a 3 demo_in_flight"
    "balance_of demo_in_flight (ExchangeCustody, None, as_id ?a) = 2"
    using demo_in_flight_eval by (auto simp: demo_ready_def split: list.splits)
  have r: "row demo_in_flight demo_id = Some w" using w(1,2) by (simp add: row_def)
  have s: "w_status w \<in> {WBroadcast, WConfirming}" using w(3) by simp
  show ?thesis
    using settlement_progress [OF demo_in_flight_inv r s w(4), of "\<lambda>k. k" 9 2]
      settlement_progress [OF demo_in_flight_inv r s w(5), of "\<lambda>k. k" 9 2] w(6) by fastforce
qed

end
