(* ===== verification/Rpc_Health.thy ===== *)
theory Rpc_Health
  imports Complex_Main Prelude
begin

text \<open>
  Health of one RPC endpoint and its circuit breaker (\<open>crates/rpc/src/health.rs\<close>). Instants and
  durations are microseconds. The selection score is computed in rationals, without the rounding
  of \<open>f64\<close>; what is proved of it is only whether there is a score.

  The breaker is specified over the history of results: it opens on the configured run of failures
  and on a failed probe, and refuses requests exactly until the reset timeout has passed.
\<close>

section \<open>The breaker\<close>

datatype breaker_state = Closed | Open nat | HalfOpen

fun breaker_label :: "breaker_state \<Rightarrow> string" where
  "breaker_label Closed = ''closed''"
| "breaker_label (Open _) = ''open''"
| "breaker_label HalfOpen = ''half_open''"

record health_config =
  hc_failure_threshold :: nat
  hc_reset_timeout :: nat
  hc_latency_alpha_pct :: nat
  hc_success_threshold :: nat

definition health_config_default :: health_config where
  "health_config_default = \<lparr>hc_failure_threshold = 5, hc_reset_timeout = 10 * 1000000,
     hc_latency_alpha_pct = 20, hc_success_threshold = 2\<rparr>"

record endpoint_health =
  eh_cfg :: health_config
  eh_state :: breaker_state
  eh_consecutive_failures :: nat
  eh_consecutive_successes :: nat
  eh_total_requests :: nat
  eh_total_failures :: nat
  eh_ewma_latency_us :: "nat option"
  eh_last_success :: "nat option"
  eh_last_failure :: "nat option"

definition endpoint_health_new :: "health_config \<Rightarrow> endpoint_health" where
  "endpoint_health_new cfg = \<lparr>eh_cfg = cfg, eh_state = Closed, eh_consecutive_failures = 0,
     eh_consecutive_successes = 0, eh_total_requests = 0, eh_total_failures = 0, eh_ewma_latency_us = None,
     eh_last_success = None, eh_last_failure = None\<rparr>"

definition failure_rate :: "endpoint_health \<Rightarrow> rat" where
  "failure_rate h = (if eh_total_requests h = 0 then 0
     else of_nat (eh_total_failures h) / of_nat (eh_total_requests h))"

definition allows_request :: "nat \<Rightarrow> endpoint_health \<Rightarrow> bool \<times> endpoint_health" where
  "allows_request now h = (case eh_state h of
     Open until \<Rightarrow> if until \<le> now then (True, h\<lparr>eh_state := HalfOpen, eh_consecutive_successes := 0\<rparr>) else (False, h)
   | _ \<Rightarrow> (True, h))"

definition ewma :: "nat \<Rightarrow> nat option \<Rightarrow> nat \<Rightarrow> nat" where
  "ewma alpha prev latency = (let sample = min latency u64_max in
     case prev of None \<Rightarrow> sample
     | Some p \<Rightarrow> let a = min alpha 100 in min ((sample * a + p * (100 - a)) div 100) u64_max)"

definition record_success :: "nat \<Rightarrow> nat \<Rightarrow> endpoint_health \<Rightarrow> endpoint_health" where
  "record_success latency now h =
     (let s = Suc (eh_consecutive_successes h);
          h' = h\<lparr>eh_total_requests := Suc (eh_total_requests h), eh_consecutive_failures := 0,
                eh_consecutive_successes := s, eh_last_success := Some now,
                eh_ewma_latency_us := Some (ewma (hc_latency_alpha_pct (eh_cfg h)) (eh_ewma_latency_us h) latency)\<rparr>
      in if eh_state h = HalfOpen \<and> hc_success_threshold (eh_cfg h) \<le> s then h'\<lparr>eh_state := Closed\<rparr> else h')"

definition record_failure :: "nat \<Rightarrow> endpoint_health \<Rightarrow> endpoint_health" where
  "record_failure now h =
     (let f = Suc (eh_consecutive_failures h);
          h' = h\<lparr>eh_total_requests := Suc (eh_total_requests h), eh_total_failures := Suc (eh_total_failures h),
                eh_consecutive_failures := f, eh_consecutive_successes := 0, eh_last_failure := Some now\<rparr>
      in if eh_state h = HalfOpen \<or> hc_failure_threshold (eh_cfg h) \<le> f
         then h'\<lparr>eh_state := Open (now + hc_reset_timeout (eh_cfg h))\<rparr> else h')"

definition score :: "nat \<Rightarrow> nat \<Rightarrow> endpoint_health \<Rightarrow> rat option" where
  "score weight now h =
     (if (case eh_state h of Open until \<Rightarrow> now < until | _ \<Rightarrow> False) then None
      else let base = of_nat (max weight 1);
               latency_factor = (case eh_ewma_latency_us h of None \<Rightarrow> 1 | Some us \<Rightarrow> 1 / (1 + of_nat us / 250000));
               reliability_factor = (1 - failure_rate h) ^ 2;
               probe_penalty = (if eh_state h = HalfOpen then 1 / 10 else 1)
           in Some (base * latency_factor * max reliability_factor (1 / 100) * probe_penalty))"

section \<open>Histories of one endpoint\<close>

datatype health_event = Ask nat | Succeeded nat nat | Failed nat

fun health_step :: "health_event \<Rightarrow> endpoint_health \<Rightarrow> endpoint_health" where
  "health_step (Ask now) h = snd (allows_request now h)"
| "health_step (Succeeded latency now) h = record_success latency now h"
| "health_step (Failed now) h = record_failure now h"

definition health_run :: "health_config \<Rightarrow> health_event list \<Rightarrow> endpoint_health" where
  "health_run cfg es = fold health_step es (endpoint_health_new cfg)"

text \<open>
  The specification speaks of the history only: the run of failures at its end and the times of
  its failures. Requests overlap, so results may also arrive while the breaker is open.
\<close>

fun is_result :: "health_event \<Rightarrow> bool" where
  "is_result (Ask _) = False"
| "is_result _ = True"

fun is_failure :: "health_event \<Rightarrow> bool" where
  "is_failure (Failed _) = True"
| "is_failure _ = False"

definition failure_run :: "health_event list \<Rightarrow> nat" where
  "failure_run es = length (takeWhile is_failure (filter is_result (rev es)))"

lemma failure_run_snoc [simp]:
  "failure_run [] = 0"
  "failure_run (es @ [Ask t]) = failure_run es"
  "failure_run (es @ [Succeeded l t]) = 0"
  "failure_run (es @ [Failed t]) = Suc (failure_run es)"
  by (simp_all add: failure_run_def)

definition last_failure :: "health_event list \<Rightarrow> nat option" where
  "last_failure es = (case find is_failure (rev es) of Some (Failed t) \<Rightarrow> Some t | _ \<Rightarrow> None)"

lemma last_failure_snoc [simp]:
  "last_failure [] = None"
  "last_failure (es @ [Ask t]) = last_failure es"
  "last_failure (es @ [Succeeded l t]) = last_failure es"
  "last_failure (es @ [Failed t]) = Some t"
  by (simp_all add: last_failure_def)

definition breaker_inv :: "health_config \<Rightarrow> health_event list \<Rightarrow> endpoint_health \<Rightarrow> bool" where
  "breaker_inv cfg es h \<longleftrightarrow> eh_cfg h = cfg \<and> eh_consecutive_failures h = failure_run es \<and>
     eh_last_failure h = last_failure es \<and>
     eh_total_requests h = length (filter is_result es) \<and> eh_total_failures h = length (filter is_failure es) \<and>
     (case eh_state h of
        Closed \<Rightarrow> failure_run es < max 1 (hc_failure_threshold cfg)
      | Open until \<Rightarrow> (\<exists>t. Failed t \<in> set es \<and> until = t + hc_reset_timeout cfg)
      | HalfOpen \<Rightarrow> eh_consecutive_successes h < max 1 (hc_success_threshold cfg))"

lemma breaker_inv_snoc:
  assumes "breaker_inv cfg es h"
  shows "breaker_inv cfg (es @ [e]) (health_step e h)"
proof (cases e)
  case (Ask t)
  then show ?thesis using assms
    by (cases "eh_state h") (auto simp: breaker_inv_def allows_request_def)
next
  case (Succeeded l t)
  then show ?thesis using assms
    by (cases "eh_state h") (auto simp: breaker_inv_def record_success_def Let_def)
next
  case (Failed t)
  then show ?thesis using assms
    by (cases "eh_state h") (auto simp: breaker_inv_def record_failure_def Let_def)
qed

lemma health_run_snoc [simp]: "health_run cfg (es @ [e]) = health_step e (health_run cfg es)"
  by (simp add: health_run_def)

lemma health_run_inv: "breaker_inv cfg es (health_run cfg es)"
proof (induction es rule: rev_induct)
  case Nil
  then show ?case by (simp add: breaker_inv_def health_run_def endpoint_health_new_def)
next
  case (snoc e es)
  then show ?case using breaker_inv_snoc by simp
qed


lemma score_allows: "score weight now h = None \<longleftrightarrow> \<not> fst (allows_request now h)"
  by (auto simp: score_def allows_request_def Let_def split: breaker_state.splits)

lemma refuses_iff: "\<not> fst (allows_request now h) \<longleftrightarrow> (\<exists>until. eh_state h = Open until \<and> now < until)"
  by (auto simp: allows_request_def split: breaker_state.splits)

lemma half_open_admits_all: "eh_state h = HalfOpen \<Longrightarrow> allows_request now h = (True, h)"
  by (simp add: allows_request_def)

lemma probes_close:
  assumes "eh_state h = HalfOpen" "hc_success_threshold (eh_cfg h) \<le> eh_consecutive_successes h + length ls" "ls \<noteq> []"
  shows "eh_state (fold (\<lambda>(l, t). record_success l t) ls h) = Closed"
  using assms
proof (induction ls arbitrary: h)
  case (Cons x ls)
  obtain l t where x: "x = (l, t)" by fastforce
  have closed: "eh_state (fold (\<lambda>(l, t). record_success l t) ys g) = Closed" if "eh_state g = Closed" for ys g
    using that by (induction ys arbitrary: g) (auto simp: record_success_def Let_def)
  show ?case
  proof (cases "hc_success_threshold (eh_cfg h) \<le> Suc (eh_consecutive_successes h)")
    case True
    then have "eh_state (record_success l t h) = Closed" using Cons.prems(1) by (simp add: record_success_def Let_def)
    then show ?thesis using closed by (simp add: x)
  next
    case False
    then have "ls \<noteq> []" using Cons.prems(2) by auto
    moreover have "eh_state (record_success l t h) = HalfOpen" "eh_cfg (record_success l t h) = eh_cfg h"
      "eh_consecutive_successes (record_success l t h) = Suc (eh_consecutive_successes h)"
      using False Cons.prems(1) by (simp_all add: record_success_def Let_def)
    ultimately show ?thesis using Cons.IH [of "record_success l t h"] Cons.prems(2) by (simp add: x)
  qed
qed simp

text \<open>The average latency stays between the samples.\<close>

lemma ewma_bounds:
  assumes "p \<le> u64_max"
  shows "ewma alpha (Some p) l \<le> max p (min l u64_max)" "min p (min l u64_max) \<le> ewma alpha (Some p) l"
proof -
  define s a where "s = min l u64_max" and "a = min alpha 100"
  have a: "a \<le> 100" and s: "s \<le> u64_max" by (simp_all add: a_def s_def)
  have "s * a + p * (100 - a) \<le> max p s * a + max p s * (100 - a)" by (intro add_mono mult_le_mono1) simp_all
  also have "\<dots> = max p s * 100" using a by (simp add: add_mult_distrib2 [symmetric])
  finally have hi: "(s * a + p * (100 - a)) div 100 \<le> max p s" by (simp add: div_le_mono [THEN order_trans])
  have "min p s * 100 = min p s * a + min p s * (100 - a)" using a by (simp add: add_mult_distrib2 [symmetric])
  also have "\<dots> \<le> s * a + p * (100 - a)" by (intro add_mono mult_le_mono1) simp_all
  finally have lo: "min p s \<le> (s * a + p * (100 - a)) div 100" by (simp add: less_eq_div_iff_mult_less_eq)
  have e: "ewma alpha (Some p) l = min ((s * a + p * (100 - a)) div 100) u64_max"
    by (simp add: ewma_def Let_def s_def a_def)
  show "ewma alpha (Some p) l \<le> max p (min l u64_max)" using hi unfolding e s_def [symmetric] by (meson min.coboundedI1)
  show "min p (min l u64_max) \<le> ewma alpha (Some p) l"
    using lo s assms unfolding e s_def [symmetric] by (meson min.boundedI min.coboundedI1)
qed

text \<open>
  C30: The circuit breaker, over every history of requests and results of an endpoint: an endpoint is
  selectable exactly when it admits a request; it refuses one only within the reset timeout of some
  failure; after the configured run of consecutive failures, or one failed probe, it refuses every
  request until the timeout has passed and admits one from then on; it is never closed at the end
  of such a run; and its counters are those of the history.
\<close>

theorem breaker_exact:
  assumes "0 < hc_failure_threshold cfg"
  shows "let h = health_run cfg es in
    (score weight now h = None \<longleftrightarrow> \<not> fst (allows_request now h)) \<and>
    (\<not> fst (allows_request now h) \<longrightarrow> (\<exists>t. Failed t \<in> set es \<and> now < t + hc_reset_timeout cfg)) \<and>
    (hc_failure_threshold cfg \<le> Suc (failure_run es) \<or> eh_state h = HalfOpen \<longrightarrow>
      fst (allows_request now (health_run cfg (es @ [Failed t]))) = (t + hc_reset_timeout cfg \<le> now)) \<and>
    (hc_failure_threshold cfg \<le> failure_run es \<longrightarrow> eh_state h \<noteq> Closed) \<and>
    eh_consecutive_failures h = failure_run es \<and>
    eh_total_requests h = length (filter is_result es) \<and> eh_total_failures h = length (filter is_failure es)"
proof -
  let ?h = "health_run cfg es"
  note inv = health_run_inv [of cfg es, unfolded breaker_inv_def]
  have "\<exists>t. Failed t \<in> set es \<and> now < t + hc_reset_timeout cfg" if "\<not> fst (allows_request now ?h)"
    using that inv unfolding refuses_iff by auto
  moreover have "fst (allows_request now (health_run cfg (es @ [Failed t]))) = (t + hc_reset_timeout cfg \<le> now)"
    if "hc_failure_threshold cfg \<le> Suc (failure_run es) \<or> eh_state ?h = HalfOpen"
    using that inv by (auto simp: record_failure_def Let_def allows_request_def)
  moreover have "eh_state ?h \<noteq> Closed" if "hc_failure_threshold cfg \<le> failure_run es"
    using that inv assms by auto
  ultimately show ?thesis using inv score_allows by (simp add: Let_def)
qed

theorem breaker_exact_witness:
  "let cfg = health_config_default\<lparr>hc_failure_threshold := 2\<rparr>; es = [Ask 1, Failed 2] in
     \<not> fst (allows_request 10000002 (health_run cfg (es @ [Failed 3]))) \<and> fst (allows_request 10000003 (health_run cfg (es @ [Failed 3])))"
  using breaker_exact [of "health_config_default\<lparr>hc_failure_threshold := 2\<rparr>" "[Ask 1, Failed 2]" 1 10000002 3]
    breaker_exact [of "health_config_default\<lparr>hc_failure_threshold := 2\<rparr>" "[Ask 1, Failed 2]" 1 10000003 3]
  by (simp add: Let_def health_config_default_def failure_run_def del: health_run_snoc)

end
