(* ===== verification/Evm_Abi.thy ===== *)
theory Evm_Abi
  imports Money Chain_Types
begin

text \<open>
  ERC-20 encoding and decoding (\<open>crates/chains-evm/src/abi.rs\<close>) and the hexadecimal quantities of the
  JSON-RPC interface. Bytes are naturals below 256. \<open>hex_digits\<close>, which prints a value at a fixed
  width, is the specification that the decoders are measured against.
\<close>

section \<open>Decoding and encoding\<close>

definition TRANSFER_TOPIC :: string where
  "TRANSFER_TOPIC = ''0xddf252ad1be2c89b69c2b068fc378daa952ba7f163c4a11628f55a4df523b3ef''"

definition TRANSFER_SELECTOR :: "nat list" where
  "TRANSFER_SELECTOR = [0xa9, 0x05, 0x9c, 0xbb]"

record erc20_transfer =
  et_from :: address
  et_to :: address
  et_value :: amount

definition strip_0x :: "string \<Rightarrow> string" where
  "strip_0x s = trim_start_matches2 CHR ''0'' CHR ''x'' (trim s)"

definition address_from_topic :: "string \<Rightarrow> address res" where
  "address_from_topic topic =
     (let body = strip_0x topic
      in if length body \<noteq> 64 \<or> \<not> list_all is_hexdigit body then Inl (Validation ''address topic must be 32 bytes of hex'')
         else if list_ex (\<lambda>c. c \<noteq> CHR ''0'') (take 24 body) then Inl (Validation ''address topic has non-zero padding'')
         else Inr (''0x'' @ drop 24 body))"

definition uint256_from_data :: "string \<Rightarrow> amount res" where
  "uint256_from_data data =
     (let body = strip_0x data
      in if body = [] then Inl (Validation ''Transfer log has empty data'')
         else if length body \<noteq> 64
         then Inl (Validation (''Transfer data is '' @ show_nat (length body) @ '' hex chars, expected 64''))
         else if \<not> list_all is_hexdigit body then Inl (Validation ''Transfer data is not hex'')
         else from_hex_quantity body)"

definition eq_ignore_ascii_case :: "string \<Rightarrow> string \<Rightarrow> bool" where
  "eq_ignore_ascii_case a b \<longleftrightarrow> to_ascii_lowercase a = to_ascii_lowercase b"

definition decode_transfer_log :: "string list \<Rightarrow> string \<Rightarrow> erc20_transfer option res" where
  "decode_transfer_log topics data =
     (case topics of
        [] \<Rightarrow> Inr None
      | topic0 # _ \<Rightarrow>
          if \<not> eq_ignore_ascii_case topic0 TRANSFER_TOPIC then Inr None
          else if length topics \<noteq> 3
          then Inl (Validation (''Transfer log has '' @ show_nat (length topics) @ '' topics, expected 3''))
          else (case address_from_topic (topics ! 1) of Inl e \<Rightarrow> Inl e
          | Inr src \<Rightarrow> (case address_from_topic (topics ! 2) of Inl e \<Rightarrow> Inl e
          | Inr dst \<Rightarrow> (case uint256_from_data data of Inl e \<Rightarrow> Inl e
          | Inr value \<Rightarrow> Inr (Some \<lparr>et_from = src, et_to = dst, et_value = value\<rparr>)))))"

text \<open>\<open>hex::decode\<close> of an even number of digits; \<open>hex_error\<close> is the text of its error.\<close>

fun hex_decode :: "string \<Rightarrow> nat list option" where
  "hex_decode [] = Some []"
| "hex_decode [_] = None"
| "hex_decode (a # b # s) =
     (case (to_digit 16 a, to_digit 16 b, hex_decode s) of
        (Some x, Some y, Some bs) \<Rightarrow> Some ((16 * x + y) # bs) | _ \<Rightarrow> None)"

text \<open>The low \<open>n\<close> bytes of a value, big-endian.\<close>

fun be_bytes :: "nat \<Rightarrow> nat \<Rightarrow> nat list" where
  "be_bytes 0 v = []"
| "be_bytes (Suc n) v = be_bytes n (v div 256) @ [v mod 256]"

definition encode_transfer_call :: "(string \<Rightarrow> string) \<Rightarrow> address \<Rightarrow> amount \<Rightarrow> nat list res" where
  "encode_transfer_call hex_error dst amount =
     (if \<not> is_positive amount then Inl (InvalidAmount ''ERC-20 transfer amount must be positive'')
      else let to_body = trim_start_matches2 CHR ''0'' CHR ''x'' (storage_key dst)
           in if length to_body \<noteq> 40 then Inl (InvalidAddress ''evm'' ''destination must be 20 bytes'')
              else (case hex_decode to_body of
                 None \<Rightarrow> Inl (Validation (''destination is not hex: '' @ hex_error to_body))
               | Some bs \<Rightarrow> Inr (TRANSFER_SELECTOR @ replicate 12 0 @ bs @ replicate 16 0 @ be_bytes 16 (nat amount))))"

text \<open>\<open>u64::from_str_radix\<close> with radix 16: an optional plus sign and at least one digit.\<close>

definition parse_hex_u64 :: "string \<Rightarrow> nat option" where
  "parse_hex_u64 s =
     (case s of [] \<Rightarrow> None
      | c # cs \<Rightarrow> (let ds = (if c = CHR ''+'' then cs else s) in if ds = [] then None
          else case digits_val 16 0 ds of None \<Rightarrow> None | Some v \<Rightarrow> if v \<le> u64_max then Some v else None))"

text \<open>For evaluation the bound is compared as a binary integer.\<close>

lemma parse_hex_u64_code [code]:
  "parse_hex_u64 s =
     (case s of [] \<Rightarrow> None
      | c # cs \<Rightarrow> (let ds = (if c = CHR ''+'' then cs else s) in if ds = [] then None
          else case digits_val 16 0 ds of None \<Rightarrow> None | Some v \<Rightarrow> if int v \<le> 18446744073709551615 then Some v else None))"
  by (auto simp: parse_hex_u64_def Let_def split: list.split option.split)

definition hex_to_u64 :: "string \<Rightarrow> nat res" where
  "hex_to_u64 s =
     (let body = trim_start_matches2 CHR ''0'' CHR ''X'' (strip_0x s);
          trimmed = dropWhile (\<lambda>c. c = CHR ''0'') body
      in if trimmed = [] then Inr 0
         else if 16 < length trimmed then Inl (Validation (''hex quantity too wide for u64: '' @ truncate_for_log s))
         else (case parse_hex_u64 trimmed of
             Some v \<Rightarrow> Inr v | None \<Rightarrow> Inl (Validation (''malformed hex quantity: '' @ take 20 body))))"

definition hex_char :: "nat \<Rightarrow> char" where
  "hex_char d = (if d < 10 then char_of (48 + d) else char_of (87 + d))"

fun show_hex :: "nat \<Rightarrow> string" where
  "show_hex n = (if n < 16 then [hex_char n] else show_hex (n div 16) @ [hex_char (n mod 16)])"

declare show_hex.simps [simp del]

definition u64_to_hex :: "nat \<Rightarrow> string" where
  "u64_to_hex v = ''0x'' @ show_hex v"

definition is_transfer_calldata :: "nat list \<Rightarrow> bool" where
  "is_transfer_calldata data \<longleftrightarrow> length data = 68 \<and> take 4 data = TRANSFER_SELECTOR"

section \<open>Hexadecimal digits\<close>

fun hex_digits :: "nat \<Rightarrow> nat \<Rightarrow> string" where
  "hex_digits 0 v = []"
| "hex_digits (Suc n) v = hex_digits n (v div 16) @ [hex_char (v mod 16)]"

lemma hex_char_code: "d < 16 \<Longrightarrow> of_char (hex_char d) = (if d < 10 then 48 + d else 87 + d)"
  by (simp add: hex_char_def)

lemma hex_char_eq: "d < 16 \<Longrightarrow> hex_char d = c \<Longrightarrow> (if d < 10 then 48 + d else 87 + d) = (of_char c :: nat)"
  using hex_char_code [of d] by simp

lemma hex_char_facts:
  assumes "d < 16"
  shows "to_digit 16 (hex_char d) = Some d" "is_hexdigit (hex_char d)" "\<not> is_ws (hex_char d)"
    "hex_char d \<notin> {CHR ''x'', CHR ''X'', CHR ''+'', CHR ''-''}" "hex_char d = CHR ''0'' \<longleftrightarrow> d = 0"
    "lower_char (hex_char d) = hex_char d"
proof -
  note c = hex_char_code [OF assms] and e = hex_char_eq [OF assms]
  show "to_digit 16 (hex_char d) = Some d" "is_hexdigit (hex_char d)" "\<not> is_ws (hex_char d)"
    using assms by (auto simp: to_digit_def is_hexdigit_def is_digit_def is_ws_def Let_def c)
  show "lower_char (hex_char d) = hex_char d"
    using assms by (intro lower_char_id) (auto simp: is_upper_def Let_def c)
  show "hex_char d \<notin> {CHR ''x'', CHR ''X'', CHR ''+'', CHR ''-''}"
    using assms by (auto split: if_splits dest!: e)
  have "of_char (hex_char d) = (of_char CHR ''0'' :: nat) \<longleftrightarrow> d = 0" unfolding c by simp
  then show "hex_char d = CHR ''0'' \<longleftrightarrow> d = 0" using of_char_eq_iff by blast
qed

lemma hex_digits_length [simp]: "length (hex_digits n v) = n"
  by (induction n arbitrary: v) simp_all

lemma hex_digits_char: "c \<in> set (hex_digits n v) \<Longrightarrow> \<exists>d<16. c = hex_char d"
proof (induction n arbitrary: v)
  case (Suc n)
  have "v mod 16 < 16" by simp
  with Suc show ?case by fastforce
qed simp

lemma digits_val_hex: "digits_val 16 acc (hex_digits n v) = Some (acc * 16 ^ n + v mod 16 ^ n)"
proof (induction n arbitrary: v)
  case (Suc n)
  have "v mod 16 ^ Suc n = 16 * (v div 16 mod 16 ^ n) + v mod 16"
    by (metis mod_mult2_eq power_Suc add.commute)
  then show ?case using Suc [of "v div 16"] hex_char_facts(1) [of "v mod 16"]
    by (simp add: digits_val_append algebra_simps)
qed simp

lemma hex_digits_0 [simp]: "hex_digits n 0 = replicate n CHR ''0''"
proof (induction n)
  case (Suc n)
  then show ?case using hex_char_facts(5) [of 0] by (simp add: replicate_append_same)
qed simp

lemma hex_digits_pad: "v < 16 ^ n \<Longrightarrow> hex_digits (k + n) v = replicate k CHR ''0'' @ hex_digits n v"
proof (induction n arbitrary: v)
  case (Suc n)
  then have "v div 16 < 16 ^ n" by (simp add: less_mult_imp_div_less mult.commute)
  with Suc.IH show ?case by simp
qed simp

lemma hex_digits_significant: "v < 16 ^ n \<Longrightarrow> length (dropWhile (\<lambda>c. c = CHR ''0'') (hex_digits (k + n) v)) \<le> n"
  by (simp add: hex_digits_pad dropWhile_append) (metis hex_digits_length length_dropWhile_le)


section \<open>Quantities\<close>

definition hex_text :: "string \<Rightarrow> bool" where
  "hex_text s \<longleftrightarrow> (\<forall>c\<in>set s. \<exists>d<16. c = hex_char d)"

lemma hex_text_digits [simp]: "hex_text (hex_digits n v)"
  using hex_digits_char by (auto simp: hex_text_def)

lemma hex_textD:
  assumes "hex_text s" "c \<in> set s"
  shows "is_hexdigit c" "\<not> is_ws c" "c \<notin> {CHR ''x'', CHR ''X'', CHR ''+'', CHR ''-''}" "lower_char c = c"
proof -
  obtain d where d: "d < 16" "c = hex_char d" using assms by (auto simp: hex_text_def)
  show "is_hexdigit c" "\<not> is_ws c" "c \<notin> {CHR ''x'', CHR ''X'', CHR ''+'', CHR ''-''}" "lower_char c = c"
    unfolding d(2) by (rule hex_char_facts [OF d(1)])+
qed

lemma trim_start_id: "b \<notin> set s \<Longrightarrow> trim_start_matches2 a b s = s"
  by (cases "(a, b, s)" rule: trim_start_matches2.cases) auto

lemma strip_hex:
  assumes "hex_text s" "s \<noteq> []"
  shows "strip_0x (''0x'' @ s) = s" "trim s = s" "trim_start_matches2 CHR ''0'' CHR ''x'' s = s"
    "trim_start_matches2 CHR ''0'' CHR ''X'' s = s"
proof -
  have t: "hd s \<in> set s" "last s \<in> set s" using assms(2) by simp_all
  show x: "trim_start_matches2 CHR ''0'' CHR ''x'' s = s" "trim_start_matches2 CHR ''0'' CHR ''X'' s = s"
    using hex_textD(3) [OF assms(1)] by (intro trim_start_id; blast)+
  show "trim s = s" using t hex_textD(2) [OF assms(1)] by (intro trim_id) blast
  have "trim (''0x'' @ s) = ''0x'' @ s"
    using t(2) assms(2) hex_textD(2) [OF assms(1)] by (intro trim_id) (simp add: is_ws_def)
  then show "strip_0x (''0x'' @ s) = s" using x(1) by (simp add: strip_0x_def)
qed

lemma show_hex_facts:
  "digits_val 16 0 (show_hex v) = Some v" "hex_text (show_hex v)" "show_hex v \<noteq> []" "hd (show_hex v) = CHR ''0'' \<longleftrightarrow> v = 0"
proof (induction v rule: show_hex.induct)
  case (1 v)
  have m: "v mod 16 < 16" by simp
  {
    case 1
    then show ?case using "1.IH"(1) hex_char_facts(1) [OF m]
      by (cases "v < 16") (simp_all add: show_hex.simps [of v] digits_val_append hex_char_facts(1))
  next
    case 2
    have "\<exists>d<16. hex_char (v mod 16) = hex_char d" using m by blast
    then show ?case using "1.IH"(2) by (cases "v < 16") (auto simp: show_hex.simps [of v] hex_text_def)
  next
    case 3
    then show ?case by (simp add: show_hex.simps [of v])
  next
    case 4
    then show ?case using "1.IH"(3,4) by (cases "v < 16") (auto simp: show_hex.simps [of v] hex_char_facts(5))
  }
qed

lemma show_hex_length: "v < 16 ^ Suc n \<Longrightarrow> length (show_hex v) \<le> Suc n"
proof (induction n arbitrary: v)
  case (Suc n)
  then show ?case using Suc.IH [of "v div 16"]
    by (cases "v < 16") (auto simp: show_hex.simps [of v] less_mult_imp_div_less mult.commute)
qed (simp add: show_hex.simps)

lemma hex_to_u64_to_hex:
  assumes "v \<le> u64_max"
  shows "hex_to_u64 (u64_to_hex v) = Inr v"
proof (cases "v = 0")
  case True
  have "show_hex 0 = ''0''" using hex_char_facts(5) [of 0] by (simp add: show_hex.simps)
  then show ?thesis using strip_hex(1) [OF show_hex_facts(2,3) [of 0]] strip_hex(4) [OF show_hex_facts(2,3) [of 0]]
    by (simp add: True hex_to_u64_def u64_to_hex_def)
next
  case False
  obtain c cs where s: "show_hex v = c # cs" using show_hex_facts(3) by (cases "show_hex v") auto
  have "c \<noteq> CHR ''0''" using show_hex_facts(4) [of v] False s by simp
  then have d: "dropWhile (\<lambda>c. c = CHR ''0'') (show_hex v) = show_hex v" by (simp add: s)
  have "c \<noteq> CHR ''+''" using hex_textD(3) [OF show_hex_facts(2) [of v]] s by simp
  then have "parse_hex_u64 (show_hex v) = Some v"
    using show_hex_facts(1) [of v] assms by (simp add: parse_hex_u64_def s Let_def del: digits_val.simps)
  moreover have "length (show_hex v) \<le> 16" using assms by (intro show_hex_length [of v 15, simplified]) simp
  moreover have "\<exists>x\<in>set (show_hex v). x \<noteq> CHR ''0''" using \<open>c \<noteq> CHR ''0''\<close> by (simp add: s)
  ultimately show ?thesis using show_hex_facts(3) [of v]
    by (auto simp: hex_to_u64_def u64_to_hex_def Let_def strip_hex [OF show_hex_facts(2,3)] d simp del: append.simps)
qed

section \<open>Transfers\<close>

lemma digits_val_bound: "digits_val r acc s = Some v \<Longrightarrow> 0 < r \<Longrightarrow> v < (acc + 1) * r ^ length s"
proof (induction s arbitrary: acc)
  case (Cons c s)
  then obtain d where d: "to_digit r c = Some d" "digits_val r (acc * r + d) s = Some v" by (auto split: option.splits)
  have "d < r" using d(1) by (auto simp: to_digit_def Let_def split: if_splits)
  then have "acc * r + d + 1 \<le> (acc + 1) * r" by simp
  then have "(acc * r + d + 1) * r ^ length s \<le> (acc + 1) * r * r ^ length s" by (rule mult_le_mono1)
  with Cons.IH [OF d(2) Cons.prems(2)] show ?case by (simp add: algebra_simps)
qed simp

lemma digits_val_zeros: "digits_val 16 0 (dropWhile (\<lambda>c. c = CHR ''0'') s) = digits_val 16 0 s"
proof (induction s)
  case (Cons c s)
  have "to_digit 16 CHR ''0'' = Some 0" by (simp add: to_digit_def Let_def)
  with Cons show ?case by simp
qed simp

lemma from_hex_word:
  assumes "v < 16 ^ 64"
  shows "from_hex_quantity (hex_digits 64 v) =
    (if v < 16 ^ 31 then Inr (int v) else Inl (AmountExceedsRepresentableRange (hex_digits 64 v)))"
proof -
  let ?s = "hex_digits 64 v"
  have ne: "?s \<noteq> []" by (metis hex_digits_length length_0_conv numeral_neq_zero)
  note st = strip_hex [OF hex_text_digits ne]
  have val: "digits_val 16 0 ?s = Some v" using assms by (simp add: digits_val_hex del: hex_digits.simps)
  show ?thesis
  proof (cases "v < 16 ^ 31")
    case True
    have "length (dropWhile (\<lambda>c. c = CHR ''0'') ?s) \<le> 31"
      using hex_digits_significant [OF True, of 33] by simp
    moreover obtain c cs where c: "?s = c # cs" using ne by (cases ?s) auto
    moreover have "c \<noteq> CHR ''+'' \<and> c \<noteq> CHR ''-''" using hex_textD(3) [OF hex_text_digits, of c 64 v] c by simp
    ultimately have "parse_i128 16 ?s = checked_i128 (int v)"
      using val by (simp add: parse_i128_def del: digits_val.simps)
    moreover have "in_i128 (int v)" using True by (simp add: in_i128_def)
    ultimately show ?thesis using st ne True \<open>length _ \<le> 31\<close>
      by (simp add: from_hex_quantity_def Let_def checked_i128_def ok_or_def)
  next
    case False
    have "v < 16 ^ length (dropWhile (\<lambda>c. c = CHR ''0'') ?s)"
      using digits_val_bound [of 16 0 "dropWhile (\<lambda>c. c = CHR ''0'') ?s" v] val by (simp add: digits_val_zeros)
    then have "31 < length (dropWhile (\<lambda>c. c = CHR ''0'') ?s)"
      using False by (metis linorder_not_le nat_power_less_imp_less not_less zero_less_numeral order_le_less_trans)
    then show ?thesis using st ne False by (simp add: from_hex_quantity_def Let_def)
  qed
qed

lemma topic_address:
  assumes "a < 16 ^ 40"
  shows "address_from_topic (''0x'' @ hex_digits 64 a) = Inr (''0x'' @ hex_digits 40 a)"
proof -
  have p: "hex_digits 64 a = replicate 24 CHR ''0'' @ hex_digits 40 a"
    using hex_digits_pad [OF assms, of 24] by simp
  have "strip_0x (''0x'' @ hex_digits 64 a) = hex_digits 64 a"
    by (rule strip_hex(1) [OF hex_text_digits]) (metis hex_digits_length length_0_conv numeral_neq_zero)
  moreover have "list_all is_hexdigit (hex_digits 64 a)"
    using hex_textD(1) [OF hex_text_digits] by (auto simp: list_all_iff)
  moreover have "\<not> list_ex (\<lambda>c. c \<noteq> CHR ''0'') (take 24 (hex_digits 64 a))" "drop 24 (hex_digits 64 a) = hex_digits 40 a"
    unfolding p by (simp_all add: list_ex_iff del: hex_digits.simps)
  ultimately show ?thesis by (simp add: address_from_topic_def Let_def del: hex_digits.simps)
qed

lemma data_value:
  assumes "v < 16 ^ 64"
  shows "uint256_from_data (''0x'' @ hex_digits 64 v) = from_hex_quantity (hex_digits 64 v)"
proof -
  have ne: "hex_digits 64 v \<noteq> []" by (metis hex_digits_length length_0_conv numeral_neq_zero)
  moreover have "list_all is_hexdigit (hex_digits 64 v)"
    using hex_textD(1) [OF hex_text_digits] by (auto simp: list_all_iff)
  ultimately show ?thesis using strip_hex(1) [OF hex_text_digits ne]
    by (simp add: uint256_from_data_def Let_def del: hex_digits.simps)
qed

lemma be_bytes_length [simp]: "length (be_bytes n v) = n"
  by (induction n arbitrary: v) simp_all

lemma be_bytes_pad: "v < 256 ^ n \<Longrightarrow> be_bytes (k + n) v = replicate k 0 @ be_bytes n v"
proof (induction n arbitrary: v)
  case 0
  then show ?case by (induction k) (simp_all add: replicate_append_same)
next
  case (Suc n)
  then have "v div 256 < 256 ^ n" by (simp add: less_mult_imp_div_less mult.commute)
  with Suc.IH show ?case by simp
qed

lemma hex_decode_append:
  "even (length xs) \<Longrightarrow> hex_decode (xs @ ys) =
    (case (hex_decode xs, hex_decode ys) of (Some a, Some b) \<Rightarrow> Some (a @ b) | _ \<Rightarrow> None)"
  by (induction xs rule: hex_decode.induct) (auto split: option.splits)

lemma hex_decode_digits: "hex_decode (hex_digits (2 * n) v) = Some (be_bytes n v)"
proof (induction n arbitrary: v)
  case (Suc n)
  have e: "hex_digits (2 * Suc n) v = hex_digits (2 * n) (v div 256) @ [hex_char (v div 16 mod 16), hex_char (v mod 16)]"
    by (simp add: div_mult2_eq [symmetric])
  have "16 * (v div 16 mod 16) + v mod 16 = v mod 256"
    using mod_mult2_eq [of v 16 16] by simp
  then show ?case unfolding e
    using Suc [of "v div 256"] hex_char_facts(1) [of "v mod 16"] hex_char_facts(1) [of "v div 16 mod 16"]
    by (simp add: hex_decode_append del: hex_digits.simps)
qed simp

lemma transfer_call:
  assumes "b < 2 ^ 160" "0 < amount" "in_i128 amount"
  shows "encode_transfer_call hex_error (''0x'' @ hex_digits 40 b) amount =
      Inr (TRANSFER_SELECTOR @ be_bytes 32 b @ be_bytes 32 (nat amount))"
proof -
  have ne: "hex_digits 40 b \<noteq> []" by (metis hex_digits_length length_0_conv numeral_neq_zero)
  have "to_ascii_lowercase (''0x'' @ hex_digits 40 b) = ''0x'' @ hex_digits 40 b"
    using hex_textD(4) [OF hex_text_digits] by (simp add: to_ascii_lowercase_def lower_char_def is_upper_def map_idI)
  then have "trim_start_matches2 CHR ''0'' CHR ''x'' (storage_key (''0x'' @ hex_digits 40 b)) = hex_digits 40 b"
    using strip_hex(3) [OF hex_text_digits ne] by (simp add: storage_key_def)
  moreover have "hex_decode (hex_digits 40 b) = Some (be_bytes 20 b)" using hex_decode_digits [of 20 b] by simp
  moreover have "be_bytes 32 b = replicate 12 0 @ be_bytes 20 b" using be_bytes_pad [of b 20 12] assms(1) by simp
  moreover have "be_bytes 32 (nat amount) = replicate 16 0 @ be_bytes 16 (nat amount)"
    using be_bytes_pad [of "nat amount" 16 16] assms(2,3) by (simp add: in_i128_def)
  ultimately show ?thesis
    using assms(2) by (simp add: encode_transfer_call_def is_positive_def Let_def del: hex_digits.simps be_bytes.simps append.simps)
qed

text \<open>
  C33: The ERC-20 codec. A transfer event whose topics hold two addresses and whose data holds a 256-bit
  value decodes to exactly those when the value has at most 124 bits, and is refused, never
  truncated, when it is wider. The call data for a transfer is the selector, the address and the
  amount, each as a big-endian word, for every amount the program can hold. Quantities of 64 bits
  survive printing and parsing.
\<close>

theorem erc20_codec:
  assumes "a < 2 ^ 160" "b < 2 ^ 160" "v < 2 ^ 256" "0 < amount" "in_i128 amount" "n \<le> u64_max"
  shows "decode_transfer_log [TRANSFER_TOPIC, ''0x'' @ hex_digits 64 a, ''0x'' @ hex_digits 64 b] (''0x'' @ hex_digits 64 v) =
      (if v < 2 ^ 124 then Inr (Some \<lparr>et_from = ''0x'' @ hex_digits 40 a, et_to = ''0x'' @ hex_digits 40 b, et_value = int v\<rparr>)
       else Inl (AmountExceedsRepresentableRange (hex_digits 64 v))) \<and>
    encode_transfer_call hex_error (''0x'' @ hex_digits 40 b) amount =
      Inr (TRANSFER_SELECTOR @ be_bytes 32 b @ be_bytes 32 (nat amount)) \<and>
    is_transfer_calldata (TRANSFER_SELECTOR @ be_bytes 32 b @ be_bytes 32 (nat amount)) \<and>
    hex_to_u64 (u64_to_hex n) = Inr n"
proof -
  have ab: "a < 16 ^ 40" "b < 16 ^ 40" "v < 16 ^ 64" using assms(1-3) by simp_all
  have "decode_transfer_log [TRANSFER_TOPIC, ''0x'' @ hex_digits 64 a, ''0x'' @ hex_digits 64 b] (''0x'' @ hex_digits 64 v) =
      (if v < 2 ^ 124 then Inr (Some \<lparr>et_from = ''0x'' @ hex_digits 40 a, et_to = ''0x'' @ hex_digits 40 b, et_value = int v\<rparr>)
       else Inl (AmountExceedsRepresentableRange (hex_digits 64 v)))"
    using topic_address [OF ab(1)] topic_address [OF ab(2)] data_value [OF ab(3)] from_hex_word [OF ab(3)]
    by (simp add: decode_transfer_log_def eq_ignore_ascii_case_def del: hex_digits.simps append.simps)
  moreover have "is_transfer_calldata (TRANSFER_SELECTOR @ be_bytes 32 b @ be_bytes 32 (nat amount))"
    by (simp add: is_transfer_calldata_def TRANSFER_SELECTOR_def)
  ultimately show ?thesis using transfer_call [OF assms(2,4,5)] hex_to_u64_to_hex [OF assms(6)] by blast
qed

text \<open>One whole unit of a token with 18 decimals, and the largest value.\<close>

theorem erc20_codec_witness:
  "decode_transfer_log [TRANSFER_TOPIC, ''0x'' @ hex_digits 64 5, ''0x'' @ hex_digits 64 6] (''0x'' @ hex_digits 64 (10 ^ 18)) =
     Inr (Some \<lparr>et_from = ''0x'' @ hex_digits 40 5, et_to = ''0x'' @ hex_digits 40 6, et_value = 10 ^ 18\<rparr>) \<and>
   decode_transfer_log [TRANSFER_TOPIC, ''0x'' @ hex_digits 64 5, ''0x'' @ hex_digits 64 6] (''0x'' @ hex_digits 64 (2 ^ 256 - 1)) =
     Inl (AmountExceedsRepresentableRange (hex_digits 64 (2 ^ 256 - 1)))"
  using erc20_codec [of 5 6 "10 ^ 18" 1 0] erc20_codec [of 5 6 "2 ^ 256 - 1" 1 0]
  by (simp add: in_i128_def del: hex_digits.simps append.simps)

end
