(* ===== verification/Evm_Client.thy ===== *)
theory Evm_Client
  imports Rpc_Gateway Evm_Abi
begin

text \<open>
  The typed client of an EVM node (\<open>crates/chains-evm/src/client.rs\<close>). The client is generic in what the
  gateway answers: \<open>cl_ask\<close> gives the raw result of a call by its idempotency, method and parameters,
  as \<open>call_loop\<close> returns it, and \<open>cl_serde_error\<close> the text with which the deserialiser refuses it. The
  wire types are decoded from JSON here: an absent or null field is \<open>None\<close>, a field of another type an
  error. What a client function returns is well typed whatever the node sent: heights and counters
  fit their width, hashes are canonical.
\<close>

section \<open>Results\<close>

definition res_bind :: "'a res \<Rightarrow> ('a \<Rightarrow> 'b res) \<Rightarrow> 'b res" where
  "res_bind r f = (case r of Inl e \<Rightarrow> Inl e | Inr a \<Rightarrow> f a)"

fun res_map :: "('a \<Rightarrow> 'b res) \<Rightarrow> 'a list \<Rightarrow> 'b list res" where
  "res_map f [] = Inr []"
| "res_map f (x # xs) = res_bind (f x) (\<lambda>y. res_bind (res_map f xs) (\<lambda>ys. Inr (y # ys)))"

definition res_option :: "('a \<Rightarrow> 'b res) \<Rightarrow> 'a option \<Rightarrow> 'b option res" where
  "res_option f x = (case x of None \<Rightarrow> Inr None | Some a \<Rightarrow> res_bind (f a) (\<lambda>b. Inr (Some b)))"

named_theorems res_simps

lemma res_bind_Inr [res_simps]: "res_bind r f = Inr b \<longleftrightarrow> (\<exists>a. r = Inr a \<and> f a = Inr b)"
  by (cases r) (simp_all add: res_bind_def)

lemma res_bind_app [simp]: "res_bind (Inr a) f = f a" "res_bind (Inl e) f = Inl e"
  by (simp_all add: res_bind_def)

declare ok_or_Inr [res_simps]

lemma res_option_Inr [res_simps]:
  "res_option f x = Inr y \<longleftrightarrow> (case x of None \<Rightarrow> y = None | Some a \<Rightarrow> \<exists>b. f a = Inr b \<and> y = Some b)"
  by (auto simp: res_option_def res_bind_Inr split: option.splits)

lemma res_map_Inr: "res_map f xs = Inr ys \<Longrightarrow> list_all2 (\<lambda>x y. f x = Inr y) xs ys"
  by (induction xs arbitrary: ys) (auto simp: res_simps)

section \<open>Typed values\<close>

record evm_block_header =
  bh_number :: nat
  bh_hash :: hash32
  bh_parent_hash :: hash32
  bh_timestamp :: nat
  bh_tx_count :: nat

record evm_log =
  lg_address :: string
  lg_topics :: "string list"
  lg_data :: string
  lg_block_number :: nat
  lg_block_hash :: hash32
  lg_tx_hash :: hash32
  lg_log_index :: int
  lg_removed :: bool

record evm_receipt =
  rc_tx_hash :: hash32
  rc_block_number :: nat
  rc_block_hash :: hash32
  rc_success :: bool
  rc_gas_used :: nat
  rc_effective_gas_price :: amount

text \<open>\<open>u32::try_from(n).unwrap_or(u32::MAX)\<close>, with an equation for evaluation in binary integers.\<close>

definition clamp_u32 :: "nat \<Rightarrow> nat" where
  "clamp_u32 n = (if n \<le> u32_max then n else u32_max)"

lemma clamp_u32_code [code]: "clamp_u32 n = (if int n \<le> 4294967295 then n else nat 4294967295)"
  by (simp add: clamp_u32_def)

definition fee_paid :: "evm_receipt \<Rightarrow> amount res" where
  "fee_paid r = checked_mul_u32 (rc_effective_gas_price r) (clamp_u32 (rc_gas_used r))"

record fee_estimate =
  fe_max_fee_per_gas :: amount
  fe_max_priority_fee_per_gas :: amount

record evm_client =
  cl_chain :: string
  cl_ask :: "idempotency \<Rightarrow> string \<Rightarrow> json \<Rightarrow> json res"
  cl_serde_error :: "json \<Rightarrow> string"
  cl_numeric_chain_id :: nat
  cl_fee_bump_pct :: nat

section \<open>Wire types\<close>

record raw_block =
  rb_number :: "string option"
  rb_hash :: "string option"
  rb_parent_hash :: "string option"
  rb_timestamp :: "string option"
  rb_transactions :: "json list"

record raw_log =
  rl_address :: string
  rl_topics :: "string list"
  rl_data :: string
  rl_block_number :: "string option"
  rl_block_hash :: "string option"
  rl_transaction_hash :: "string option"
  rl_log_index :: "string option"
  rl_removed :: bool

record raw_receipt =
  rr_transaction_hash :: "string option"
  rr_block_number :: "string option"
  rr_block_hash :: "string option"
  rr_status :: "string option"
  rr_gas_used :: "string option"
  rr_effective_gas_price :: "string option"

record raw_fee_history =
  rf_base_fee_per_gas :: "string list"
  rf_reward :: "string list list"

text \<open>Deserialisation: \<open>None\<close> is a type error.\<close>

fun de_option :: "(json \<Rightarrow> 'a option) \<Rightarrow> json \<Rightarrow> 'a option option" where
  "de_option f JNull = Some None"
| "de_option f j = map_option Some (f j)"

fun de_list :: "(json \<Rightarrow> 'a option) \<Rightarrow> json \<Rightarrow> 'a list option" where
  "de_list f (JArray js) = those (map f js)"
| "de_list f _ = None"

fun de_bool :: "json \<Rightarrow> bool option" where
  "de_bool (JBool b) = Some b"
| "de_bool _ = None"

definition optional :: "string \<Rightarrow> json \<Rightarrow> string option option" where
  "optional k j = (case json_get k j of None \<Rightarrow> Some None | Some v \<Rightarrow> de_option json_as_str v)"

definition required :: "string \<Rightarrow> (json \<Rightarrow> 'a option) \<Rightarrow> json \<Rightarrow> 'a option" where
  "required k f j = Option.bind (json_get k j) f"

definition defaulted :: "string \<Rightarrow> 'a \<Rightarrow> (json \<Rightarrow> 'a option) \<Rightarrow> json \<Rightarrow> 'a option" where
  "defaulted k d f j = (case json_get k j of None \<Rightarrow> Some d | Some v \<Rightarrow> f v)"

fun is_object :: "json \<Rightarrow> bool" where
  "is_object (JObject _) = True"
| "is_object _ = False"

definition de_raw_block :: "json \<Rightarrow> raw_block option" where
  "de_raw_block j =
     (case (optional ''number'' j, optional ''hash'' j, optional ''parentHash'' j, optional ''timestamp'' j,
            defaulted ''transactions'' [] (de_list Some) j) of
        (Some n, Some h, Some p, Some t, Some txs) \<Rightarrow>
          if is_object j then Some \<lparr>rb_number = n, rb_hash = h, rb_parent_hash = p, rb_timestamp = t, rb_transactions = txs\<rparr> else None
      | _ \<Rightarrow> None)"

definition de_raw_log :: "json \<Rightarrow> raw_log option" where
  "de_raw_log j =
     (case (required ''address'' json_as_str j, required ''topics'' (de_list json_as_str) j, required ''data'' json_as_str j,
            optional ''blockNumber'' j, optional ''blockHash'' j, optional ''transactionHash'' j, optional ''logIndex'' j,
            defaulted ''removed'' False de_bool j) of
        (Some a, Some ts, Some d, Some bn, Some bh, Some th, Some li, Some r) \<Rightarrow>
          Some \<lparr>rl_address = a, rl_topics = ts, rl_data = d, rl_block_number = bn, rl_block_hash = bh,
                rl_transaction_hash = th, rl_log_index = li, rl_removed = r\<rparr>
      | _ \<Rightarrow> None)"

definition de_raw_receipt :: "json \<Rightarrow> raw_receipt option" where
  "de_raw_receipt j =
     (case (optional ''transactionHash'' j, optional ''blockNumber'' j, optional ''blockHash'' j, optional ''status'' j,
            optional ''gasUsed'' j, optional ''effectiveGasPrice'' j) of
        (Some th, Some bn, Some bh, Some st, Some g, Some p) \<Rightarrow>
          if is_object j then Some \<lparr>rr_transaction_hash = th, rr_block_number = bn, rr_block_hash = bh, rr_status = st, rr_gas_used = g,
            rr_effective_gas_price = p\<rparr> else None
      | _ \<Rightarrow> None)"

definition de_raw_fee_history :: "json \<Rightarrow> raw_fee_history option" where
  "de_raw_fee_history j =
     (case (required ''baseFeePerGas'' (de_list json_as_str) j, defaulted ''reward'' [] (de_list (de_list json_as_str)) j) of
        (Some b, Some r) \<Rightarrow> Some \<lparr>rf_base_fee_per_gas = b, rf_reward = r\<rparr>
      | _ \<Rightarrow> None)"

section \<open>The client\<close>

definition client_new :: "string \<Rightarrow> (idempotency \<Rightarrow> string \<Rightarrow> json \<Rightarrow> json res) \<Rightarrow> (json \<Rightarrow> string) \<Rightarrow> nat \<Rightarrow> nat \<Rightarrow> evm_client" where
  "client_new chain ask serde_error numeric_chain_id fee_bump_pct =
     \<lparr>cl_chain = chain, cl_ask = ask, cl_serde_error = serde_error, cl_numeric_chain_id = numeric_chain_id,
      cl_fee_bump_pct = max fee_bump_pct 100\<rparr>"

definition client_call :: "evm_client \<Rightarrow> idempotency \<Rightarrow> (json \<Rightarrow> 'a option) \<Rightarrow> string \<Rightarrow> json \<Rightarrow> 'a res" where
  "client_call c idem de rpc_method params =
     res_bind (cl_ask c idem rpc_method params) (\<lambda>raw.
       ok_or (Rpc (cl_chain c @ '': could not decode '' @ rpc_method @ '' response: '' @ cl_serde_error c raw)) (de raw))"

definition block_number :: "evm_client \<Rightarrow> nat res" where
  "block_number c = res_bind (client_call c Safe json_as_str ''eth_blockNumber'' (JArray [])) hex_to_u64"

definition verify_chain_id :: "evm_client \<Rightarrow> unit res" where
  "verify_chain_id c =
     res_bind (client_call c Safe json_as_str ''eth_chainId'' (JArray [])) (\<lambda>raw.
     res_bind (hex_to_u64 raw) (\<lambda>reported.
       if reported \<noteq> cl_numeric_chain_id c
       then Inl (Config (''chain `'' @ cl_chain c @ ''` is configured as chain id '' @ show_nat (cl_numeric_chain_id c) @
              '' but the RPC reports '' @ show_nat reported))
       else Inr ()))"

definition header_from_raw :: "raw_block \<Rightarrow> evm_block_header res" where
  "header_from_raw raw =
     res_bind (ok_or (Rpc ''block has no number (pending block?)'') (rb_number raw)) (\<lambda>number.
     res_bind (ok_or (Rpc ''block has no hash (pending block?)'') (rb_hash raw)) (\<lambda>hash.
     res_bind (ok_or (Rpc ''block has no parentHash'') (rb_parent_hash raw)) (\<lambda>parent_hash.
     res_bind (hex_to_u64 number) (\<lambda>n.
     res_bind (hash32_parse hash) (\<lambda>h.
     res_bind (hash32_parse parent_hash) (\<lambda>p.
     res_bind (res_option hex_to_u64 (rb_timestamp raw)) (\<lambda>t.
     Inr \<lparr>bh_number = n, bh_hash = h, bh_parent_hash = p, bh_timestamp = (case t of Some x \<Rightarrow> x | None \<Rightarrow> 0),
          bh_tx_count = clamp_u32 (length (rb_transactions raw))\<rparr>)))))))"

definition header_by_number :: "evm_client \<Rightarrow> nat \<Rightarrow> evm_block_header option res" where
  "header_by_number c number =
     res_bind (client_call c Safe (de_option de_raw_block) ''eth_getBlockByNumber'' (JArray [JText (u64_to_hex number), JBool False]))
       (res_option header_from_raw)"

definition client_header_by_hash :: "evm_client \<Rightarrow> hash32 \<Rightarrow> evm_block_header option res" where
  "client_header_by_hash c hash =
     res_bind (client_call c Safe (de_option de_raw_block) ''eth_getBlockByHash'' (JArray [JText hash, JBool False]))
       (res_option header_from_raw)"

definition latest_header :: "evm_client \<Rightarrow> evm_block_header res" where
  "latest_header c =
     res_bind (client_call c Safe (de_option de_raw_block) ''eth_getBlockByNumber'' (JArray [JText ''latest'', JBool False])) (\<lambda>raw.
     res_bind (ok_or (Rpc ''node returned null for `latest` block'') raw) header_from_raw)"

text \<open>\<open>i64::try_from\<close> of an unsigned value.\<close>

definition fits_i64 :: "nat \<Rightarrow> bool" where
  "fits_i64 n \<longleftrightarrow> n < 2 ^ 63"

lemma fits_i64_code [code]: "fits_i64 n \<longleftrightarrow> int n < 9223372036854775808"
  by (simp add: fits_i64_def)

definition log_from_raw :: "raw_log \<Rightarrow> evm_log res" where
  "log_from_raw l =
     res_bind (ok_or (Rpc ''log has no blockNumber'') (rl_block_number l)) (\<lambda>bn.
     res_bind (hex_to_u64 bn) (\<lambda>n.
     res_bind (ok_or (Rpc ''log has no blockHash'') (rl_block_hash l)) (\<lambda>bh.
     res_bind (hash32_parse bh) (\<lambda>h.
     res_bind (ok_or (Rpc ''log has no transactionHash'') (rl_transaction_hash l)) (\<lambda>th.
     res_bind (hash32_parse th) (\<lambda>t.
     res_bind (hex_to_u64 (case rl_log_index l of Some i \<Rightarrow> i | None \<Rightarrow> ''0x0'')) (\<lambda>i.
     if fits_i64 i
     then Inr \<lparr>lg_address = to_ascii_lowercase (rl_address l), lg_topics = rl_topics l, lg_data = rl_data l, lg_block_number = n,
               lg_block_hash = h, lg_tx_hash = t, lg_log_index = int i, lg_removed = rl_removed l\<rparr>
     else Inl (Rpc ''implausible logIndex''))))))))"

definition transfer_logs :: "evm_client \<Rightarrow> nat \<Rightarrow> nat \<Rightarrow> string list \<Rightarrow> string \<Rightarrow> evm_log list res" where
  "transfer_logs c from_block to_block contracts topic0 =
     (if to_block < from_block
      then Inl (Validation (''invalid block range '' @ show_nat from_block @ ''..'' @ show_nat to_block))
      else if contracts = [] then Inr []
      else res_bind (client_call c Safe (de_list de_raw_log) ''eth_getLogs'' (JArray [JObject [
               (''fromBlock'', JText (u64_to_hex from_block)), (''toBlock'', JText (u64_to_hex to_block)),
               (''address'', JArray (map JText contracts)), (''topics'', JArray [JText topic0])]]))
             (res_map log_from_raw))"

definition receipt_from_raw :: "hash32 \<Rightarrow> raw_receipt \<Rightarrow> string \<Rightarrow> string \<Rightarrow> evm_receipt res" where
  "receipt_from_raw tx_hash raw bn bh =
     res_bind (res_option hash32_parse (rr_transaction_hash raw)) (\<lambda>th.
     res_bind (hex_to_u64 bn) (\<lambda>n.
     res_bind (hash32_parse bh) (\<lambda>h.
     res_bind (res_option hex_to_u64 (rr_status raw)) (\<lambda>st.
     res_bind (res_option hex_to_u64 (rr_gas_used raw)) (\<lambda>g.
     res_bind (res_option from_hex_quantity (rr_effective_gas_price raw)) (\<lambda>p.
     Inr \<lparr>rc_tx_hash = (case th of Some t \<Rightarrow> t | None \<Rightarrow> tx_hash), rc_block_number = n, rc_block_hash = h,
          rc_success = ((case st of Some x \<Rightarrow> x | None \<Rightarrow> 0) = 1), rc_gas_used = (case g of Some x \<Rightarrow> x | None \<Rightarrow> 0),
          rc_effective_gas_price = (case p of Some x \<Rightarrow> x | None \<Rightarrow> 0)\<rparr>))))))"

definition receipt :: "evm_client \<Rightarrow> hash32 \<Rightarrow> evm_receipt option res" where
  "receipt c tx_hash =
     res_bind (client_call c Safe (de_option de_raw_receipt) ''eth_getTransactionReceipt'' (JArray [JText tx_hash])) (\<lambda>r.
     case r of
       None \<Rightarrow> Inr None
     | Some raw \<Rightarrow>
         (case (rr_block_number raw, rr_block_hash raw) of
            (Some bn, Some bh) \<Rightarrow> res_bind (receipt_from_raw tx_hash raw bn bh) (\<lambda>x. Inr (Some x))
          | _ \<Rightarrow> Inr None))"

definition pending_nonce :: "evm_client \<Rightarrow> address \<Rightarrow> nat res" where
  "pending_nonce c a =
     res_bind (client_call c Safe json_as_str ''eth_getTransactionCount'' (JArray [JText a, JText ''pending''])) hex_to_u64"

definition client_native_balance :: "evm_client \<Rightarrow> address \<Rightarrow> amount res" where
  "client_native_balance c a =
     res_bind (client_call c Safe json_as_str ''eth_getBalance'' (JArray [JText a, JText ''latest''])) from_hex_quantity"

text \<open>Integer division of Rust: towards zero.\<close>

definition trunc_div :: "int \<Rightarrow> int \<Rightarrow> int" where
  "trunc_div a b = sgn a * sgn b * (\<bar>a\<bar> div \<bar>b\<bar>)"

definition estimate_fees :: "evm_client \<Rightarrow> fee_estimate res" where
  "estimate_fees c =
     res_bind (client_call c Safe de_raw_fee_history ''eth_feeHistory''
                (JArray [JText (u64_to_hex 5), JText ''latest'', JArray [JInt 50]])) (\<lambda>history.
     res_bind (if rf_base_fee_per_gas history = [] then Inr 0 else from_hex_quantity (last (rf_base_fee_per_gas history))) (\<lambda>base_fee.
     res_bind (res_map from_hex_quantity (map hd (filter (\<lambda>r. r \<noteq> []) (rf_reward history)))) (\<lambda>rewards.
     let priority = max (if rewards = [] then 0 else Max (set rewards)) 1000000 in
     res_bind (ok_or AmountOverflow (map_option (\<lambda>v. trunc_div v 100) (checked_i128 (base_fee * int (cl_fee_bump_pct c))))) (\<lambda>bumped.
     res_bind (checked_add bumped priority) (\<lambda>max_fee.
     Inr \<lparr>fe_max_fee_per_gas = max_fee, fe_max_priority_fee_per_gas = priority\<rparr>)))))"

definition send_raw_transaction :: "evm_client \<Rightarrow> string \<Rightarrow> hash32 res" where
  "send_raw_transaction c raw_hex =
     res_bind (client_call c UnsafeOnTimeout json_as_str ''eth_sendRawTransaction'' (JArray [JText raw_hex])) hash32_parse"

definition transaction_exists :: "evm_client \<Rightarrow> hash32 \<Rightarrow> bool res" where
  "transaction_exists c tx_hash =
     res_bind (client_call c Safe Some ''eth_getTransactionByHash'' (JArray [JText tx_hash])) (\<lambda>raw. Inr (raw \<noteq> JNull))"


section \<open>Well-typed results\<close>

definition canonical_hash :: "hash32 \<Rightarrow> bool" where
  "canonical_hash h \<longleftrightarrow> length h = 66 \<and> hash32_parse h = Inr h \<and> to_ascii_lowercase h = h"

definition is_u64 :: "nat \<Rightarrow> bool" where
  "is_u64 n \<longleftrightarrow> n \<le> u64_max"

definition is_u32 :: "nat \<Rightarrow> bool" where
  "is_u32 n \<longleftrightarrow> n \<le> u32_max"

lemma hash32_parse_canonical: "hash32_parse s = Inr h \<Longrightarrow> canonical_hash h"
  using hash32_canonical by (simp add: canonical_hash_def)

lemma hex_to_u64_bound: "hex_to_u64 s = Inr n \<Longrightarrow> is_u64 n"
  by (auto simp: is_u64_def hex_to_u64_def parse_hex_u64_def Let_def split: if_splits list.splits option.splits)

lemma from_hex_quantity_range: "from_hex_quantity s = Inr v \<Longrightarrow> in_i128 v"
  by (auto simp: from_hex_quantity_def Let_def ok_or_Inr in_i128_def [of 0] dest: parse_i128_range split: if_splits)

lemma res_option_default:
  "res_option f x = Inr y \<Longrightarrow> (\<And>a b. f a = Inr b \<Longrightarrow> P b) \<Longrightarrow> P d \<Longrightarrow> P (case y of Some v \<Rightarrow> v | None \<Rightarrow> d)"
  by (auto simp: res_option_Inr split: option.splits)

lemmas typed_results = hash32_parse_canonical hex_to_u64_bound from_hex_quantity_range

definition header_ok :: "evm_block_header \<Rightarrow> bool" where
  "header_ok h \<longleftrightarrow> is_u64 (bh_number h) \<and> canonical_hash (bh_hash h) \<and> canonical_hash (bh_parent_hash h) \<and>
     is_u64 (bh_timestamp h) \<and> is_u32 (bh_tx_count h)"

definition log_ok :: "evm_log \<Rightarrow> bool" where
  "log_ok l \<longleftrightarrow> is_u64 (lg_block_number l) \<and> canonical_hash (lg_block_hash l) \<and> canonical_hash (lg_tx_hash l) \<and>
     0 \<le> lg_log_index l \<and> lg_log_index l < 2 ^ 63 \<and> to_ascii_lowercase (lg_address l) = lg_address l"

definition receipt_ok :: "evm_receipt \<Rightarrow> bool" where
  "receipt_ok r \<longleftrightarrow> is_u64 (rc_block_number r) \<and> canonical_hash (rc_block_hash r) \<and> is_u64 (rc_gas_used r) \<and>
     in_i128 (rc_effective_gas_price r)"

lemma header_from_raw_ok:
  assumes "header_from_raw raw = Inr h"
  shows "header_ok h"
proof -
  obtain a b c n hs p t where r: "hex_to_u64 a = Inr n" "hash32_parse b = Inr hs" "hash32_parse c = Inr p"
    "res_option hex_to_u64 (rb_timestamp raw) = Inr t"
    and h: "h = \<lparr>bh_number = n, bh_hash = hs, bh_parent_hash = p, bh_timestamp = (case t of Some x \<Rightarrow> x | None \<Rightarrow> 0),
      bh_tx_count = clamp_u32 (length (rb_transactions raw))\<rparr>"
    using assms unfolding header_from_raw_def res_bind_Inr by blast
  have "is_u64 (case t of Some x \<Rightarrow> x | None \<Rightarrow> 0)"
    by (rule res_option_default [OF r(4)]) (auto simp: is_u64_def [of 0] dest: typed_results)
  then show ?thesis using r(1-3) typed_results by (simp add: h header_ok_def is_u32_def clamp_u32_def)
qed

lemma header_by_number_ok: "header_by_number c n = Inr (Some h) \<Longrightarrow> header_ok h"
  by (auto simp: header_by_number_def res_bind_Inr res_option_Inr dest: header_from_raw_ok split: option.splits)

lemma client_header_by_hash_ok: "client_header_by_hash c k = Inr (Some h) \<Longrightarrow> header_ok h"
  by (auto simp: client_header_by_hash_def res_bind_Inr res_option_Inr dest: header_from_raw_ok split: option.splits)

lemma latest_header_ok: "latest_header c = Inr h \<Longrightarrow> header_ok h"
  by (auto simp: latest_header_def res_bind_Inr dest: header_from_raw_ok)

lemma log_from_raw_ok: "log_from_raw l = Inr g \<Longrightarrow> log_ok g"
  by (auto simp: log_from_raw_def log_ok_def fits_i64_def res_simps dest: typed_results split: if_splits)

lemma transfer_logs_ok:
  assumes "transfer_logs c lo hi cs t = Inr gs" "g \<in> set gs"
  shows "log_ok g"
proof -
  obtain raws where "res_map log_from_raw raws = Inr gs"
    using assms by (auto simp: transfer_logs_def res_bind_Inr split: if_splits)
  from res_map_Inr [OF this] obtain l where "log_from_raw l = Inr g"
    using assms(2) by (auto simp: list_all2_conv_all_nth in_set_conv_nth)
  then show ?thesis by (rule log_from_raw_ok)
qed

lemma receipt_from_raw_ok:
  assumes "receipt_from_raw k raw bn bh = Inr r"
  shows "receipt_ok r"
proof -
  obtain th n h st g p where r: "hex_to_u64 bn = Inr n" "hash32_parse bh = Inr h"
    "res_option hex_to_u64 (rr_gas_used raw) = Inr g" "res_option from_hex_quantity (rr_effective_gas_price raw) = Inr p"
    and e: "r = \<lparr>rc_tx_hash = (case th of Some t \<Rightarrow> t | None \<Rightarrow> k), rc_block_number = n, rc_block_hash = h,
          rc_success = ((case st of Some x \<Rightarrow> x | None \<Rightarrow> 0) = (1::nat)), rc_gas_used = (case g of Some x \<Rightarrow> x | None \<Rightarrow> 0),
          rc_effective_gas_price = (case p of Some x \<Rightarrow> x | None \<Rightarrow> 0)\<rparr>"
    using assms unfolding receipt_from_raw_def res_bind_Inr by blast
  have "is_u64 (case g of Some x \<Rightarrow> x | None \<Rightarrow> 0)"
    by (rule res_option_default [OF r(3)]) (auto simp: is_u64_def [of 0] dest: typed_results)
  moreover have "in_i128 (case p of Some x \<Rightarrow> x | None \<Rightarrow> 0)"
    by (rule res_option_default [OF r(4)]) (auto simp: in_i128_def [of 0] dest: typed_results)
  ultimately show ?thesis using r(1,2) typed_results by (simp add: e receipt_ok_def)
qed

lemma receipt_well_typed: "receipt c k = Inr (Some r) \<Longrightarrow> receipt_ok r"
  by (auto simp: receipt_def res_bind_Inr dest: receipt_from_raw_ok split: option.splits)

end
