(* ===== verification/Evm_Adapter.thy ===== *)
theory Evm_Adapter
  imports Evm_Client Deposit_Engine Signing
begin

text \<open>
  The EVM adapter (\<open>crates/chains-evm/src/adapter.rs\<close>): headers, the scan for token transfers, the
  transaction of a withdrawal, broadcasting and the status of a transaction. \<open>evm_chain_adapter\<close> gives
  the withdrawal pipeline the adapter it calls, \<open>scan\<close> and \<open>header_at\<close> are what the watcher calls.
\<close>

section \<open>The adapter\<close>

record scan_request =
  sq_from_height :: nat
  sq_to_height :: nat
  sq_tracked_addresses :: "string set"
  sq_assets :: "tracked_asset list"

record evm_adapter =
  ea_chain_id :: string
  ea_client :: evm_client
  ea_gas_limit :: nat

definition adapter_new ::
  "chain_config \<Rightarrow> (idempotency \<Rightarrow> string \<Rightarrow> json \<Rightarrow> json res) \<Rightarrow> (json \<Rightarrow> string) \<Rightarrow> evm_adapter res" where
  "adapter_new cfg ask serde_error =
     res_bind (ok_or (Config (''chain '' @ ch_id cfg @ '' has no numeric_chain_id'')) (ch_numeric_chain_id cfg)) (\<lambda>numeric.
     Inr \<lparr>ea_chain_id = ch_id cfg, ea_client = client_new (ch_id cfg) ask serde_error numeric (ch_fee_bump_pct cfg),
          ea_gas_limit = ch_transfer_gas_limit cfg\<rparr>)"

text \<open>One log: what the scan makes of it, if anything. An undecodable transfer is logged and left out.\<close>

definition observe_log :: "string \<Rightarrow> string list \<Rightarrow> string set \<Rightarrow> evm_log \<Rightarrow> observed_transfer option" where
  "observe_log chain contracts tracked l =
     (if lg_removed l \<or> lg_address l \<notin> set contracts then None
      else case decode_transfer_log (lg_topics l) (lg_data l) of
        Inr (Some t) \<Rightarrow>
          if storage_key (et_to t) \<notin> tracked then None
          else Some \<lparr>ot_chain = chain, ot_tx_hash = lg_tx_hash l, ot_log_index = lg_log_index l,
                 ot_block_number = lg_block_number l, ot_block_hash = lg_block_hash l, ot_from = et_from t,
                 ot_to = et_to t, ot_amount = et_value t, ot_contract = Some (lg_address l)\<rparr>
      | _ \<Rightarrow> None)"

definition scan_erc20 :: "evm_adapter \<Rightarrow> scan_request \<Rightarrow> string list \<Rightarrow> observed_transfer list res" where
  "scan_erc20 a req contracts =
     (if contracts = [] then Inr []
      else res_bind (transfer_logs (ea_client a) (sq_from_height req) (sq_to_height req) contracts TRANSFER_TOPIC) (\<lambda>logs.
           Inr (List.map_filter (observe_log (ea_chain_id a) contracts (sq_tracked_addresses req)) logs)))"

definition block_ref_of :: "evm_block_header \<Rightarrow> block_ref" where
  "block_ref_of h = \<lparr>br_height = bh_number h, br_hash = bh_hash h, br_parent = bh_parent_hash h, br_tx_count = bh_tx_count h\<rparr>"

definition verify_identity :: "evm_adapter \<Rightarrow> unit res" where
  "verify_identity a = verify_chain_id (ea_client a)"

definition adapter_head :: "evm_adapter \<Rightarrow> block_ref res" where
  "adapter_head a = res_bind (latest_header (ea_client a)) (\<lambda>h. Inr (block_ref_of h))"

definition adapter_header_at :: "evm_adapter \<Rightarrow> nat \<Rightarrow> block_ref option res" where
  "adapter_header_at a height = res_bind (header_by_number (ea_client a) height) (\<lambda>h. Inr (map_option block_ref_of h))"

definition adapter_header_by_hash :: "evm_adapter \<Rightarrow> hash32 \<Rightarrow> block_ref option res" where
  "adapter_header_by_hash a hash = res_bind (client_header_by_hash (ea_client a) hash) (\<lambda>h. Inr (map_option block_ref_of h))"

text \<open>The headers of \<open>n\<close> heights from \<open>height\<close> on, up to the first the node does not have.\<close>

fun fetch_headers :: "evm_adapter \<Rightarrow> nat \<Rightarrow> nat \<Rightarrow> block_ref list res" where
  "fetch_headers a height 0 = Inr []"
| "fetch_headers a height (Suc n) = res_bind (adapter_header_at a height) (\<lambda>h. case h of
     None \<Rightarrow> Inr []
   | Some b \<Rightarrow> res_bind (fetch_headers a (Suc height) n) (\<lambda>bs. Inr (b # bs)))"

text \<open>
  The contracts to ask for: those of the assets with deposits enabled, each once. They are the keys of
  a hash map, whose order the node's filter does not depend on; here they are in the order of the assets.
\<close>

definition scan_contracts :: "tracked_asset list \<Rightarrow> string list" where
  "scan_contracts tas = remdups (map storage_key (List.map_filter ta_contract (filter ta_deposits_enabled tas)))"

definition adapter_scan :: "evm_adapter \<Rightarrow> scan_request \<Rightarrow> scan_result res" where
  "adapter_scan a req =
     (if sq_to_height req < sq_from_height req
      then Inl (Validation (''invalid scan range '' @ show_nat (sq_from_height req) @ ''..'' @ show_nat (sq_to_height req)))
      else res_bind (fetch_headers a (sq_from_height req) (sq_to_height req - sq_from_height req + 1)) (\<lambda>headers.
           if headers = [] then Inr \<lparr>sc_headers = [], sc_transfers = []\<rparr>
           else res_bind (scan_erc20 a (req\<lparr>sq_to_height := br_height (last headers)\<rparr>) (scan_contracts (sq_assets req))) (\<lambda>transfers.
                Inr \<lparr>sc_headers = headers, sc_transfers = transfers\<rparr>)))"

definition build_withdrawal :: "(string \<Rightarrow> string) \<Rightarrow> evm_adapter \<Rightarrow> withdrawal_intent \<Rightarrow> unsigned_transaction res" where
  "build_withdrawal hex_error a intent =
     (if \<not> is_positive (wi_amount intent) then Inl (InvalidAmount ''withdrawal amount must be positive'')
      else res_bind (estimate_fees (ea_client a)) (\<lambda>fees.
           res_bind (case wi_contract intent of
                       Some contract \<Rightarrow> res_bind (encode_transfer_call hex_error (wi_destination intent) (wi_amount intent))
                         (\<lambda>data. Inr (contract, 0, data))
                     | None \<Rightarrow> Inr (wi_destination intent, wi_amount intent, [])) (\<lambda>(dst, value, data).
           Inr (UnsignedEvm \<lparr>tr_chain_id = cl_numeric_chain_id (ea_client a), tr_nonce = wi_nonce intent, tr_to = dst, tr_value = value,
             tr_data = data, tr_gas_limit = ea_gas_limit a, tr_max_fee = fe_max_fee_per_gas fees,
             tr_max_priority_fee = fe_max_priority_fee_per_gas fees\<rparr>))))"

definition raw_hex :: "signed_transaction \<Rightarrow> string" where
  "raw_hex st = ''0x'' @ concat (map (hex_digits 2) (st_raw st))"

definition adapter_broadcast :: "evm_adapter \<Rightarrow> signed_transaction \<Rightarrow> hash32 res" where
  "adapter_broadcast a signed =
     res_bind (send_raw_transaction (ea_client a) (raw_hex signed)) (\<lambda>returned.
     if returned \<noteq> st_tx_hash signed
     then Inl (Rpc (''node returned tx hash '' @ returned @ '' but the signed transaction hashes to '' @ st_tx_hash signed))
     else Inr returned)"

definition transaction_status :: "evm_adapter \<Rightarrow> hash32 \<Rightarrow> nat \<Rightarrow> tx_status res" where
  "transaction_status a tx_hash head =
     res_bind (receipt (ea_client a) tx_hash) (\<lambda>r. case r of
       Some r \<Rightarrow> res_bind (fee_paid r) (\<lambda>fee.
         Inr (TxMined (rc_block_number r) (rc_block_hash r) (confirmations_for head (rc_block_number r)) (rc_success r) fee))
     | None \<Rightarrow> res_bind (transaction_exists (ea_client a) tx_hash) (\<lambda>known. Inr (if known then TxPending else TxUnknown)))"

definition nonce_hint :: "evm_adapter \<Rightarrow> address \<Rightarrow> nat res" where
  "nonce_hint a address = pending_nonce (ea_client a) address"

definition adapter_native_balance :: "evm_adapter \<Rightarrow> address \<Rightarrow> amount res" where
  "adapter_native_balance a address = client_native_balance (ea_client a) address"

definition evm_chain_adapter :: "(string \<Rightarrow> string) \<Rightarrow> evm_adapter \<Rightarrow> chain_adapter" where
  "evm_chain_adapter hex_error a = \<lparr>ad_head = res_bind (adapter_head a) (\<lambda>b. Inr (br_height b)),
     ad_nonce_hint = nonce_hint a, ad_build = build_withdrawal hex_error a, ad_broadcast = adapter_broadcast a,
     ad_status = transaction_status a\<rparr>"

fun build_adapters ::
  "(string \<Rightarrow> (idempotency \<Rightarrow> string \<Rightarrow> json \<Rightarrow> json res) res) \<Rightarrow> (json \<Rightarrow> string) \<Rightarrow> chain_config list \<Rightarrow> (string \<rightharpoonup> evm_adapter) res" where
  "build_adapters registry serde_error [] = Inr Map.empty"
| "build_adapters registry serde_error (cfg # cfgs) =
     (case ch_kind cfg of
        Evm \<Rightarrow> res_bind (registry (ch_id cfg)) (\<lambda>ask. res_bind (adapter_new cfg ask serde_error) (\<lambda>a.
          res_bind (build_adapters registry serde_error cfgs) (\<lambda>m. Inr ([ch_id cfg \<mapsto> a] ++ m))))
      | Solana \<Rightarrow> Inl (UnsupportedChain (ch_id cfg @ '': no Solana adapter in v0.1'')))"

section \<open>What a scan returns\<close>

definition block_ref_ok :: "block_ref \<Rightarrow> bool" where
  "block_ref_ok b \<longleftrightarrow> is_u64 (br_height b) \<and> canonical_hash (br_hash b) \<and> canonical_hash (br_parent b) \<and> is_u32 (br_tx_count b)"

definition transfer_ok :: "string \<Rightarrow> string list \<Rightarrow> string set \<Rightarrow> observed_transfer \<Rightarrow> bool" where
  "transfer_ok chain contracts tracked t \<longleftrightarrow> ot_chain t = chain \<and> canonical_hash (ot_tx_hash t) \<and> canonical_hash (ot_block_hash t) \<and>
     0 \<le> ot_log_index t \<and> ot_log_index t < 2 ^ 63 \<and> is_u64 (ot_block_number t) \<and>
     0 \<le> ot_amount t \<and> in_i128 (ot_amount t) \<and> length (ot_from t) = 42 \<and> length (ot_to t) = 42 \<and>
     storage_key (ot_to t) \<in> tracked \<and> (\<exists>c. ot_contract t = Some c \<and> c \<in> set contracts)"

lemma address_from_topic_length: "address_from_topic s = Inr a \<Longrightarrow> length a = 42"
  by (auto simp: address_from_topic_def Let_def split: if_splits)

lemma block_ref_of_ok: "header_ok h \<Longrightarrow> block_ref_ok (block_ref_of h)"
  by (simp add: header_ok_def block_ref_ok_def block_ref_of_def)

lemma adapter_header_at_ok: "adapter_header_at a n = Inr (Some b) \<Longrightarrow> block_ref_ok b"
  by (auto simp: adapter_header_at_def res_bind_Inr dest: header_by_number_ok intro: block_ref_of_ok)

lemma fetch_headers_ok:
  "fetch_headers a lo n = Inr bs \<Longrightarrow> length bs \<le> n \<and> list_all block_ref_ok bs \<and>
   (\<forall>i<length bs. adapter_header_at a (lo + i) = Inr (Some (bs ! i))) \<and>
   (length bs < n \<longrightarrow> adapter_header_at a (lo + length bs) = Inr None)"
proof (induction n arbitrary: lo bs)
  case (Suc n)
  then obtain h where h: "adapter_header_at a lo = Inr h" by (auto simp: res_bind_Inr)
  show ?case
  proof (cases h)
    case None
    then show ?thesis using Suc.prems h by simp
  next
    case (Some b)
    then obtain cs where cs: "fetch_headers a (Suc lo) n = Inr cs" "bs = b # cs" using Suc.prems h by (auto simp: res_bind_Inr)
    have "\<forall>i<length bs. adapter_header_at a (lo + i) = Inr (Some (bs ! i))"
      using Suc.IH [OF cs(1)] h Some by (auto simp: cs(2) nth_Cons split: nat.split)
    then show ?thesis using Suc.IH [OF cs(1)] h Some cs(2) adapter_header_at_ok [of a lo b] by simp
  qed
qed simp

text \<open>The value of a 64-digit word is not negative.\<close>

lemma uint256_nonneg: "uint256_from_data d = Inr v \<Longrightarrow> 0 \<le> v"
proof -
  assume u: "uint256_from_data d = Inr v"
  define b where "b = strip_0x d"
  have b: "list_all is_hexdigit b" and v: "from_hex_quantity b = Inr v"
    using u by (auto simp: uint256_from_data_def Let_def b_def split: if_splits)
  have nx: "CHR ''-'' \<notin> set b"
    using b by (auto simp: list_all_iff is_hexdigit_def is_digit_def Let_def)
  have "set (trim_start_matches2 x y s) \<subseteq> set s" for x y s
    by (induction x y s rule: trim_start_matches2.induct) auto
  moreover have "set (trim s) \<subseteq> set s" for s
    by (auto simp: trim_def dest!: set_dropWhileD)
  ultimately have "CHR ''-'' \<notin> set (trim_start_matches2 CHR ''0'' CHR ''X'' (trim_start_matches2 CHR ''0'' CHR ''x'' (trim b)))"
    using nx by blast
  then have "0 \<le> i" if "parse_i128 16 (trim_start_matches2 CHR ''0'' CHR ''X'' (trim_start_matches2 CHR ''0'' CHR ''x'' (trim b))) = Some i" for i
    using that by (auto simp: parse_i128_def Let_def checked_i128_Some split: list.splits if_splits option.splits)
  then show "0 \<le> v" using v by (auto simp: from_hex_quantity_def Let_def ok_or_Inr split: if_splits)
qed

lemma uint256_range: "uint256_from_data d = Inr v \<Longrightarrow> in_i128 v"
  by (auto simp: uint256_from_data_def Let_def dest: from_hex_quantity_range split: if_splits)

lemma decode_transfer_ok:
  "decode_transfer_log ts d = Inr (Some t) \<Longrightarrow>
   length (et_from t) = 42 \<and> length (et_to t) = 42 \<and> 0 \<le> et_value t \<and> in_i128 (et_value t)"
  by (auto simp: decode_transfer_log_def dest: address_from_topic_length uint256_nonneg uint256_range
      split: list.splits if_splits sum.splits)

lemma observe_log_ok:
  "log_ok l \<Longrightarrow> observe_log chain contracts tracked l = Some t \<Longrightarrow> transfer_ok chain contracts tracked t"
  by (auto simp: observe_log_def transfer_ok_def log_ok_def dest: decode_transfer_ok split: if_splits sum.splits option.splits)



text \<open>A node with blocks up to height 1 and one transfer of 7 in block 1.\<close>

definition demo_hash :: "char \<Rightarrow> string" where
  "demo_hash c = ''0x'' @ replicate 64 c"

definition demo_block :: "string \<Rightarrow> json" where
  "demo_block n = JObject [(''number'', JText n), (''hash'', JText (demo_hash CHR ''b'')), (''parentHash'', JText (demo_hash CHR ''A''))]"

definition demo_contract :: string where
  "demo_contract = ''0x'' @ replicate 40 CHR ''c''"

definition demo_log :: json where
  "demo_log = JObject [(''address'', JText (''0x'' @ replicate 40 CHR ''C'')), (''topics'', JArray [JText TRANSFER_TOPIC,
       JText (''0x'' @ replicate 64 CHR ''0''), JText (''0x'' @ replicate 24 CHR ''0'' @ replicate 40 CHR ''d'')]),
     (''data'', JText (''0x'' @ replicate 63 CHR ''0'' @ ''7'')), (''blockNumber'', JText ''0x1''),
     (''blockHash'', JText (demo_hash CHR ''b'')), (''transactionHash'', JText (demo_hash CHR ''e''))]"

definition demo_ask :: "idempotency \<Rightarrow> string \<Rightarrow> json \<Rightarrow> json res" where
  "demo_ask idem rpc_method params = Inr (
     if rpc_method = ''eth_getBlockByNumber'' then
       (case params of JArray (JText h # _) \<Rightarrow> if h = ''0x1'' then demo_block h else JNull | _ \<Rightarrow> JNull)
     else if rpc_method = ''eth_getLogs'' then JArray [demo_log]
     else if rpc_method = ''eth_feeHistory'' then JObject [(''baseFeePerGas'', JArray [JText ''0x10'', JText ''0x20''])]
     else JNull)"

definition demo_evm :: evm_adapter where
  "demo_evm = \<lparr>ea_chain_id = ''e'', ea_client = client_new ''e'' demo_ask (\<lambda>_. []) 1 120, ea_gas_limit = 21\<rparr>"

definition demo_scan_request :: scan_request where
  "demo_scan_request = \<lparr>sq_from_height = 1, sq_to_height = 2, sq_tracked_addresses = {''0x'' @ replicate 40 CHR ''d''},
     sq_assets = [\<lparr>ta_symbol = ''T'', ta_contract = Some demo_contract, ta_deposits_enabled = True\<rparr>]\<rparr>"

lemma demo_scan_eval:
  "case adapter_scan demo_evm demo_scan_request of Inr r \<Rightarrow> map br_height (sc_headers r) = [1] \<and> map ot_amount (sc_transfers r) = [7]
     | Inl _ \<Rightarrow> False"
  by code_simp


section \<open>What a withdrawal's transaction does\<close>

lemma estimate_fees_floor:
  assumes "estimate_fees c = Inr f"
  shows "1000000 \<le> fe_max_priority_fee_per_gas f" "in_i128 (fe_max_fee_per_gas f)"
  using assms by (auto simp: estimate_fees_def res_bind_Inr Let_def checked_add_def ok_or_Inr checked_i128_Some)

text \<open>
  C32: The transaction built for a withdrawal pays exactly its amount to its destination: a native
  withdrawal carries the amount as its value and no data, a token withdrawal sends no value and
  calls the contract with the ABI encoding of destination and amount. Nonce, chain and gas limit
  are those of the intent and the configuration, and the priority fee is at least the floor.
\<close>

theorem withdrawal_transaction_exact:
  assumes "build_withdrawal hex_error a intent = Inr (UnsignedEvm t)" "wi_destination intent = ''0x'' @ hex_digits 40 b"
    "b < 2 ^ 160" "in_i128 (wi_amount intent)"
  shows "0 < wi_amount intent \<and> tr_nonce t = wi_nonce intent \<and> tr_chain_id t = cl_numeric_chain_id (ea_client a) \<and>
    tr_gas_limit t = ea_gas_limit a \<and> 1000000 \<le> tr_max_priority_fee t \<and> in_i128 (tr_max_fee t) \<and>
    (case wi_contract intent of
       None \<Rightarrow> tr_to t = wi_destination intent \<and> tr_value t = wi_amount intent \<and> tr_data t = []
     | Some c \<Rightarrow> tr_to t = c \<and> tr_value t = 0 \<and>
         tr_data t = TRANSFER_SELECTOR @ be_bytes 32 b @ be_bytes 32 (nat (wi_amount intent)))"
proof -
  have pos: "0 < wi_amount intent" using assms(1) by (auto simp: build_withdrawal_def is_positive_def split: if_splits)
  obtain fees where f: "estimate_fees (ea_client a) = Inr fees"
    using assms(1) pos by (auto simp: build_withdrawal_def is_positive_def res_bind_Inr)
  note e = transfer_call [OF assms(3) pos assms(4), of hex_error]
  show ?thesis
    using assms(1) pos f estimate_fees_floor [OF f] e assms(2)
    by (cases "wi_contract intent") (auto simp: build_withdrawal_def is_positive_def res_bind_Inr)
qed

definition demo_intent :: withdrawal_intent where
  "demo_intent = \<lparr>wi_destination = ''0x'' @ hex_digits 40 5, wi_amount = 9, wi_contract = Some demo_contract, wi_nonce = 3, wi_from = []\<rparr>"

lemma demo_build_eval: "succeeds (build_withdrawal (\<lambda>_. []) demo_evm demo_intent)"
  by code_simp

theorem withdrawal_transaction_exact_witness:
  "\<exists>t. build_withdrawal (\<lambda>_. []) demo_evm demo_intent = Inr (UnsignedEvm t) \<and> tr_nonce t = 3 \<and> tr_to t = demo_contract \<and>
     tr_data t = TRANSFER_SELECTOR @ be_bytes 32 5 @ be_bytes 32 9"
proof -
  obtain t where t: "build_withdrawal (\<lambda>_. []) demo_evm demo_intent = Inr (UnsignedEvm t)"
    using demo_build_eval by (metis succeeds_Inr unsigned_transaction.exhaust)
  from withdrawal_transaction_exact [OF t, of 5] show ?thesis
    using t by (simp add: demo_intent_def in_i128_def del: hex_digits.simps be_bytes.simps append.simps)
qed

end
