(* ===== verification/Signer_Backends.thy ===== *)
theory Signer_Backends
  imports Signing Evm_Abi
begin

text \<open>
  The two signing backends (\<open>crates/signer/src/local.rs\<close> and \<open>mock.rs\<close>) and their selection. Keccak and the
  secp256k1 library are parameters: parsing a key, the address of a key, and signing the fields of an
  EIP-1559 transaction, which gives the printed hash and the encoded bytes.
\<close>

section \<open>The mock\<close>

definition mock_address :: address where
  "mock_address = ''0x00000000000000000000000000000000000c0ffee''"

text \<open>\<open>i128::to_be_bytes\<close>: sixteen bytes of the two's complement.\<close>

definition i128_bytes :: "int \<Rightarrow> nat list" where
  "i128_bytes v = be_bytes 16 (nat (v mod 2 ^ 128))"

definition u64_bytes :: "nat \<Rightarrow> nat list" where
  "u64_bytes v = be_bytes 8 v"

definition mock_preimage :: "evm_transaction_request \<Rightarrow> nat list" where
  "mock_preimage r = u64_bytes (tr_chain_id r) @ u64_bytes (tr_nonce r) @ map of_char (storage_key (tr_to r)) @
     i128_bytes (tr_value r) @ u64_bytes (tr_gas_limit r) @ i128_bytes (tr_max_fee r) @ tr_data r"

definition hex_encode :: "nat list \<Rightarrow> string" where
  "hex_encode bs = concat (map (hex_digits 2) bs)"

definition signer_error :: "string \<Rightarrow> 'a res \<Rightarrow> 'a res" where
  "signer_error what r = (case r of Inl e \<Rightarrow> Inl (Signer (what @ '': '' @ error_display e)) | Inr a \<Rightarrow> Inr a)"

fun mock_sign :: "(nat list \<Rightarrow> nat list) \<Rightarrow> address \<Rightarrow> unsigned_transaction \<Rightarrow> signed_transaction res" where
  "mock_sign keccak address (UnsignedEvm req) =
     (let digest = keccak (mock_preimage req)
      in case signer_error ''mock hash'' (hash32_parse (''0x'' @ hex_encode digest)) of
           Inl e \<Rightarrow> Inl e
         | Inr tx_hash \<Rightarrow> Inr \<lparr>st_raw = 2 # digest, st_tx_hash = tx_hash, st_from = address\<rparr>)"

section \<open>The in-process key\<close>

record tx_eip1559 =
  te_chain_id :: nat
  te_nonce :: nat
  te_gas_limit :: nat
  te_max_fee_per_gas :: nat
  te_max_priority_fee_per_gas :: nat
  te_to :: "nat list"
  te_value :: nat
  te_input :: "nat list"

record 'k secp256k1 =
  sk_parse :: "string \<Rightarrow> 'k option"
  sk_checksum_address :: "'k \<Rightarrow> string"
  sk_address_bytes :: "string \<Rightarrow> string + nat list"
  sk_sign :: "'k \<Rightarrow> tx_eip1559 \<Rightarrow> string + (string \<times> nat list)"

record 'k local_development_signer =
  ls_key :: 'k
  ls_address :: address

definition key_error :: error where
  "key_error = Signer ''private key must be 32 bytes of hex (value not echoed)''"

definition local_from_hex :: "'k secp256k1 \<Rightarrow> (nat list \<Rightarrow> nat list) \<Rightarrow> string \<Rightarrow> 'k local_development_signer res" where
  "local_from_hex curve keccak private_key =
     (let cleaned = trim_start_matches2 CHR ''0'' CHR ''x'' (trim private_key)
      in if length cleaned \<noteq> 64 \<or> \<not> list_all is_hexdigit cleaned then Inl key_error
         else case sk_parse curve cleaned of
           None \<Rightarrow> Inl (Signer ''could not parse secp256k1 private key'')
         | Some key \<Rightarrow>
             (case signer_error ''derived address is invalid'' (address_parse keccak Evm (sk_checksum_address curve key)) of
                Inl e \<Rightarrow> Inl e
              | Inr address \<Rightarrow> Inr \<lparr>ls_key = key, ls_address = address\<rparr>))"

definition as_u128 :: "string \<Rightarrow> amount \<Rightarrow> nat res" where
  "as_u128 what v = (if v < 0 then Inl (Signer (''negative '' @ what)) else Inr (nat v))"

definition sign_evm :: "'k secp256k1 \<Rightarrow> 'k local_development_signer \<Rightarrow> evm_transaction_request \<Rightarrow> signed_transaction res" where
  "sign_evm curve self req =
     (case sk_address_bytes curve (tr_to req) of
        Inl m \<Rightarrow> Inl (Signer (''invalid destination: '' @ m))
      | Inr dst \<Rightarrow>
     (case as_u128 ''max_fee_per_gas'' (tr_max_fee req) of Inl e \<Rightarrow> Inl e | Inr max_fee \<Rightarrow>
     (case as_u128 ''max_priority_fee_per_gas'' (tr_max_priority_fee req) of Inl e \<Rightarrow> Inl e | Inr max_priority \<Rightarrow>
     (case as_u128 ''transfer value'' (tr_value req) of Inl e \<Rightarrow> Inl e | Inr transfer_value \<Rightarrow>
     (case sk_sign curve (ls_key self)
         \<lparr>te_chain_id = tr_chain_id req, te_nonce = tr_nonce req, te_gas_limit = tr_gas_limit req, te_max_fee_per_gas = max_fee,
          te_max_priority_fee_per_gas = max_priority, te_to = dst, te_value = transfer_value, te_input = tr_data req\<rparr> of
        Inl m \<Rightarrow> Inl (Signer (''signing failed: '' @ m))
      | Inr (hash, raw) \<Rightarrow>
          (case signer_error ''bad tx hash'' (hash32_parse hash) of
             Inl e \<Rightarrow> Inl e
           | Inr tx_hash \<Rightarrow> Inr \<lparr>st_raw = raw, st_tx_hash = tx_hash, st_from = ls_address self\<rparr>))))))"

fun local_sign :: "'k secp256k1 \<Rightarrow> 'k local_development_signer \<Rightarrow> signer" where
  "local_sign curve self (UnsignedEvm req) = sign_evm curve self req"

fun local_address :: "'k local_development_signer \<Rightarrow> chain_kind \<Rightarrow> address res" where
  "local_address self Evm = Inr (ls_address self)"
| "local_address self Solana = Inl (Signer ''LocalDevelopmentSigner has no Solana implementation'')"

definition mock_signer_address :: "address \<Rightarrow> chain_kind \<Rightarrow> address res" where
  "mock_signer_address address kind = Inr address"

section \<open>Selection\<close>

datatype 'k backend = Local "'k local_development_signer" | Mock address

definition signer_from_config :: "'k secp256k1 \<Rightarrow> (nat list \<Rightarrow> nat list) \<Rightarrow> signer_config \<Rightarrow> 'k backend res" where
  "signer_from_config curve keccak cfg = (case cfg of
     LocalDevelopment private_key \<Rightarrow> (case local_from_hex curve keccak private_key of Inl e \<Rightarrow> Inl e | Inr l \<Rightarrow> Inr (Local l))
   | MockSigner \<Rightarrow> Inr (Mock mock_address))"

fun backend_sign :: "'k secp256k1 \<Rightarrow> (nat list \<Rightarrow> nat list) \<Rightarrow> 'k backend \<Rightarrow> signer" where
  "backend_sign curve keccak (Local l) = local_sign curve l"
| "backend_sign curve keccak (Mock a) = mock_sign keccak a"

fun backend_name :: "'k backend \<Rightarrow> string" where
  "backend_name (Local _) = ''local_development''"
| "backend_name (Mock _) = ''mock''"

definition is_production_grade :: "'k backend \<Rightarrow> bool" where
  "is_production_grade b = False"

section \<open>Facts\<close>

text \<open>A malformed key is refused with the same error whatever it was, so the error shows nothing of it.\<close>

lemma malformed_key_not_echoed:
  "local_from_hex curve keccak k = Inl key_error \<or> length (trim_start_matches2 CHR ''0'' CHR ''x'' (trim k)) = 64"
  by (simp add: local_from_hex_def Let_def)

text \<open>A signed transaction carries the sender of the backend, and a negative amount is never signed.\<close>

lemma sign_evm_Inr:
  assumes "sign_evm curve self req = Inr t"
  shows "st_from t = ls_address self \<and> 0 \<le> tr_value req \<and> 0 \<le> tr_max_fee req \<and> 0 \<le> tr_max_priority_fee req \<and>
    (\<exists>dst hash. sk_address_bytes curve (tr_to req) = Inr dst \<and> hash32_parse hash = Inr (st_tx_hash t) \<and>
      sk_sign curve (ls_key self) \<lparr>te_chain_id = tr_chain_id req, te_nonce = tr_nonce req, te_gas_limit = tr_gas_limit req,
        te_max_fee_per_gas = nat (tr_max_fee req), te_max_priority_fee_per_gas = nat (tr_max_priority_fee req), te_to = dst,
        te_value = nat (tr_value req), te_input = tr_data req\<rparr> = Inr (hash, st_raw t))"
  using assms by (auto simp: sign_evm_def as_u128_def signer_error_def split: sum.splits if_splits prod.splits)

lemma be_bytes_inj: "v < 256 ^ n \<Longrightarrow> w < 256 ^ n \<Longrightarrow> be_bytes n v = be_bytes n w \<longleftrightarrow> v = w"
proof (induction n arbitrary: v w)
  case (Suc n)
  have "v div 256 < 256 ^ n" "w div 256 < 256 ^ n" using Suc.prems by (simp_all add: less_mult_imp_div_less mult.commute)
  then have "be_bytes (Suc n) v = be_bytes (Suc n) w \<longleftrightarrow> v div 256 = w div 256 \<and> v mod 256 = w mod 256" using Suc.IH by simp
  then show ?case by (metis div_mult_mod_eq)
qed simp

lemma i128_bytes_inj: "in_i128 v \<Longrightarrow> in_i128 w \<Longrightarrow> i128_bytes v = i128_bytes w \<longleftrightarrow> v = w"
proof -
  assume i: "in_i128 v" "in_i128 w"
  have b: "nat (x mod 2 ^ 128) < 256 ^ 16" for x :: int
    using pos_mod_bound [of "2 ^ 128 :: int" x] by simp
  have "v mod 2 ^ 128 = w mod 2 ^ 128 \<Longrightarrow> v = w"
  proof -
    assume "v mod 2 ^ 128 = w mod 2 ^ 128"
    then have "(2 :: int) ^ 128 dvd v - w" by (simp only: mod_eq_dvd_iff)
    then obtain k where k: "v - w = 2 ^ 128 * k" by (auto elim: dvdE)
    have "\<bar>v - w\<bar> < 2 ^ 128" using i unfolding in_i128_def abs_less_iff by simp
    then have "k = 0" using k by (cases "k = 0") (auto simp: abs_mult)
    then show ?thesis using k by simp
  qed
  moreover have "i128_bytes v = i128_bytes w \<longleftrightarrow> nat (v mod 2 ^ 128) = nat (w mod 2 ^ 128)"
    unfolding i128_bytes_def by (rule be_bytes_inj [OF b b])
  ultimately show ?thesis by (auto simp: eq_nat_nat_iff)
qed

text \<open>
  What the hash of the mock covers: everything of the transaction but the priority fee. Two requests
  that differ only there have the same hash.
\<close>

definition typed_request :: "evm_transaction_request \<Rightarrow> bool" where
  "typed_request r \<longleftrightarrow> tr_chain_id r < 2 ^ 64 \<and> tr_nonce r < 2 ^ 64 \<and> tr_gas_limit r < 2 ^ 64 \<and>
     in_i128 (tr_value r) \<and> in_i128 (tr_max_fee r) \<and> length (tr_to r) = 42"

lemma mock_preimage_covers:
  assumes "typed_request r" "typed_request q"
  shows "mock_preimage r = mock_preimage q \<longleftrightarrow>
    tr_chain_id r = tr_chain_id q \<and> tr_nonce r = tr_nonce q \<and> storage_key (tr_to r) = storage_key (tr_to q) \<and>
    tr_value r = tr_value q \<and> tr_gas_limit r = tr_gas_limit q \<and> tr_max_fee r = tr_max_fee q \<and> tr_data r = tr_data q"
proof -
  have u: "u64_bytes v = u64_bytes w \<longleftrightarrow> v = w" if "v < 2 ^ 64" "w < 2 ^ 64" for v w
    unfolding u64_bytes_def using that by (intro be_bytes_inj) simp_all
  have "map of_char x = (map of_char y :: nat list) \<longleftrightarrow> x = y" for x y :: string
    by (rule inj_map_eq_map) (simp add: inj_def)
  moreover have "length (u64_bytes v) = length (u64_bytes w)" "length (i128_bytes a) = length (i128_bytes b)" for v w a b
    by (simp_all add: u64_bytes_def i128_bytes_def)
  ultimately show ?thesis using assms unfolding mock_preimage_def typed_request_def
    by (simp add: append_eq_append_conv u i128_bytes_inj storage_key_def length_to_ascii_lowercase)
qed

lemma mock_ignores_priority_fee: "mock_sign keccak a (UnsignedEvm (r\<lparr>tr_max_priority_fee := f\<rparr>)) = mock_sign keccak a (UnsignedEvm r)"
  by (simp add: mock_preimage_def)

text \<open>The address of the mock has 41 digits: it is no address.\<close>

lemma mock_address_invalid:
  "address_parse keccak Evm mock_address = Inl (InvalidAddress ''evm'' ''expected 40 hex chars, got 41'')"
proof -
  have "show_nat 41 = ''41''" by code_simp
  then show ?thesis by (simp add: mock_address_def parse_evm_def trim_def is_ws_def strip_prefix_def starts_with_def eval_nat_numeral)
qed

end
