(* ===== verification/Api_Base.thy ===== *)
theory Api_Base
  imports Config "HOL-Library.Word"
begin

unbundle bit_operations_syntax

text \<open>
  The outer layers of the HTTP API: the error representation (\<open>crates/api/src/error.rs\<close>) and the
  middleware (\<open>crates/api/src/middleware.rs\<close>): request identifiers, the bearer token, the rate limit. The
  token bucket of the \<open>governor\<close> crate, the clock and the generator of request identifiers are
  parameters; logging and metrics are left out.
\<close>

section \<open>Errors as responses\<close>

record api_error =
  ae_status :: nat
  ae_inner :: error
  ae_request_id :: string

record error_detail =
  ed_code :: string
  ed_message :: string
  ed_request_id :: string
  ed_retryable :: bool
  ed_details :: "(string \<times> string) list option"

fun status_for :: "error \<Rightarrow> nat" where
  "status_for (Validation _) = 400"
| "status_for (InvalidAmount _) = 400"
| "status_for (AmountExceedsRepresentableRange _) = 400"
| "status_for (InvalidAddress _ _) = 400"
| "status_for (UnsupportedChain _) = 400"
| "status_for (UnsupportedAsset _) = 400"
| "status_for (NotFound _) = 404"
| "status_for (Conflict _) = 409"
| "status_for IdempotencyKeyConflict = 409"
| "status_for (InvalidStateTransition _ _ _) = 409"
| "status_for (InsufficientBalance _ _) = 409"
| "status_for (UnbalancedLedgerTransaction _) = 409"
| "status_for (PolicyDenied _ _) = 422"
| "status_for RateLimited = 429"
| "status_for (Timeout _) = 504"
| "status_for (Unavailable _) = 503"
| "status_for (NoHealthyRpcEndpoint _) = 503"
| "status_for (EventBus _) = 503"
| "status_for (Cache _) = 503"
| "status_for (Rpc _) = 503"
| "status_for (Database _) = 500"
| "status_for (Signer _) = 500"
| "status_for (Config _) = 500"
| "status_for (Internal _) = 500"
| "status_for AmountOverflow = 500"

definition api_error_new :: "error \<Rightarrow> string \<Rightarrow> api_error" where
  "api_error_new inner request_id = \<lparr>ae_status = status_for inner, ae_inner = inner, ae_request_id = request_id\<rparr>"

fun server_message :: "error \<Rightarrow> string" where
  "server_message (Unavailable _) = ''a downstream dependency is temporarily unavailable''"
| "server_message (NoHealthyRpcEndpoint _) = ''a downstream dependency is temporarily unavailable''"
| "server_message (Timeout _) = ''the request timed out''"
| "server_message (EventBus _) = ''a downstream dependency is temporarily unavailable''"
| "server_message (Cache _) = ''a downstream dependency is temporarily unavailable''"
| "server_message (Rpc _) = ''a downstream dependency is temporarily unavailable''"
| "server_message _ = ''an internal error occurred''"

definition safe_message :: "error \<Rightarrow> string" where
  "safe_message e = (if is_client_error e then error_display e else server_message e)"

fun details :: "error \<Rightarrow> (string \<times> string) list option" where
  "details (InsufficientBalance available requested) = Some [(''available'', available), (''requested'', requested)]"
| "details (InvalidStateTransition entity a b) = Some [(''entity'', entity), (''from'', a), (''to'', b)]"
| "details (PolicyDenied code _) = Some [(''policy'', code)]"
| "details (InvalidAddress chain reason) = Some [(''chain'', chain), (''reason'', reason)]"
| "details _ = None"

definition into_response :: "api_error \<Rightarrow> nat \<times> error_detail" where
  "into_response a = (ae_status a,
     \<lparr>ed_code = error_code (ae_inner a), ed_message = safe_message (ae_inner a), ed_request_id = ae_request_id a,
      ed_retryable = is_retryable (ae_inner a), ed_details = details (ae_inner a)\<rparr>)"

text \<open>
  What an error says to a client beyond its kind: the response of a server error is determined by the
  code, so it carries nothing of the error's text.
\<close>

lemma server_response_opaque:
  assumes "\<not> is_client_error e" "error_code e = error_code f"
  shows "into_response (api_error_new e r) = into_response (api_error_new f r)"
  using assms by (cases e; cases f) (simp_all add: into_response_def api_error_new_def safe_message_def)

lemma status_code: "error_code e = error_code f \<Longrightarrow> status_for e = status_for f"
  by (cases e; cases f) simp_all

text \<open>
  The two classifications agree but for one variant: an unbalanced ledger transaction is reported with a
  client's status although it is the server's error.
\<close>

lemma client_status_iff: "status_for e < 500 \<longleftrightarrow> is_client_error e \<or> (\<exists>n. e = UnbalancedLedgerTransaction n)"
  by (cases e) simp_all

lemma retryable_status: "is_retryable e \<longleftrightarrow> status_for e \<in> {429, 503, 504} \<or> (\<exists>m. e = Database m)"
  by (cases e) simp_all

section \<open>Request identifiers\<close>

record request_context =
  rc_request_id :: string
  rc_correlation_id :: string
  rc_client_ip :: "string option"

type_synonym headers = "(string \<times> string) list"

text \<open>\<open>HeaderValue::to_str\<close>: the value when it is visible ASCII or tabs.\<close>

definition header_text :: "headers \<Rightarrow> string \<Rightarrow> string option" where
  "header_text h k = (case map_of h k of None \<Rightarrow> None
     | Some v \<Rightarrow> if list_all (\<lambda>c. let n = (of_char c :: nat) in 32 \<le> n \<and> n < 127 \<or> n = 9) v then Some v else None)"

definition REQUEST_ID_HEADER :: string where "REQUEST_ID_HEADER = ''x-request-id''"
definition CORRELATION_ID_HEADER :: string where "CORRELATION_ID_HEADER = ''x-correlation-id''"

definition id_char :: "char \<Rightarrow> bool" where
  "id_char c \<longleftrightarrow> is_digit c \<or> is_lower c \<or> is_upper c \<or> c \<in> {CHR ''-'', CHR ''_'', CHR ''.'', CHR '':''}"

definition sanitize_id :: "string \<Rightarrow> string" where
  "sanitize_id raw = take 64 (filter id_char raw)"

definition supplied_id :: "headers \<Rightarrow> string \<Rightarrow> string option" where
  "supplied_id h k = (case map_option sanitize_id (header_text h k) of
     Some (c # s) \<Rightarrow> Some (c # s) | _ \<Rightarrow> None)"

definition from_parts :: "string \<Rightarrow> headers \<Rightarrow> string option \<Rightarrow> request_context" where
  "from_parts fresh_id h client_ip =
     (let request_id = (case supplied_id h REQUEST_ID_HEADER of Some i \<Rightarrow> i | None \<Rightarrow> fresh_id);
          correlation_id = (case supplied_id h CORRELATION_ID_HEADER of Some i \<Rightarrow> i | None \<Rightarrow> request_id)
      in \<lparr>rc_request_id = request_id, rc_correlation_id = correlation_id, rc_client_ip = client_ip\<rparr>)"

text \<open>
  What reaches the log field is short and has no character that could forge a line; it is empty only
  when nothing usable was sent, and then a fresh identifier is taken.
\<close>

definition id_safe :: "string \<Rightarrow> bool" where
  "id_safe i \<longleftrightarrow> i \<noteq> [] \<and> length i \<le> 64 \<and> list_all id_char i"

lemma supplied_id_safe: "supplied_id h k = Some i \<Longrightarrow> id_safe i"
proof -
  assume "supplied_id h k = Some i"
  then obtain raw where "i = sanitize_id raw" "i \<noteq> []"
    by (force simp: supplied_id_def split: option.splits list.splits)
  moreover have "list_all id_char (filter id_char raw)" by (simp add: list_all_iff)
  ultimately show ?thesis by (auto simp: id_safe_def sanitize_id_def list_all_iff dest: in_set_takeD)
qed

lemma from_parts_safe:
  assumes "id_safe fresh_id"
  shows "id_safe (rc_request_id (from_parts fresh_id h ip)) \<and> id_safe (rc_correlation_id (from_parts fresh_id h ip))"
  using assms supplied_id_safe by (auto simp: from_parts_def Let_def split: option.splits)

lemma sanitize_id_idem: "sanitize_id (sanitize_id raw) = sanitize_id raw"
proof -
  have "filter id_char (take 64 (filter id_char raw)) = take 64 (filter id_char raw)"
    by (rule filter_True) (auto dest: in_set_takeD)
  then show ?thesis by (simp add: sanitize_id_def)
qed

section \<open>The bearer token\<close>

text \<open>The comparison runs over the bytes of both tokens and accumulates their differences.\<close>

definition token_bytes :: "string \<Rightarrow> 8 word list" where
  "token_bytes s = map (\<lambda>c. word_of_nat (of_char c)) s"

definition constant_time_eq :: "string \<Rightarrow> string \<Rightarrow> bool" where
  "constant_time_eq a b =
     (if length (token_bytes a) \<noteq> length (token_bytes b) then False
      else fold (\<lambda>(x, y) acc. acc OR (x XOR y)) (zip (token_bytes a) (token_bytes b)) 0 = 0)"

definition presented_token :: "headers \<Rightarrow> string option" where
  "presented_token h = (case header_text h ''authorization'' of None \<Rightarrow> None | Some v \<Rightarrow> strip_prefix ''Bearer '' v)"

definition token_ok :: "string option \<Rightarrow> headers \<Rightarrow> bool" where
  "token_ok expected h = (case expected of None \<Rightarrow> True
     | Some t \<Rightarrow> (case presented_token h of None \<Rightarrow> False | Some p \<Rightarrow> constant_time_eq p t))"

definition unauthorized :: "string \<Rightarrow> api_error" where
  "unauthorized request_id = \<lparr>ae_status = 401, ae_inner = Validation ''missing or invalid credentials'', ae_request_id = request_id\<rparr>"

definition auth_layer :: "string option \<Rightarrow> headers \<Rightarrow> string \<Rightarrow> api_error option" where
  "auth_layer expected h request_id = (if token_ok expected h then None else Some (unauthorized request_id))"

lemma fold_or_zero: "fold (\<lambda>(x, y) acc. acc OR (x XOR y)) xs a = (0 :: 8 word) \<longleftrightarrow> a = 0 \<and> (\<forall>(x, y)\<in>set xs. x = y)"
proof (induction xs arbitrary: a)
  case (Cons p xs)
  have "a OR (x XOR y) = 0 \<longleftrightarrow> a = 0 \<and> x = y" for x y :: "8 word"
  proof -
    have "a OR (x XOR y) = 0 \<longleftrightarrow> a = 0 \<and> x XOR y = 0" by (auto simp: bit_eq_iff bit_simps)
    moreover have "x XOR y = 0 \<longleftrightarrow> x = y" by (auto simp: bit_eq_iff bit_simps)
    ultimately show ?thesis by simp
  qed
  then show ?case using Cons by (cases p) auto
qed simp

lemma byte_inj: "(word_of_nat (of_char c) :: 8 word) = word_of_nat (of_char d) \<longleftrightarrow> c = d"
proof -
  have "unat (word_of_nat (of_char e) :: 8 word) = of_char e" for e :: char
    by (simp add: unat_of_nat of_char_mod_256)
  then show ?thesis by (metis of_char_eq_iff)
qed

text \<open>The comparison that runs in the same time whatever differs is equality.\<close>

lemma constant_time_eq_iff: "constant_time_eq a b \<longleftrightarrow> a = b"
proof -
  have "(\<forall>(x, y)\<in>set (zip (token_bytes a) (token_bytes b)). x = y) \<longleftrightarrow> a = b" if "length a = length b"
    using that by (induction a b rule: list_induct2) (auto simp: token_bytes_def byte_inj)
  then show ?thesis by (auto simp: constant_time_eq_def fold_or_zero token_bytes_def)
qed

lemma strip_prefix_Some: "strip_prefix p v = Some t \<longleftrightarrow> v = p @ t"
proof -
  have "v = p @ drop (length p) v" if "take (length p) v = p"
    using append_take_drop_id [of "length p" v] that by simp
  then show ?thesis by (auto simp: strip_prefix_def starts_with_def)
qed

lemma token_ok_iff: "token_ok (Some t) h \<longleftrightarrow> header_text h ''authorization'' = Some (''Bearer '' @ t)"
proof (cases "header_text h ''authorization''")
  case (Some v)
  then have "token_ok (Some t) h \<longleftrightarrow> strip_prefix ''Bearer '' v = Some t"
    by (simp only: token_ok_def presented_token_def constant_time_eq_iff option.case) (simp split: option.split)
  then show ?thesis by (simp only: Some strip_prefix_Some option.inject)
qed (simp add: token_ok_def presented_token_def)

section \<open>The rate limit\<close>

text \<open>The quota the limiter is built with; zero would be refused by the bucket.\<close>

definition limiter_quota :: "nat \<Rightarrow> nat \<Rightarrow> nat \<times> nat" where
  "limiter_quota rps burst = (let rps = max rps 1 in (rps, max burst rps))"

lemma limiter_quota_positive: "limiter_quota rps burst = (r, b) \<Longrightarrow> 1 \<le> r \<and> r \<le> b"
  by (auto simp: limiter_quota_def Let_def)

definition rate_limit_layer :: "bool \<Rightarrow> string \<Rightarrow> api_error option" where
  "rate_limit_layer admitted request_id =
     (if admitted then None else Some \<lparr>ae_status = 429, ae_inner = RateLimited, ae_request_id = request_id\<rparr>)"

end
