(* ===== verification/Reference_Db.thy ===== *)
theory Reference_Db
  imports Withdrawal_Db Tx_Steps
begin

text \<open>
  Users, assets, deposit addresses and the pool of addresses exported from custody
  (\<open>crates/database/src/repo/reference.rs\<close>) with the constraints of \<open>migrations/0001_core.sql\<close> and
  \<open>0007_address_pool.sql\<close>: what creates and changes these rows. The lookups that the pipelines share are
  in \<open>Chain_Db\<close>. The main result is that an address, once it belongs to a user, belongs to that user in
  every later state, and to nobody else.
\<close>

record pool_address =
  pa_id :: uuid
  pa_chain :: string
  pa_address :: address
  pa_path :: "string option"
  pa_assigned_to :: "uuid option"
  pa_assigned_at :: "timestamp option"
  pa_created_at :: timestamp

record api_db = wd_db +
  address_pool :: "pool_address list"

section \<open>Users and assets\<close>

text \<open>
  The insert evaluates its check before it looks for a conflict; a conflict updates the row to
  itself and returns it.
\<close>

definition create_user :: "string \<Rightarrow> ('x ref_db_scheme, user) db_tx" where
  "create_user external_id = (\<lambda>s.
     if external_id = [] \<or> 128 < length external_id
     then Inl (Validation ''check constraint violated: users_external_id_len'')
     else case find (\<lambda>u. u_external_id u = external_id) (users s) of
       Some u \<Rightarrow> Inr (u, s)
     | None \<Rightarrow> tx_bind gen_uuid (\<lambda>i s.
         let u = \<lparr>u_id = i, u_external_id = external_id, u_created_at = clock s\<rparr>
         in Inr (u, s\<lparr>users := users s @ [u]\<rparr>)) s)"

definition get_user :: "uuid \<Rightarrow> ('x ref_db_scheme, user) db_tx" where
  "get_user i = (\<lambda>s. case find (\<lambda>u. u_id u = i) (users s) of
     None \<Rightarrow> Inl (NotFound ''user'') | Some u \<Rightarrow> Inr (u, s))"

definition get_user_by_external_id :: "string \<Rightarrow> 'x ref_db_scheme \<Rightarrow> user option" where
  "get_user_by_external_id external_id s = find (\<lambda>u. u_external_id u = external_id) (users s)"

text \<open>
  The two partial unique indexes of \<open>assets\<close>: one row per contract and one native row per chain.
  \<open>mine\<close> is the row being written.
\<close>

definition asset_index_violation :: "string \<Rightarrow> address option \<Rightarrow> (asset \<Rightarrow> bool) \<Rightarrow> asset list \<Rightarrow> error option" where
  "asset_index_violation chain contract mine rows =
     (if list_ex (\<lambda>a. \<not> mine a \<and> as_chain a = chain \<and> as_contract a = contract) rows
      then Some (Conflict (if contract = None then ''unique constraint violated: assets_chain_native_key''
                           else ''asset already registered on that chain''))
      else None)"

definition upsert_asset :: "string \<Rightarrow> string \<Rightarrow> string option \<Rightarrow> nat \<Rightarrow> ('x ref_db_scheme, asset) db_tx" where
  "upsert_asset chain symbol contract decimals = (\<lambda>s.
     let contract = map_option to_ascii_lowercase contract;
         mine = (\<lambda>a. as_chain a = chain \<and> as_symbol a = symbol)
     in if 36 < decimals then Inl (Validation ''check constraint violated: assets_decimals_range'')
        else case asset_index_violation chain contract mine (assets s) of
          Some e \<Rightarrow> Inl e
        | None \<Rightarrow>
            (case find mine (assets s) of
               Some a \<Rightarrow> let a' = a\<lparr>as_contract := contract, as_decimals := int decimals\<rparr>
                         in Inr (a', s\<lparr>assets := upd_where mine (\<lambda>_. a') (assets s)\<rparr>)
             | None \<Rightarrow> tx_bind gen_uuid (\<lambda>i s.
                 let a = \<lparr>as_id = i, as_symbol = symbol, as_chain = chain, as_contract = contract, as_decimals = int decimals\<rparr>
                 in Inr (a, s\<lparr>assets := assets s @ [a]\<rparr>)) s))"

section \<open>Deposit addresses\<close>

definition get_deposit_address :: "uuid \<Rightarrow> string \<Rightarrow> 'x ref_db_scheme \<Rightarrow> deposit_address option" where
  "get_deposit_address user chain s = find (\<lambda>d. (da_user d, da_chain d) = (user, chain)) (deposit_addresses s)"

definition user_exists :: "uuid \<Rightarrow> 'x ref_db_scheme \<Rightarrow> bool" where
  "user_exists i s = list_ex (\<lambda>u. u_id u = i) (users s)"

text \<open>The conflict on \<open>(user_id, chain)\<close> returns the row; every other constraint refuses the insert.\<close>

definition assign_deposit_address ::
  "uuid \<Rightarrow> string \<Rightarrow> address \<Rightarrow> string option \<Rightarrow> ('x ref_db_scheme, deposit_address) db_tx" where
  "assign_deposit_address user chain address path = (\<lambda>s.
     case get_deposit_address user chain s of
       Some d \<Rightarrow> Inr (d, s)
     | None \<Rightarrow>
         if list_ex (\<lambda>d. (da_chain d, da_address d) = (chain, storage_key address)) (deposit_addresses s)
         then Inl (Conflict ''that deposit address is already assigned'')
         else if \<not> user_exists user s
         then Inl (Validation ''referenced row does not exist (deposit_addresses_user_id_fkey)'')
         else tx_bind gen_uuid (\<lambda>i s.
           let d = \<lparr>da_id = i, da_user = user, da_chain = chain, da_address = storage_key address,
                    da_path = path, da_created_at = clock s\<rparr>
           in Inr (d, s\<lparr>deposit_addresses := deposit_addresses s @ [d]\<rparr>)) s)"

section \<open>The address pool\<close>

definition add_pool_address :: "string \<Rightarrow> address \<Rightarrow> string option \<Rightarrow> ('x api_db_scheme, bool) db_tx" where
  "add_pool_address chain address path = (\<lambda>s.
     if list_ex (\<lambda>p. (pa_chain p, pa_address p) = (chain, storage_key address)) (address_pool s) then Inr (False, s)
     else tx_bind gen_uuid (\<lambda>i s.
       Inr (True, s\<lparr>address_pool := address_pool s @
         [\<lparr>pa_id = i, pa_chain = chain, pa_address = storage_key address, pa_path = path,
           pa_assigned_to = None, pa_assigned_at = None, pa_created_at = clock s\<rparr>]\<rparr>)) s)"

text \<open>The rows a claim may take: unassigned, and not already a live deposit address.\<close>

definition pool_free :: "string \<Rightarrow> 'x api_db_scheme \<Rightarrow> pool_address \<Rightarrow> bool" where
  "pool_free chain s p \<longleftrightarrow> pa_chain p = chain \<and> pa_assigned_to p = None \<and>
     \<not> list_ex (\<lambda>d. (da_chain d, da_address d) = (pa_chain p, pa_address p)) (deposit_addresses s)"

definition next_pool_address :: "uuid set \<Rightarrow> string \<Rightarrow> 'x api_db_scheme \<Rightarrow> pool_address option" where
  "next_pool_address locked chain s =
     (case sort_key pa_created_at (filter (\<lambda>p. pool_free chain s p \<and> pa_id p \<notin> locked) (address_pool s)) of
        [] \<Rightarrow> None | p # _ \<Rightarrow> Some p)"

definition mark_pool_assigned :: "uuid \<Rightarrow> uuid \<Rightarrow> ('x api_db_scheme, unit) db_tx" where
  "mark_pool_assigned pool_id user = (\<lambda>s.
     if \<not> user_exists user s
     then Inl (Validation ''referenced row does not exist (deposit_address_pool_assigned_to_fkey)'')
     else Inr ((), s\<lparr>address_pool := upd_where (\<lambda>p. pa_id p = pool_id)
       (\<lambda>p. p\<lparr>pa_assigned_to := Some user, pa_assigned_at := Some (clock s)\<rparr>) (address_pool s)\<rparr>))"

definition pool_exhausted :: "string \<Rightarrow> error" where
  "pool_exhausted chain =
     Unavailable (''no unassigned deposit addresses remain for chain `'' @ chain @ ''`; top up the pool'')"

definition claim_pool_address :: "uuid set \<Rightarrow> uuid \<Rightarrow> string \<Rightarrow> ('x api_db_scheme, deposit_address) db_tx" where
  "claim_pool_address locked user chain =
     tx_bind (tx_read (get_deposit_address user chain)) (\<lambda>existing.
       case existing of
         Some d \<Rightarrow> tx_return d
       | None \<Rightarrow>
           tx_bind (tx_read (next_pool_address locked chain)) (\<lambda>claimed.
             case claimed of
               None \<Rightarrow> tx_fail (pool_exhausted chain)
             | Some p \<Rightarrow>
                 tx_then (mark_pool_assigned (pa_id p) user)
                   (assign_deposit_address user chain (pa_address p) (pa_path p))))"

text \<open>The view \<open>deposit_address_pool_stats\<close>: per chain the free and the assigned rows.\<close>

definition pool_stats :: "'x api_db_scheme \<Rightarrow> (string \<times> nat \<times> nat) list" where
  "pool_stats s = map (\<lambda>c.
     (c, length (filter (\<lambda>p. pa_chain p = c \<and> pa_assigned_to p = None) (address_pool s)),
         length (filter (\<lambda>p. pa_chain p = c \<and> pa_assigned_to p \<noteq> None) (address_pool s))))
     (sorted_list_of_set (pa_chain ` set (address_pool s)))"

section \<open>Ownership of addresses\<close>

text \<open>
  \<open>addresses_ok\<close> is what the constraints of the two tables promise, and that an assigned pool row is the
  deposit address of the user it was assigned to; the identifiers of the pool come from the supply.
\<close>

definition addresses_ok :: "'x api_db_scheme \<Rightarrow> bool" where
  "addresses_ok s \<longleftrightarrow>
     unique_key (\<lambda>d. (da_chain d, da_address d)) (deposit_addresses s) \<and>
     unique_key (\<lambda>d. (da_user d, da_chain d)) (deposit_addresses s) \<and>
     unique_key (\<lambda>p. (pa_chain p, pa_address p)) (address_pool s) \<and>
     inj (id_src s) \<and> unique_key pa_id (address_pool s) \<and>
     (\<forall>p\<in>set (address_pool s). pa_id p \<in> id_src s ` {..<id_next s}) \<and>
     (\<forall>p\<in>set (address_pool s). storage_key (pa_address p) = pa_address p) \<and>
     (\<forall>p\<in>set (address_pool s). \<forall>u. pa_assigned_to p = Some u \<longrightarrow>
        (\<exists>d\<in>set (deposit_addresses s). da_chain d = pa_chain p \<and> da_address d = pa_address p \<and> da_user d = u))"

definition addresses_grow :: "'x api_db_scheme \<Rightarrow> 'x api_db_scheme \<Rightarrow> bool" where
  "addresses_grow s t \<longleftrightarrow> addresses_ok t \<and>
     set (users s) \<subseteq> set (users t) \<and> set (deposit_addresses s) \<subseteq> set (deposit_addresses t)"


lemma storage_key_idem [simp]: "storage_key (storage_key a) = storage_key a"
  by (simp add: storage_key_def to_ascii_lowercase_idem)

lemma addresses_ok_next:
  assumes "addresses_ok s" "id_src t = id_src s" "id_next s \<le> id_next t"
    "deposit_addresses t = deposit_addresses s" "address_pool t = address_pool s"
  shows "addresses_ok t"
proof -
  have "x \<in> id_src s ` {..<id_next t}" if "x \<in> id_src s ` {..<id_next s}" for x using that assms(3) by auto
  then show ?thesis using assms(1) by (simp add: addresses_ok_def assms(2,4,5))
qed

interpretation addr: tx_steps addresses_ok addresses_grow
  by unfold_locales (auto simp: addresses_grow_def)

lemma create_user_step: "addr.steps (create_user x)"
proof (rule addr.stepsI)
  fix s :: "'x api_db_scheme" and a s' assume r: "create_user x s = Inr (a, s')" and i: "addresses_ok s"
  then have "addresses_ok s'"
    by (intro addresses_ok_next [OF i]) (auto simp: create_user_def gen_uuid_def tx_bind_def Let_def split: if_splits option.splits)
  then show "addresses_grow s s'" using r
    by (auto simp: addresses_grow_def create_user_def gen_uuid_def tx_bind_def Let_def split: if_splits option.splits)
qed

lemma upsert_asset_step: "addr.steps (upsert_asset c y k n)"
proof (rule addr.stepsI)
  fix s :: "'x api_db_scheme" and a s' assume r: "upsert_asset c y k n s = Inr (a, s')" and i: "addresses_ok s"
  have "id_src s' = id_src s \<and> id_next s \<le> id_next s' \<and> users s' = users s \<and>
    deposit_addresses s' = deposit_addresses s \<and> address_pool s' = address_pool s"
    using r by (auto simp: upsert_asset_def gen_uuid_def tx_bind_def Let_def split: if_splits option.splits)
  then show "addresses_grow s s'" using addresses_ok_next [OF i, of s'] by (simp add: addresses_grow_def)
qed

lemma add_pool_address_step: "addr.steps (add_pool_address c a q)"
proof (rule addr.stepsI)
  fix s :: "'x api_db_scheme" and b s' assume r: "add_pool_address c a q s = Inr (b, s')" and i: "addresses_ok s"
  show "addresses_grow s s'"
  proof (cases "list_ex (\<lambda>p. (pa_chain p, pa_address p) = (c, storage_key a)) (address_pool s)")
    case True
    then show ?thesis using r i by (simp add: add_pool_address_def addr.R_refl)
  next
    case False
    have inj: "inj (id_src s)" using i by (simp add: addresses_ok_def)
    then have new: "id_src s (id_next s) \<notin> id_src s ` {..<id_next s}" by (auto dest: injD)
    then have "id_src s (id_next s) \<notin> pa_id ` set (address_pool s)" using i by (auto simp: addresses_ok_def)
    moreover have "(c, storage_key a) \<notin> (\<lambda>p. (pa_chain p, pa_address p)) ` set (address_pool s)"
      using False by (auto simp: list_ex_iff)
    moreover have "s' = s\<lparr>id_next := Suc (id_next s), address_pool := address_pool s @
        [\<lparr>pa_id = id_src s (id_next s), pa_chain = c, pa_address = storage_key a, pa_path = q,
          pa_assigned_to = None, pa_assigned_at = None, pa_created_at = clock s\<rparr>]\<rparr>"
      using r False by (simp add: add_pool_address_def gen_uuid_def tx_bind_def)
    ultimately have "addresses_ok s'" using i
      by (auto simp: addresses_ok_def unique_key_append lessThan_Suc)
    then show ?thesis using r False by (auto simp: addresses_grow_def add_pool_address_def gen_uuid_def tx_bind_def)
  qed
qed

lemma assign_fresh:
  assumes "get_deposit_address u c s = None" "assign_deposit_address u c a q s = Inr (d, s')"
  shows "s' = s\<lparr>id_next := Suc (id_next s), deposit_addresses := deposit_addresses s @ [d]\<rparr> \<and> da_user d = u \<and> da_chain d = c \<and>
    da_address d = storage_key a \<and> user_exists u s \<and> (\<forall>d\<in>set (deposit_addresses s). (da_chain d, da_address d) \<noteq> (c, storage_key a))"
  using assms by (auto simp: assign_deposit_address_def gen_uuid_def tx_bind_def Let_def list_ex_iff split: if_splits)

lemma unowned: "get_deposit_address u c s = None \<longleftrightarrow> (\<forall>d\<in>set (deposit_addresses s). (da_user d, da_chain d) \<noteq> (u, c))"
  by (simp add: get_deposit_address_def find_None_set)

text \<open>A new deposit address: the invariant without its last clause, which a claim breaks for the one row it has marked.\<close>

lemma new_address_ok:
  assumes "addresses_ok s" "da_user d = u" "da_chain d = c" "get_deposit_address u c s = None"
    "\<forall>e\<in>set (deposit_addresses s). (da_chain e, da_address e) \<noteq> (c, da_address d)"
    "deposit_addresses t = deposit_addresses s @ [d]" "id_src t = id_src s" "id_next t = Suc (id_next s)"
    "map (\<lambda>p. (pa_id p, pa_chain p, pa_address p)) (address_pool t) = map (\<lambda>p. (pa_id p, pa_chain p, pa_address p)) (address_pool s)"
    "\<And>p v. p \<in> set (address_pool t) \<Longrightarrow> pa_assigned_to p = Some v \<Longrightarrow>
       p \<in> set (address_pool s) \<or> v = u \<and> pa_chain p = c \<and> pa_address p = da_address d"
  shows "addresses_ok t"
proof -
  have keys: "map f (address_pool t) = map f (address_pool s)"
    if "f = (\<lambda>(i, c, a). g i c a) \<circ> (\<lambda>p. (pa_id p, pa_chain p, pa_address p))" for f and g :: "uuid \<Rightarrow> string \<Rightarrow> address \<Rightarrow> 'k"
    using arg_cong [OF assms(9), of "map (\<lambda>(i, c, a). g i c a)"] that by (simp add: comp_def)
  have 1: "map pa_id (address_pool t) = map pa_id (address_pool s)"
    "map (\<lambda>p. (pa_chain p, pa_address p)) (address_pool t) = map (\<lambda>p. (pa_chain p, pa_address p)) (address_pool s)"
    "map pa_address (address_pool t) = map pa_address (address_pool s)"
    using keys [of pa_id "\<lambda>i c a. i"] keys [of "\<lambda>p. (pa_chain p, pa_address p)" "\<lambda>i c a. (c, a)"] keys [of pa_address "\<lambda>i c a. a"]
    by (simp_all add: comp_def)
  have 2: "pa_id ` set (address_pool t) = pa_id ` set (address_pool s)" "pa_address ` set (address_pool t) = pa_address ` set (address_pool s)"
    using arg_cong [OF 1(1), of set] arg_cong [OF 1(3), of set] by simp_all
  have "\<forall>x\<in>pa_id ` set (address_pool s). x \<in> id_src s ` {..<id_next s}"
    "\<forall>a\<in>pa_address ` set (address_pool s). storage_key a = a"
    using assms(1) by (auto simp: addresses_ok_def)
  then have 3: "\<forall>p\<in>set (address_pool t). pa_id p \<in> id_src t ` {..<id_next t} \<and> storage_key (pa_address p) = pa_address p"
    using assms(7,8) unfolding 2 [symmetric] by (auto simp: lessThan_Suc)
  have 4: "\<exists>e\<in>set (deposit_addresses t). da_chain e = pa_chain p \<and> da_address e = pa_address p \<and> da_user e = v"
    if "p \<in> set (address_pool t)" "pa_assigned_to p = Some v" for p v
    using assms(10) [OF that] assms(1,2,3,6) that(2) unfolding addresses_ok_def by auto
  show ?thesis
    using assms(1-8) 1 3 4 unowned [of u c s] unfolding addresses_ok_def
    by (auto simp: unique_key_def)
qed

lemma assign_deposit_address_step: "addr.steps (assign_deposit_address u c a q)"
proof (rule addr.stepsI)
  fix s :: "'x api_db_scheme" and d s' assume r: "assign_deposit_address u c a q s = Inr (d, s')" and i: "addresses_ok s"
  show "addresses_grow s s'"
  proof (cases "get_deposit_address u c s")
    case None
    note f = assign_fresh [OF None r]
    then have "addresses_ok s'" by (intro new_address_ok [OF i, of d u c]) (auto simp: None)
    then show ?thesis using f by (auto simp: addresses_grow_def)
  next
    case (Some e)
    then show ?thesis using r i by (simp add: assign_deposit_address_def addr.R_refl)
  qed
qed


lemma next_pool_address_Some:
  "next_pool_address locked c s = Some p \<Longrightarrow> p \<in> set (address_pool s) \<and> pool_free c s p \<and> pa_id p \<notin> locked"
proof -
  assume "next_pool_address locked c s = Some p"
  then obtain ps where "sort_key pa_created_at (filter (\<lambda>p. pool_free c s p \<and> pa_id p \<notin> locked) (address_pool s)) = p # ps"
    by (auto simp: next_pool_address_def split: list.splits)
  from arg_cong [OF this, of set] show ?thesis by auto
qed

lemma next_pool_address_None:
  "next_pool_address locked c s = None \<longleftrightarrow> (\<forall>p\<in>set (address_pool s). pool_free c s p \<longrightarrow> pa_id p \<in> locked)"
proof -
  have "next_pool_address locked c s = None \<longleftrightarrow>
      sort_key pa_created_at (filter (\<lambda>p. pool_free c s p \<and> pa_id p \<notin> locked) (address_pool s)) = []"
    by (simp add: next_pool_address_def split: list.splits)
  also have "\<dots> \<longleftrightarrow> set (sort_key pa_created_at (filter (\<lambda>p. pool_free c s p \<and> pa_id p \<notin> locked) (address_pool s))) = {}"
    by (simp only: set_empty)
  finally show ?thesis by (auto simp: filter_empty_conv)
qed

definition claim_effect :: "uuid \<Rightarrow> pool_address \<Rightarrow> 'x api_db_scheme \<Rightarrow> deposit_address \<times> 'x api_db_scheme" where
  "claim_effect u p s =
     (let d = \<lparr>da_id = id_src s (id_next s), da_user = u, da_chain = pa_chain p, da_address = pa_address p,
               da_path = pa_path p, da_created_at = clock s\<rparr>
      in (d, s\<lparr>id_next := Suc (id_next s), deposit_addresses := deposit_addresses s @ [d],
               address_pool := upd_where (\<lambda>q. pa_id q = pa_id p)
                 (\<lambda>q. q\<lparr>pa_assigned_to := Some u, pa_assigned_at := Some (clock s)\<rparr>) (address_pool s)\<rparr>))"

text \<open>What a claim does, on every branch.\<close>

lemma claim_pool_address_cases:
  assumes "addresses_ok s"
  shows "claim_pool_address locked u c s =
    (case get_deposit_address u c s of
       Some d \<Rightarrow> Inr (d, s)
     | None \<Rightarrow> (case next_pool_address locked c s of
         None \<Rightarrow> Inl (pool_exhausted c)
       | Some p \<Rightarrow> if user_exists u s then Inr (claim_effect u p s)
                   else Inl (Validation ''referenced row does not exist (deposit_address_pool_assigned_to_fkey)'')))"
proof (cases "get_deposit_address u c s = None \<and> (\<exists>p. next_pool_address locked c s = Some p)")
  case True
  then obtain p where p: "next_pool_address locked c s = Some p" and n: "get_deposit_address u c s = None" by blast
  have f: "p \<in> set (address_pool s)" "pool_free c s p" using next_pool_address_Some [OF p] by simp_all
  have "storage_key (pa_address p) = pa_address p" "pa_chain p = c"
    "\<not> list_ex (\<lambda>d. (da_chain d, da_address d) = (pa_chain p, pa_address p)) (deposit_addresses s)"
    using f assms by (auto simp: addresses_ok_def pool_free_def)
  then show ?thesis using n p
    by (simp add: claim_pool_address_def mark_pool_assigned_def assign_deposit_address_def get_deposit_address_def
        user_exists_def gen_uuid_def claim_effect_def tx_eval Let_def)
next
  case False
  then show ?thesis by (auto simp: claim_pool_address_def tx_eval split: option.splits)
qed

lemma claim_effect_ok:
  assumes "addresses_ok s" "get_deposit_address u (pa_chain p) s = None" "p \<in> set (address_pool s)" "pool_free c s p"
  shows "addresses_ok (snd (claim_effect u p s))"
proof (rule new_address_ok [OF assms(1), of "fst (claim_effect u p s)" u "pa_chain p"])
  fix q v assume "q \<in> set (address_pool (snd (claim_effect u p s)))" "pa_assigned_to q = Some v"
  then obtain q0 where "q0 \<in> set (address_pool s)"
    "q = (if pa_id q0 = pa_id p then q0\<lparr>pa_assigned_to := Some u, pa_assigned_at := Some (clock s)\<rparr> else q0)"
    by (auto simp: claim_effect_def Let_def set_upd_where)
  moreover have "q0 = p" if "pa_id q0 = pa_id p"
    using assms(1,3) that \<open>q0 \<in> set (address_pool s)\<close> by (auto simp: addresses_ok_def dest: unique_keyD)
  ultimately show "q \<in> set (address_pool s) \<or> v = u \<and> pa_chain q = pa_chain p \<and> pa_address q = da_address (fst (claim_effect u p s))"
    using \<open>pa_assigned_to q = Some v\<close> by (auto simp: claim_effect_def Let_def split: if_splits)
next
  show "\<forall>e\<in>set (deposit_addresses s). (da_chain e, da_address e) \<noteq> (pa_chain p, da_address (fst (claim_effect u p s)))"
    using assms(4) by (auto simp: pool_free_def list_ex_iff claim_effect_def Let_def)
qed (simp_all add: assms claim_effect_def Let_def row_simps)

lemma claim_pool_address_step: "addr.steps (claim_pool_address locked u c)"
proof (rule addr.stepsI)
  fix s :: "'x api_db_scheme" and d s' assume r: "claim_pool_address locked u c s = Inr (d, s')" and i: "addresses_ok s"
  show "addresses_grow s s'"
  proof (cases "get_deposit_address u c s")
    case (Some e)
    then show ?thesis using r claim_pool_address_cases [OF i, of locked u c] i by (simp add: addr.R_refl)
  next
    case None
    then obtain p where p: "next_pool_address locked c s = Some p" and e: "(d, s') = claim_effect u p s"
      using r claim_pool_address_cases [OF i, of locked u c] by (auto split: option.splits if_splits)
    have f: "p \<in> set (address_pool s)" "pool_free c s p" "pa_chain p = c"
      using next_pool_address_Some [OF p] by (auto simp: pool_free_def)
    then have "addresses_ok s'" using claim_effect_ok [OF i, of u p c] None e by (metis snd_conv)
    moreover have "s' = snd (claim_effect u p s)" using e by (metis snd_conv)
    ultimately show ?thesis by (auto simp: addresses_grow_def claim_effect_def Let_def)
  qed
qed

section \<open>Histories\<close>

datatype reference_call =
    CallCreateUser string
  | CallUpsertAsset string string "string option" nat
  | CallAddPool string address "string option"
  | CallAssign uuid string address "string option"
  | CallClaim "uuid set" uuid string

fun reference_tx :: "reference_call \<Rightarrow> ('x api_db_scheme, unit) db_tx" where
  "reference_tx (CallCreateUser x) = tx_then (create_user x) (tx_return ())"
| "reference_tx (CallUpsertAsset c y k n) = tx_then (upsert_asset c y k n) (tx_return ())"
| "reference_tx (CallAddPool c a q) = tx_then (add_pool_address c a q) (tx_return ())"
| "reference_tx (CallAssign u c a q) = tx_then (assign_deposit_address u c a q) (tx_return ())"
| "reference_tx (CallClaim locked u c) = tx_then (claim_pool_address locked u c) (tx_return ())"

fun reference_run :: "reference_call list \<Rightarrow> 'x api_db_scheme \<Rightarrow> 'x api_db_scheme" where
  "reference_run [] s = s"
| "reference_run (c # cs) s = reference_run cs (snd (atomically (reference_tx c) s))"

lemma reference_tx_step: "addr.steps (reference_tx c)"
  by (cases c) (simp_all add: addr.steps_then addr.steps_return create_user_step upsert_asset_step add_pool_address_step
      assign_deposit_address_step claim_pool_address_step)

lemma reference_run_step: "addresses_ok s \<Longrightarrow> addresses_grow s (reference_run cs s)"
proof (induction cs arbitrary: s)
  case (Cons c cs)
  have "addresses_grow s (snd (atomically (reference_tx c) s))"
  proof (cases "reference_tx c s")
    case (Inr r)
    then have "addresses_grow s (snd r)"
      by (cases r) (auto intro: addr.stepsD [OF reference_tx_step _ Cons.prems])
    then show ?thesis using Inr Cons.prems
      by (auto simp: atomically_def tx_eval addr.R_refl dest!: commit_state split: sum.splits prod.splits)
  qed (simp add: atomically_def tx_eval addr.R_refl Cons.prems)
  then show ?case using Cons.IH addr.R_trans addr.R_inv by (metis reference_run.simps(2))
qed (simp add: addr.R_refl)

lemma owner_iff:
  assumes "addresses_ok s"
  shows "owner_of_address c a s = Some u \<longleftrightarrow> (\<exists>d\<in>set (deposit_addresses s). da_chain d = c \<and> da_address d = a \<and> da_user d = u)"
proof -
  have "find (\<lambda>d. da_chain d = c \<and> da_address d = a) (deposit_addresses s) = Some d \<longleftrightarrow>
      d \<in> set (deposit_addresses s) \<and> (da_chain d, da_address d) = (c, a)" for d
    using find_key_Some [of "\<lambda>d. (da_chain d, da_address d)" "deposit_addresses s" "(c, a)" d] assms
    by (simp add: addresses_ok_def)
  then show ?thesis by (auto simp: owner_of_address_def)
qed

lemma claim_owner:
  assumes ok: "addresses_ok t" and r: "claim_pool_address locked v c t = Inr (d, t')"
  shows "owner_of_address c (da_address d) t' = Some v \<and>
    owner_of_address c (da_address d) t = (if get_deposit_address v c t = None then None else Some v)"
proof (cases "get_deposit_address v c t")
  case (Some e)
  then have "e \<in> set (deposit_addresses t) \<and> da_user e = v \<and> da_chain e = c"
    unfolding get_deposit_address_def by (auto dest: find_Some_setD)
  moreover have "d = e" "t' = t" using Some r claim_pool_address_cases [OF ok, of locked v c] by simp_all
  ultimately show ?thesis using owner_iff [OF ok, of c "da_address d" v] Some by auto
next
  case None
  then obtain p where p: "next_pool_address locked c t = Some p" and e: "(d, t') = claim_effect v p t"
    using r claim_pool_address_cases [OF ok, of locked v c] by (auto split: option.splits if_splits)
  have f: "pool_free c t p" using next_pool_address_Some [OF p] by simp
  have t': "addresses_ok t'" using addr.stepsD [OF claim_pool_address_step r ok] by (simp add: addresses_grow_def)
  have "owner_of_address c (da_address d) t = None"
    using f e by (auto simp: owner_of_address_def find_None_set pool_free_def list_ex_iff claim_effect_def Let_def)
  moreover have "owner_of_address c (da_address d) t' = Some v"
    unfolding owner_iff [OF t'] using f e by (auto simp: claim_effect_def Let_def pool_free_def)
  ultimately show ?thesis using None by simp
qed



text \<open>Two users claim; the first gets the older address, and the same one when asking again.\<close>

definition demo_api :: api_db where
  "demo_api = \<lparr>id_src = (\<lambda>n. replicate n CHR ''i''), id_next = 1, clock = 5,
     users = [\<lparr>u_id = ''u'', u_external_id = ''alice'', u_created_at = 0\<rparr>],
     assets = [\<lparr>as_id = ''x'', as_symbol = ''ETH'', as_chain = ''e'', as_contract = None, as_decimals = 18\<rparr>],
     deposit_addresses = [], accounts = [], ltransactions = [], lentries = [], outbox = [], processed = [], dead_letters = [],
     blocks = [], cursors = [], transfers = [], deposits = [], withdrawals = [], nonces = [], address_pool = []\<rparr>"

definition demo_claims :: "reference_call list" where
  "demo_claims = [CallAddPool ''e'' ''0xAA'' None, CallCreateUser ''bob'', CallAddPool ''e'' ''0xBB'' None,
     CallClaim {} ''u'' ''e'', CallClaim {} ''ii'' ''e'', CallClaim {} ''u'' ''e'']"

lemma demo_claims_eval:
  "map (\<lambda>d. (da_user d, da_address d)) (deposit_addresses (reference_run demo_claims demo_api)) = [(''u'', ''0xaa''), (''ii'', ''0xbb'')]"
  by code_simp

lemma demo_api_ok: "addresses_ok demo_api"
  by (simp add: addresses_ok_def demo_api_def inj_replicate)


end
