(* ===== verification/Api_Dto.thy ===== *)
theory Api_Dto
  imports Reference_Db
begin

text \<open>
  Request and response bodies (\<open>crates/api/src/dto.rs\<close>), keyset pagination and the balance summary. The
  columns \<open>updated_at\<close> and \<open>observed_at\<close> are not part of the modelled rows and are left out of the
  responses. Pagination is proved once, in the locale \<open>keyset\<close>, for every listing that orders by a
  unique key and continues below a cursor.
\<close>

section \<open>Pages\<close>

record pagination =
  pg_limit :: "nat option"
  pg_after :: "timestamp option"
  pg_after_id :: "uuid option"

definition uuid_nil :: uuid where
  "uuid_nil = ''00000000-0000-0000-0000-000000000000''"

definition pagination_cursor :: "pagination \<Rightarrow> (timestamp \<times> uuid) option" where
  "pagination_cursor p = map_option (\<lambda>t. (t, case pg_after_id p of Some i \<Rightarrow> i | None \<Rightarrow> uuid_nil)) (pg_after p)"

record cursor =
  cu_after :: timestamp
  cu_after_id :: uuid

record 'a page =
  items :: "'a list"
  next_cursor :: "cursor option"

text \<open>
  What every listing handler does with the rows of its query, of which it asked for one more than
  the page holds: \<open>key\<close> is the pair the query orders by.
\<close>

definition page_rows :: "('r \<Rightarrow> timestamp \<times> uuid) \<Rightarrow> nat \<Rightarrow> 'r list \<Rightarrow> 'r list \<times> cursor option" where
  "page_rows key limit fetched =
     (let has_more = limit < length fetched; rows = take limit fetched
      in (rows, if has_more \<and> rows \<noteq> [] then Some \<lparr>cu_after = fst (key (last rows)), cu_after_id = snd (key (last rows))\<rparr> else None))"

section \<open>Bodies\<close>

record user_response =
  ur_id :: uuid
  ur_external_id :: string
  ur_created_at :: timestamp

definition user_response_from :: "user \<Rightarrow> user_response" where
  "user_response_from u = \<lparr>ur_id = u_id u, ur_external_id = u_external_id u, ur_created_at = u_created_at u\<rparr>"

record deposit_address_response =
  dr_id :: uuid
  dr_user_id :: uuid
  dr_chain :: string
  dr_address :: string
  dr_created_at :: timestamp

definition deposit_address_response_new :: "deposit_address \<Rightarrow> string \<Rightarrow> deposit_address_response" where
  "deposit_address_response_new a checksummed =
     \<lparr>dr_id = da_id a, dr_user_id = da_user a, dr_chain = da_chain a, dr_address = checksummed, dr_created_at = da_created_at a\<rparr>"

record deposit_response =
  de_id :: uuid
  de_user_id :: uuid
  de_chain :: string
  de_asset :: string
  de_amount_raw :: amount
  de_amount_formatted :: string
  de_status :: string
  de_confirmations :: nat
  de_required_confirmations :: "nat option"
  de_tx_hash :: "string option"
  de_block_number :: "nat option"
  de_failure_reason :: "string option"
  de_credited_at :: "timestamp option"
  de_created_at :: timestamp

record deposit_view =
  dv_deposit :: deposit
  dv_asset_symbol :: string
  dv_asset_decimals :: nat
  dv_chain :: string
  dv_tx_hash :: "string option"
  dv_block_number :: "nat option"
  dv_required_confirmations :: "nat option"

definition deposit_response_from :: "deposit_view \<Rightarrow> deposit_response" where
  "deposit_response_from v = (let d = dv_deposit v in
     \<lparr>de_id = d_id d, de_user_id = d_user d, de_chain = dv_chain v, de_asset = dv_asset_symbol v,
      de_amount_raw = d_amount d, de_amount_formatted = format_units (d_amount d) (dv_asset_decimals v),
      de_status = deposit_status_str (d_status d), de_confirmations = d_confirmations d,
      de_required_confirmations = dv_required_confirmations v, de_tx_hash = dv_tx_hash v,
      de_block_number = dv_block_number v, de_failure_reason = d_failure_reason d,
      de_credited_at = d_credited_at d, de_created_at = d_created_at d\<rparr>)"

record withdrawal_response =
  we_id :: uuid
  we_user_id :: uuid
  we_chain :: string
  we_asset :: string
  we_amount_raw :: amount
  we_amount_formatted :: string
  we_destination :: string
  we_status :: string
  we_tx_hash :: "string option"
  we_confirmations :: nat
  we_fee_paid_raw :: "amount option"
  we_failure_code :: "string option"
  we_failure_reason :: "string option"
  we_created_at :: timestamp

definition withdrawal_response_new :: "withdrawal \<Rightarrow> string \<Rightarrow> nat \<Rightarrow> string \<Rightarrow> withdrawal_response" where
  "withdrawal_response_new w asset_symbol decimals checksummed_dest =
     \<lparr>we_id = w_id w, we_user_id = w_user w, we_chain = w_chain w, we_asset = asset_symbol,
      we_amount_raw = w_amount w, we_amount_formatted = format_units (w_amount w) decimals,
      we_destination = checksummed_dest, we_status = withdrawal_status_str (w_status w), we_tx_hash = w_tx_hash w,
      we_confirmations = w_confirmations w, we_fee_paid_raw = w_fee_paid w, we_failure_code = w_failure_code w,
      we_failure_reason = w_failure_reason w, we_created_at = w_created_at w\<rparr>"

record asset_balance =
  sb_chain :: string
  sb_asset :: string
  sb_decimals :: nat
  sb_available_raw :: amount
  sb_available_formatted :: string
  sb_reserved_raw :: amount
  sb_reserved_formatted :: string
  sb_total_raw :: amount
  sb_deficit_raw :: amount

type_synonym balance_groups = "string \<times> string \<Rightarrow> (nat \<times> amount \<times> amount \<times> amount) option"

definition group_key :: "account_balance \<Rightarrow> string \<times> string" where
  "group_key r = (ab_chain r, ab_symbol r)"

definition fold_balance :: "account_balance \<Rightarrow> balance_groups \<Rightarrow> balance_groups" where
  "fold_balance r grouped =
     (let (d, available, reserved, deficit) =
            (case grouped (group_key r) of Some e \<Rightarrow> e | None \<Rightarrow> (nat (min 36 (max 0 (ab_decimals r))), 0, 0, 0))
      in grouped(group_key r \<mapsto> (case ab_type r of
           UserAvailable \<Rightarrow> (d, ab_balance r, reserved, deficit)
         | UserReserved \<Rightarrow> (d, available, ab_balance r, deficit)
         | UserDeficit \<Rightarrow> (d, available, reserved, ab_balance r)
         | _ \<Rightarrow> (d, available, reserved, deficit))))"

definition asset_balance_of :: "string \<times> string \<Rightarrow> nat \<times> amount \<times> amount \<times> amount \<Rightarrow> asset_balance" where
  "asset_balance_of k e = (case e of (d, available, reserved, deficit) \<Rightarrow>
     \<lparr>sb_chain = fst k, sb_asset = snd k, sb_decimals = d, sb_available_raw = available,
      sb_available_formatted = format_units available d, sb_reserved_raw = reserved,
      sb_reserved_formatted = format_units reserved d,
      sb_total_raw = (case checked_add available reserved of Inr t \<Rightarrow> t | Inl _ \<Rightarrow> available), sb_deficit_raw = deficit\<rparr>)"

text \<open>The map is ordered by chain and symbol.\<close>

definition build_balances :: "account_balance list \<Rightarrow> asset_balance list" where
  "build_balances rows =
     (let grouped = fold fold_balance rows (\<lambda>_. None)
      in List.map_filter (\<lambda>k. map_option (asset_balance_of k) (grouped k)) (sort (remdups (map group_key rows))))"

record ledger_entry_view =
  lv_entry :: ledger_entry
  lv_account_type :: account_type
  lv_asset_symbol :: string
  lv_asset_decimals :: int
  lv_kind :: string
  lv_reference_type :: string
  lv_reference_id :: "uuid option"

text \<open>The joins of \<open>get_ledger_entries\<close>.\<close>

definition entry_view :: "'x ledger_db_scheme \<Rightarrow> ledger_entry \<Rightarrow> ledger_entry_view option" where
  "entry_view s e =
     (case (find (\<lambda>a. la_id a = le_account e) (accounts s), find (\<lambda>t. lt_id t = le_tx e) (ltransactions s),
            find (\<lambda>x. as_id x = le_asset e) (assets s)) of
        (Some a, Some t, Some x) \<Rightarrow> Some
          \<lparr>lv_entry = e, lv_account_type = la_type a, lv_asset_symbol = as_symbol x, lv_asset_decimals = as_decimals x,
           lv_kind = lt_kind t, lv_reference_type = lt_reference_type t, lv_reference_id = lt_reference_id t\<rparr>
      | _ \<Rightarrow> None)"

record ledger_entry_response =
  lr_id :: uuid
  lr_ledger_transaction_id :: uuid
  lr_account_type :: string
  lr_asset :: string
  lr_amount_raw :: amount
  lr_amount_formatted :: string
  lr_direction :: string
  lr_balance_after_raw :: amount
  lr_kind :: string
  lr_reference_type :: string
  lr_reference_id :: "uuid option"
  lr_created_at :: timestamp

definition ledger_entry_response_from :: "ledger_entry_view \<Rightarrow> ledger_entry_response" where
  "ledger_entry_response_from v = (let e = lv_entry v; decimals = nat (min 36 (max 0 (lv_asset_decimals v))) in
     \<lparr>lr_id = le_id e, lr_ledger_transaction_id = le_tx e, lr_account_type = account_type_str (lv_account_type v),
      lr_asset = lv_asset_symbol v, lr_amount_raw = le_amount e, lr_amount_formatted = format_units (le_amount e) decimals,
      lr_direction = direction_str (le_direction e), lr_balance_after_raw = le_balance_after e, lr_kind = lv_kind v,
      lr_reference_type = lv_reference_type v, lr_reference_id = lv_reference_id v, lr_created_at = le_created_at e\<rparr>)"

record transfer_response =
  tf_log_index :: int
  tf_block_number :: nat
  tf_block_hash :: string
  tf_from :: string
  tf_to :: string
  tf_amount_raw :: amount
  tf_status :: transfer_status

definition transfer_response_from :: "blockchain_transaction \<Rightarrow> transfer_response" where
  "transfer_response_from t =
     \<lparr>tf_log_index = bt_log_index t, tf_block_number = bt_block_number t, tf_block_hash = bt_block_hash t,
      tf_from = bt_from t, tf_to = bt_to t, tf_amount_raw = bt_amount t, tf_status = bt_status t\<rparr>"

record transaction_response =
  tn_tx_hash :: string
  tn_chain :: string
  tn_transfers :: "transfer_response list"

text \<open>The message of a rejected body, bounded like every text that goes to the log.\<close>

definition sanitize_rejection :: "string \<Rightarrow> string" where
  "sanitize_rejection t = truncate_for_log (trim t)"


section \<open>Following the cursors\<close>

text \<open>
  \<open>fetch after limit\<close> is the query of a listing, \<open>rows\<close> the rows it may return. A client that follows the
  cursors sees the rows in the order of the listing.
\<close>

definition cursor_key :: "cursor \<Rightarrow> timestamp \<times> uuid" where
  "cursor_key c = (cu_after c, cu_after_id c)"

text \<open>
  A client that asks for page after page, each time with the cursor of the page before, for at most
  \<open>n\<close> pages; \<open>None\<close> when an answer is not a page or the last one still has a cursor.
\<close>

fun follow_pages :: "nat \<Rightarrow> (pagination \<Rightarrow> 'i page option) \<Rightarrow> pagination \<Rightarrow> 'i list list option" where
  "follow_pages 0 ask p = None"
| "follow_pages (Suc n) ask p =
     (case ask p of
        None \<Rightarrow> None
      | Some g \<Rightarrow> (case next_cursor g of
          None \<Rightarrow> Some [items g]
        | Some c \<Rightarrow> map_option (Cons (items g))
            (follow_pages n ask (p\<lparr>pg_after := Some (cu_after c), pg_after_id := Some (cu_after_id c)\<rparr>))))"

lemma distinct_map_sort_key: "distinct (map f (sort_key k xs)) \<longleftrightarrow> distinct (map f xs)"
  by (rule mset_eq_imp_distinct_iff) simp

locale keyset =
  fixes key :: "'r \<Rightarrow> timestamp \<times> uuid" and rows :: "'s \<Rightarrow> 'r list"
    and fetch :: "(timestamp \<times> uuid) option \<Rightarrow> nat \<Rightarrow> 's \<Rightarrow> 'r list"
  assumes fetch_law: "fetch after n s =
    take n (rev (sort_key key (filter (\<lambda>r. case after of None \<Rightarrow> True | Some c \<Rightarrow> key r < c) (rows s))))"
begin

definition listing :: "'s \<Rightarrow> 'r list" where
  "listing s = rev (sort_key key (rows s))"

definition fetch_page :: "nat \<Rightarrow> (timestamp \<times> uuid) option \<Rightarrow> 's \<Rightarrow> 'r list \<times> cursor option" where
  "fetch_page limit after s = page_rows key limit (fetch after (Suc limit) s)"

lemma listing_sorted:
  assumes "unique_key key (rows s)"
  shows "sorted_wrt (\<lambda>a b. key b < key a) (listing s)"
proof -
  have "sorted_wrt (\<lambda>a b. key a \<le> key b) (sort_key key (rows s))"
    using sorted_sort_key [of key "rows s"] by (simp add: sorted_wrt_map)
  moreover have "distinct (map key (sort_key key (rows s)))"
    using assms by (simp only: distinct_map_sort_key unique_key_def)
  ultimately have "sorted_wrt (\<lambda>a b. key a < key b) (sort_key key (rows s))"
    by (auto simp: sorted_wrt_iff_nth_less distinct_conv_nth order.strict_iff_order)
  then show ?thesis by (simp add: listing_def sorted_wrt_rev)
qed

lemma filter_listing: "rev (sort_key key (filter P (rows s))) = filter P (listing s)"
  unfolding listing_def filter_sort [symmetric] rev_filter ..

lemma below_last:
  assumes "unique_key key (rows s)" "listing s = xs @ ys" "xs \<noteq> []"
  shows "filter (\<lambda>r. key r < key (last xs)) (listing s) = ys"
proof -
  have l: "sorted_wrt (\<lambda>a b. key b < key a) (xs @ ys)" using listing_sorted [OF assms(1)] assms(2) by simp
  have "\<not> key r < key (last xs)" if "r \<in> set xs" for r
  proof -
    have x: "xs = butlast xs @ [last xs]" using assms(3) by simp
    then have "sorted_wrt (\<lambda>a b. key b < key a) (butlast xs @ [last xs])" using l by (simp add: sorted_wrt_append)
    moreover have "r \<in> set (butlast xs @ [last xs])" using that x by simp
    ultimately show ?thesis by (auto simp: sorted_wrt_append)
  qed
  moreover have "key r < key (last xs)" if "r \<in> set ys" for r
    using l that last_in_set [OF assms(3)] by (simp add: sorted_wrt_append)
  ultimately show ?thesis using assms(2) by (simp add: filter_empty_conv)
qed

text \<open>The page from any point of the listing, and the cursor that continues it.\<close>

lemma fetch_page_exact:
  assumes "unique_key key (rows s)" "listing s = xs @ ys" "0 < limit" "after = (if xs = [] then None else Some (key (last xs)))"
  shows "fst (fetch_page limit after s) = take limit ys \<and>
    map_option cursor_key (snd (fetch_page limit after s)) =
      (if limit < length ys then Some (key (last (xs @ take limit ys))) else None)"
proof -
  have f: "fetch after (Suc limit) s = take (Suc limit) ys"
  proof (cases "xs = []")
    case True
    then show ?thesis using fetch_law [of after "Suc limit" s] assms(2,4) filter_listing [of "\<lambda>_. True" s] by simp
  next
    case False
    then have "fetch after (Suc limit) s = take (Suc limit) (filter (\<lambda>r. key r < key (last xs)) (listing s))"
      unfolding fetch_law filter_listing using assms(4) by simp
    then show ?thesis by (simp only: below_last [OF assms(1,2) False])
  qed
  moreover have "ys \<noteq> []" "take limit ys \<noteq> []" if "limit < length ys" using that assms(3) by auto
  ultimately show ?thesis using assms(3)
    by (auto simp: fetch_page_def page_rows_def cursor_key_def Let_def min_def)
qed

text \<open>Following the cursors from any point gives the rest of the listing.\<close>

lemma follow_from:
  assumes "unique_key key (rows s)" "0 < limit"
    "\<And>p. pg_limit p = req \<Longrightarrow> ask p = Some \<lparr>items = map view (fst (fetch_page limit (pagination_cursor p) s)),
       next_cursor = snd (fetch_page limit (pagination_cursor p) s)\<rparr>"
    "listing s = xs @ ys" "pg_limit p = req" "pagination_cursor p = (if xs = [] then None else Some (key (last xs)))"
    "length ys \<le> n * limit" "0 < n"
  shows "\<exists>pages. follow_pages n ask p = Some pages \<and> concat pages = map view ys"
  using assms(4-8)
proof (induction n arbitrary: xs ys p)
  case (Suc n)
  note f = fetch_page_exact [OF assms(1) Suc.prems(1) assms(2) Suc.prems(3)]
  define g where "g = fetch_page limit (pagination_cursor p) s"
  have a: "ask p = Some \<lparr>items = map view (fst g), next_cursor = snd g\<rparr>" using assms(3) [OF Suc.prems(2)] by (simp add: g_def)
  show ?case
  proof (cases "limit < length ys")
    case False
    then have "snd g = None" "fst g = ys" using f by (simp_all add: g_def)
    then show ?thesis using a by simp
  next
    case True
    then obtain c where c: "snd g = Some c" "cursor_key c = key (last (xs @ take limit ys))" and i: "fst g = take limit ys"
      using f by (auto simp: g_def)
    let ?q = "p\<lparr>pg_after := Some (cu_after c), pg_after_id := Some (cu_after_id c)\<rparr>"
    have "n \<noteq> 0" using Suc.prems(4) True by (cases n) auto
    moreover have "pagination_cursor ?q = (if xs @ take limit ys = [] then None else Some (key (last (xs @ take limit ys))))"
      using c(2) assms(2) True by (auto simp: pagination_cursor_def cursor_key_def)
    moreover have "listing s = (xs @ take limit ys) @ drop limit ys" using Suc.prems(1) by simp
    moreover have "length (drop limit ys) \<le> n * limit" using Suc.prems(4) by simp
    ultimately obtain pages where "follow_pages n ask ?q = Some pages" "concat pages = map view (drop limit ys)"
      using Suc.IH [of "xs @ take limit ys" "drop limit ys" ?q] Suc.prems(2,4) by auto
    moreover have "map view (take limit ys) @ map view (drop limit ys) = map view ys" by (metis append_take_drop_id map_append)
    ultimately show ?thesis using a c(1) i by simp
  qed
qed simp

end

section \<open>The listings\<close>

definition matches :: "'a option \<Rightarrow> 'a \<Rightarrow> bool" where
  "matches f x \<longleftrightarrow> (case f of None \<Rightarrow> True | Some y \<Rightarrow> x = y)"

definition deposit_rows :: "uuid option \<Rightarrow> deposit_status option \<Rightarrow> 'x chain_db_scheme \<Rightarrow> deposit list" where
  "deposit_rows user status s = filter (\<lambda>d. matches user (d_user d) \<and> matches status (d_status d)) (deposits s)"

definition withdrawal_rows :: "uuid option \<Rightarrow> withdrawal_status option \<Rightarrow> 'x wd_db_scheme \<Rightarrow> withdrawal list" where
  "withdrawal_rows user status s = filter (\<lambda>w. matches user (w_user w) \<and> matches status (w_status w)) (withdrawals s)"

definition statement_rows :: "uuid \<Rightarrow> 'x ledger_db_scheme \<Rightarrow> ledger_entry list" where
  "statement_rows user s = filter (\<lambda>e. \<exists>a\<in>set (accounts s). la_id a = le_account e \<and> la_owner a = Some user) (lentries s)"

lemma unique_pair: "unique_key f xs \<Longrightarrow> unique_key (\<lambda>x. (g x, f x)) xs"
  by (auto simp: unique_key_def distinct_map inj_on_def)

interpretation deposit_pages: keyset "\<lambda>d. (d_created_at d, d_id d)" "deposit_rows user status" "list_deposits user status" for user status
  by unfold_locales (simp add: list_deposits_def deposit_rows_def matches_def conj_ac)

interpretation withdrawal_pages: keyset "\<lambda>w. (w_created_at w, w_id w)" "withdrawal_rows user status" "list_withdrawals user status" for user status
  by unfold_locales (simp add: list_withdrawals_def withdrawal_rows_def matches_def conj_ac)

interpretation statement_pages: keyset "\<lambda>e. (le_created_at e, le_id e)" "statement_rows user" "statement_entries user" for user
  by unfold_locales (simp add: statement_entries_def statement_rows_def conj_ac)

lemma rows_unique:
  "unique_key d_id (deposits s) \<Longrightarrow> unique_key (\<lambda>d. (d_created_at d, d_id d)) (deposit_rows user status s)"
  "unique_key w_id (withdrawals t) \<Longrightarrow> unique_key (\<lambda>w. (w_created_at w, w_id w)) (withdrawal_rows user wstatus t)"
  "unique_key le_id (lentries r) \<Longrightarrow> unique_key (\<lambda>e. (le_created_at e, le_id e)) (statement_rows u r)"
  unfolding deposit_rows_def withdrawal_rows_def statement_rows_def by (intro unique_key_filter unique_pair; assumption)+

section \<open>Balances\<close>

definition row_value :: "account_balance list \<Rightarrow> string \<times> string \<Rightarrow> account_type \<Rightarrow> amount" where
  "row_value rows k ty = (case find (\<lambda>r. group_key r = k \<and> ab_type r = ty) rows of Some r \<Rightarrow> ab_balance r | None \<Rightarrow> 0)"

definition group_decimals :: "account_balance list \<Rightarrow> string \<times> string \<Rightarrow> nat" where
  "group_decimals rows k = (case find (\<lambda>r. group_key r = k) rows of Some r \<Rightarrow> nat (min 36 (max 0 (ab_decimals r))) | None \<Rightarrow> 0)"

text \<open>With one row per chain, symbol and account type, the fold picks each value.\<close>

lemma fold_balance_exact:
  assumes "distinct (map (\<lambda>r. (group_key r, ab_type r)) rows)"
  shows "fold fold_balance rows (\<lambda>_. None) k = (if k \<in> group_key ` set rows
    then Some (group_decimals rows k, row_value rows k UserAvailable, row_value rows k UserReserved, row_value rows k UserDeficit)
    else None)"
  using assms
proof (induction rows arbitrary: k rule: rev_induct)
  case (snoc r rows)
  have none: "find (\<lambda>x. group_key x = group_key r \<and> ab_type x = ab_type r) rows = None"
  proof -
    have "(group_key r, ab_type r) \<notin> (\<lambda>r. (group_key r, ab_type r)) ` set rows" using snoc.prems by simp
    then show ?thesis by (auto simp: find_None_set image_iff)
  qed
  have d: "group_decimals (rows @ [r]) k' = (if k' \<in> group_key ` set rows then group_decimals rows k'
      else if k' = group_key r then nat (min 36 (max 0 (ab_decimals r))) else 0)" for k'
  proof (cases "find (\<lambda>x. group_key x = k') rows")
    case None
    then have "k' \<notin> group_key ` set rows" by (auto simp: find_None_set)
    then show ?thesis by (simp add: group_decimals_def find_append None)
  next
    case (Some x)
    then have "k' \<in> group_key ` set rows" by (auto dest: find_Some_setD)
    then show ?thesis by (simp add: group_decimals_def find_append Some)
  qed
  have v: "row_value (rows @ [r]) k' ty = (if k' = group_key r \<and> ty = ab_type r then ab_balance r else row_value rows k' ty)" for k' ty
    using none by (auto simp: row_value_def find_append split: option.splits)
  have z: "k' \<notin> group_key ` set rows \<Longrightarrow> row_value rows k' ty = 0" for k' ty
    by (force simp: row_value_def split: option.splits dest: find_Some_setD)
  define g where "g = fold fold_balance rows (\<lambda>_. None)"
  have g: "g k' = (if k' \<in> group_key ` set rows
    then Some (group_decimals rows k', row_value rows k' UserAvailable, row_value rows k' UserReserved, row_value rows k' UserDeficit)
    else None)" for k'
    using snoc by (simp add: g_def)
  have "fold_balance r g k = (if k \<in> insert (group_key r) (group_key ` set rows)
    then Some (group_decimals (rows @ [r]) k, row_value (rows @ [r]) k UserAvailable, row_value (rows @ [r]) k UserReserved,
      row_value (rows @ [r]) k UserDeficit) else None)"
    unfolding d v by (cases "ab_type r"; cases "group_key r \<in> group_key ` set rows"; cases "k = group_key r")
      (simp_all add: fold_balance_def g z)
  then show ?case by (simp add: g_def)
qed simp


text \<open>What the constraints of the asset table promise.\<close>

definition assets_ok :: "'x ref_db_scheme \<Rightarrow> bool" where
  "assets_ok s \<longleftrightarrow> unique_key as_id (assets s) \<and> unique_key (\<lambda>a. (as_chain a, as_symbol a)) (assets s)"

lemma mem_balance_rows:
  "r \<in> set (balance_rows u s) \<longleftrightarrow> (\<exists>a\<in>set (accounts s). \<exists>x\<in>set (assets s). la_owner a = Some u \<and> as_id x = la_asset a \<and>
     r = \<lparr>ab_type = la_type a, ab_asset = la_asset a, ab_symbol = as_symbol x,
       ab_decimals = as_decimals x, ab_chain = as_chain x, ab_balance = la_balance a\<rparr>)"
  by (auto simp: balance_rows_def)

lemma filter_unique: "unique_key k xs \<Longrightarrow> length (filter (\<lambda>x. k x = v) xs) \<le> 1"
  by (induction xs) (auto simp: filter_empty_conv)

lemma distinct_balance_rows:
  assumes "unique_key acct_key (accounts s)" "assets_ok s"
  shows "distinct (map (\<lambda>r. (group_key r, ab_type r)) (balance_rows u s))"
proof -
  define pairs where "pairs a = map (\<lambda>x. ((as_chain x, as_symbol x), la_type a)) (filter (\<lambda>x. as_id x = la_asset a) (assets s))" for a :: ledger_account
  have "distinct (concat (map pairs (filter (\<lambda>a. la_owner a = Some u) as)))" if "unique_key acct_key as" for as
    using that
  proof (induction as)
    case (Cons a as)
    have "length (filter (\<lambda>x. as_id x = la_asset a) (assets s)) \<le> 1"
      using assms(2) by (intro filter_unique) (simp add: assets_ok_def)
    then have one: "distinct (pairs a)"
      unfolding pairs_def by (cases "filter (\<lambda>x. as_id x = la_asset a) (assets s)") auto
    have "set (pairs a) \<inter> set (pairs b) = {}" if b: "b \<in> set as" "la_owner a = Some u" "la_owner b = Some u" for b
    proof (rule ccontr)
      assume "set (pairs a) \<inter> set (pairs b) \<noteq> {}"
      then obtain x y where xy: "x \<in> set (assets s)" "y \<in> set (assets s)" "as_id x = la_asset a" "as_id y = la_asset b"
        "(as_chain x, as_symbol x) = (as_chain y, as_symbol y)" "la_type a = la_type b" by (auto simp: pairs_def)
      then have "x = y" using unique_keyD [of "\<lambda>a. (as_chain a, as_symbol a)" "assets s" x y] assms(2) by (simp add: assets_ok_def)
      then have "acct_key a = acct_key b" using xy b by (simp add: acct_key_def)
      then show False using Cons.prems b(1) by auto
    qed
    then show ?case using Cons one by auto
  qed simp
  from this [OF assms(1)] have "distinct (map (\<lambda>r. (group_key r, ab_type r)) (concat (map (\<lambda>a. map (\<lambda>x. \<lparr>ab_type = la_type a,
      ab_asset = la_asset a, ab_symbol = as_symbol x, ab_decimals = as_decimals x, ab_chain = as_chain x, ab_balance = la_balance a\<rparr>)
      (filter (\<lambda>x. as_id x = la_asset a) (assets s))) (filter (\<lambda>a. la_owner a = Some u) (accounts s)))))"
    by (simp add: map_concat comp_def group_key_def pairs_def [abs_def])
  then show ?thesis by (simp only: balance_rows_def distinct_map_sort_key)
qed

lemma row_value_balance:
  assumes "unique_key acct_key (accounts s)" "assets_ok s" "x \<in> set (assets s)" "ty \<in> {UserAvailable, UserReserved, UserDeficit}"
  shows "row_value (balance_rows u s) (as_chain x, as_symbol x) ty = balance_of s (ty, Some u, as_id x)"
proof (cases "find (\<lambda>r. group_key r = (as_chain x, as_symbol x) \<and> ab_type r = ty) (balance_rows u s)")
  case (Some r)
  then have r: "r \<in> set (balance_rows u s)" "group_key r = (as_chain x, as_symbol x)" "ab_type r = ty"
    by (auto dest: find_Some_setD)
  then obtain a y where a: "a \<in> set (accounts s)" "y \<in> set (assets s)" "la_owner a = Some u" "as_id y = la_asset a"
    "la_balance a = ab_balance r" "la_type a = ty" "(as_chain y, as_symbol y) = (as_chain x, as_symbol x)"
    unfolding mem_balance_rows by (auto simp: group_key_def)
  then have "y = x" using unique_keyD [of "\<lambda>a. (as_chain a, as_symbol a)" "assets s" y x] assms(2,3) by (simp add: assets_ok_def)
  then have "acct_key a = (ty, Some u, as_id x)" using a by (simp add: acct_key_def)
  then show ?thesis using balance_of_mem [OF assms(1) a(1)] a(5) Some by (simp add: row_value_def)
next
  case None
  have "acct_key a \<noteq> (ty, Some u, as_id x)" if "a \<in> set (accounts s)" for a
  proof
    assume "acct_key a = (ty, Some u, as_id x)"
    then have "\<lparr>ab_type = ty, ab_asset = la_asset a, ab_symbol = as_symbol x, ab_decimals = as_decimals x,
        ab_chain = as_chain x, ab_balance = la_balance a\<rparr> \<in> set (balance_rows u s)"
      unfolding mem_balance_rows using that assms(3) by (intro bexI [of _ a] bexI [of _ x]) (auto simp: acct_key_def)
    then show False using None by (force simp: find_None_set group_key_def)
  qed
  then have "find (\<lambda>a. acct_key a = (ty, Some u, as_id x)) (accounts s) = None" by (simp add: find_None_set)
  then show ?thesis using None by (simp add: row_value_def balance_of_def)
qed


lemma set_map_filter': "set (List.map_filter f xs) = {b. \<exists>x\<in>set xs. f x = Some b}"
  by (induction xs) (auto simp: List.map_filter_simps split: option.splits)

lemma balance_keys:
  "group_key ` set (balance_rows u s) = (\<lambda>x. (as_chain x, as_symbol x)) `
     {x \<in> set (assets s). \<exists>a\<in>set (accounts s). la_owner a = Some u \<and> la_asset a = as_id x}"
proof (intro subset_antisym subsetI)
  fix k assume "k \<in> group_key ` set (balance_rows u s)"
  then obtain r where "r \<in> set (balance_rows u s)" "k = group_key r" by blast
  then obtain a x where "a \<in> set (accounts s)" "x \<in> set (assets s)" "la_owner a = Some u" "la_asset a = as_id x" "k = (as_chain x, as_symbol x)"
    unfolding mem_balance_rows by (auto simp: group_key_def)
  then show "k \<in> (\<lambda>x. (as_chain x, as_symbol x)) ` {x \<in> set (assets s). \<exists>a\<in>set (accounts s). la_owner a = Some u \<and> la_asset a = as_id x}"
    by blast
next
  fix k assume "k \<in> (\<lambda>x. (as_chain x, as_symbol x)) ` {x \<in> set (assets s). \<exists>a\<in>set (accounts s). la_owner a = Some u \<and> la_asset a = as_id x}"
  then obtain a x where ax: "a \<in> set (accounts s)" "x \<in> set (assets s)" "la_owner a = Some u" "as_id x = la_asset a" "k = (as_chain x, as_symbol x)"
    by auto
  let ?r = "\<lparr>ab_type = la_type a, ab_asset = la_asset a, ab_symbol = as_symbol x, ab_decimals = as_decimals x,
    ab_chain = as_chain x, ab_balance = la_balance a\<rparr>"
  have "?r \<in> set (balance_rows u s)" unfolding mem_balance_rows using ax(1-4) by blast
  moreover have "group_key ?r = k" using ax(5) by (simp add: group_key_def)
  ultimately show "k \<in> group_key ` set (balance_rows u s)" by blast
qed

lemma build_balances_exact:
  assumes "unique_key acct_key (accounts s)" "assets_ok s"
  shows "set (build_balances (balance_rows u s)) =
    (\<lambda>x. asset_balance_of (as_chain x, as_symbol x) (decimals_u8 x, balance_of s (UserAvailable, Some u, as_id x),
       balance_of s (UserReserved, Some u, as_id x), balance_of s (UserDeficit, Some u, as_id x))) `
    {x \<in> set (assets s). \<exists>a\<in>set (accounts s). la_owner a = Some u \<and> la_asset a = as_id x}"
proof -
  let ?rows = "balance_rows u s" and ?has = "\<lambda>x. \<exists>a\<in>set (accounts s). la_owner a = Some u \<and> la_asset a = as_id x"
  note keys = balance_keys [of u s]
  have dec: "group_decimals ?rows (as_chain x, as_symbol x) = decimals_u8 x" if x: "x \<in> set (assets s)" "?has x" for x
  proof (cases "find (\<lambda>r. group_key r = (as_chain x, as_symbol x)) ?rows")
    case None
    moreover have "(as_chain x, as_symbol x) \<in> group_key ` set ?rows" unfolding keys using x by blast
    ultimately show ?thesis by (auto simp: find_None_set)
  next
    case (Some r)
    then have r: "r \<in> set ?rows" "group_key r = (as_chain x, as_symbol x)" by (auto dest: find_Some_setD)
    then obtain y where y: "y \<in> set (assets s)" "(as_chain y, as_symbol y) = (as_chain x, as_symbol x)" "ab_decimals r = as_decimals y"
      unfolding mem_balance_rows by (auto simp: group_key_def)
    then have "y = x" using unique_keyD [of "\<lambda>a. (as_chain a, as_symbol a)" "assets s" y x] assms(2) x(1) by (simp add: assets_ok_def)
    then show ?thesis using Some y(3) by (simp add: group_decimals_def decimals_u8_def)
  qed
  have val: "fold fold_balance ?rows (\<lambda>_. None) (as_chain x, as_symbol x) = Some (decimals_u8 x, balance_of s (UserAvailable, Some u, as_id x),
       balance_of s (UserReserved, Some u, as_id x), balance_of s (UserDeficit, Some u, as_id x))"
    if x: "x \<in> set (assets s)" "?has x" for x
  proof -
    have "(as_chain x, as_symbol x) \<in> group_key ` set ?rows" unfolding keys using x by blast
    then show ?thesis using fold_balance_exact [OF distinct_balance_rows [OF assms]] dec [OF x] row_value_balance [OF assms x(1)] by simp
  qed
  have "set (build_balances ?rows) = {b. \<exists>k\<in>group_key ` set ?rows. map_option (asset_balance_of k) (fold fold_balance ?rows (\<lambda>_. None) k) = Some b}"
    unfolding build_balances_def Let_def set_map_filter' by simp
  also have "\<dots> = {b. \<exists>x\<in>set (assets s). ?has x \<and> b = asset_balance_of (as_chain x, as_symbol x) (decimals_u8 x, balance_of s (UserAvailable, Some u, as_id x),
       balance_of s (UserReserved, Some u, as_id x), balance_of s (UserDeficit, Some u, as_id x))}"
    unfolding keys using val by fastforce
  finally show ?thesis by blast
qed

end
