(* ===== verification/Db_Access.thy ===== *)
theory Db_Access
  imports Withdrawal_Db Actions
begin

text \<open>
  How the database layer reports failures (\<open>crates/database/src/error.rs\<close>) and runs a closure in a
  transaction that is retried on serialisation failures (\<open>crates/database/src/lib.rs\<close>). The driver's error
  is a datatype with what the code reads of it; what the driver prints is a field.
\<close>

section \<open>Splitting text\<close>

definition rsplit_once :: "string \<Rightarrow> string \<Rightarrow> (string \<times> string) option" where
  "rsplit_once p s = map_option (\<lambda>(a, b). (rev b, rev a)) (split_once (rev p) (rev s))"

section \<open>Driver errors\<close>

record db_error =
  db_code :: "string option"
  db_constraint :: "string option"
  db_message :: string
  db_text :: string

datatype sqlx_error = RowNotFound | PoolTimedOut | Io string | DatabaseError db_error | OtherSqlx string

definition UNIQUE_VIOLATION :: string where "UNIQUE_VIOLATION = ''23505''"
definition CHECK_VIOLATION :: string where "CHECK_VIOLATION = ''23514''"
definition FOREIGN_KEY_VIOLATION :: string where "FOREIGN_KEY_VIOLATION = ''23503''"
definition RESTRICT_VIOLATION :: string where "RESTRICT_VIOLATION = ''23001''"
definition SERIALIZATION_FAILURE :: string where "SERIALIZATION_FAILURE = ''40001''"
definition DEADLOCK_DETECTED :: string where "DEADLOCK_DETECTED = ''40P01''"
definition LOCK_NOT_AVAILABLE :: string where "LOCK_NOT_AVAILABLE = ''55P03''"
definition QUERY_CANCELED :: string where "QUERY_CANCELED = ''57014''"

lemmas sqlstates = UNIQUE_VIOLATION_def CHECK_VIOLATION_def FOREIGN_KEY_VIOLATION_def RESTRICT_VIOLATION_def
  SERIALIZATION_FAILURE_def DEADLOCK_DETECTED_def LOCK_NOT_AVAILABLE_def QUERY_CANCELED_def

definition parse_transition :: "string \<Rightarrow> string \<times> string" where
  "parse_transition message =
     (let after = (case split_once ''transition '' message of Some (_, r) \<Rightarrow> r | None \<Rightarrow> message);
          head = (case split_once '' ('' after of Some (l, _) \<Rightarrow> l | None \<Rightarrow> after)
      in case split_once '' -> '' head of
           Some (f, t) \<Rightarrow> (trim f, trim t)
         | None \<Rightarrow> (''unknown'', ''unknown''))"

definition unique_conflict :: "string \<Rightarrow> string" where
  "unique_conflict c =
     (if c = ''users_external_id_key'' then ''a user with that external_id exists''
      else if c = ''deposit_addresses_chain_address_key'' then ''that deposit address is already assigned''
      else if c = ''deposit_addresses_user_chain_key'' then ''user already has a deposit address on that chain''
      else if c = ''blockchain_transactions_natural_key'' then ''transfer already observed''
      else if c = ''deposits_blockchain_transaction_key'' then ''deposit already exists for that transfer''
      else if c = ''withdrawals_idempotency_key'' then ''idempotency key already used''
      else if c = ''ledger_transactions_idempotency_key'' then ''ledger transaction already posted''
      else if c = ''chain_blocks_canonical_height_key'' then ''another block is already canonical at that height; orphan it first''
      else if c = ''outbox_event_id_key'' then ''event already enqueued''
      else if c = ''assets_chain_symbol_key'' \<or> c = ''assets_chain_contract_key'' then ''asset already registered on that chain''
      else ''unique constraint violated: '' @ c)"

definition check_violation :: "string \<Rightarrow> string \<Rightarrow> error" where
  "check_violation c message =
     (if c = ''ledger_accounts_non_negative'' then InsufficientBalance ''insufficient'' ''requested''
      else if contains ''does not balance'' message
      then UnbalancedLedgerTransaction (case rsplit_once ''= '' message of Some (_, n) \<Rightarrow> n | None \<Rightarrow> ''unknown'')
      else if contains ''double-entry requires'' message then UnbalancedLedgerTransaction ''single-sided''
      else if contains ''illegal withdrawal transition'' message
      then (case parse_transition message of (a, b) \<Rightarrow> InvalidStateTransition ''withdrawal'' a b)
      else Validation (''check constraint violated: '' @ c))"

definition map_db_error :: "db_error \<Rightarrow> error" where
  "map_db_error db =
     (let code = (case db_code db of Some c \<Rightarrow> c | None \<Rightarrow> []);
          cons = (case db_constraint db of Some c \<Rightarrow> c | None \<Rightarrow> []);
          message = db_message db
      in if code = UNIQUE_VIOLATION then Conflict (unique_conflict cons)
         else if code = CHECK_VIOLATION then check_violation cons message
         else if code = FOREIGN_KEY_VIOLATION
         then Validation (''referenced row does not exist ('' @ (if cons = [] then ''foreign key'' else cons) @ '')'')
         else if code = RESTRICT_VIOLATION \<and> contains ''append-only'' message
         then Internal ''attempted to mutate append-only ledger history''
         else if code \<in> {SERIALIZATION_FAILURE, DEADLOCK_DETECTED, LOCK_NOT_AVAILABLE}
         then Database (''transient conflict ('' @ code @ ''), retry the transaction'')
         else if code = QUERY_CANCELED then Timeout 0
         else Database (db_text db))"

fun map_sqlx :: "sqlx_error \<Rightarrow> error" where
  "map_sqlx RowNotFound = NotFound ''row''"
| "map_sqlx PoolTimedOut = Unavailable ''database connection pool exhausted''"
| "map_sqlx (DatabaseError db) = map_db_error db"
| "map_sqlx (Io t) = Database t"
| "map_sqlx (OtherSqlx t) = Database t"

fun is_transient :: "sqlx_error \<Rightarrow> bool" where
  "is_transient PoolTimedOut = True"
| "is_transient (Io _) = True"
| "is_transient (DatabaseError db) =
     (db_code db \<in> {Some SERIALIZATION_FAILURE, Some DEADLOCK_DETECTED, Some LOCK_NOT_AVAILABLE})"
| "is_transient _ = False"

section \<open>A retried transaction\<close>

text \<open>
  \<open>begin\<close>, \<open>f\<close> and \<open>commit\<close> are given per attempt, since what they meet may differ: whether a connection is
  there, what the closure does with the state of its attempt, and how the commit ends. The result is
  the value, the state, and the number of the last attempt.
\<close>

record ('s, 'a) attempts =
  at_begin :: "nat \<Rightarrow> sqlx_error option"
  at_body :: "nat \<Rightarrow> ('s, 'a) db_tx"
  at_commit :: "nat \<Rightarrow> sqlx_error option"

fun text_says_transient :: "error \<Rightarrow> bool" where
  "text_says_transient (Database m) = contains ''transient'' m"
| "text_says_transient _ = False"

function transaction_from :: "nat \<Rightarrow> nat \<Rightarrow> ('s, 'a) attempts \<Rightarrow> 's \<Rightarrow> 'a res \<times> 's \<times> nat" where
  "transaction_from max_attempts n env s =
     (let attempt = Suc n in
      case at_begin env attempt of
        Some e \<Rightarrow> (Inl (map_sqlx e), s, attempt)
      | None \<Rightarrow>
          (case at_body env attempt s of
             Inr (a, s') \<Rightarrow>
               (case at_commit env attempt of
                  None \<Rightarrow> (Inr a, s', attempt)
                | Some e \<Rightarrow> if is_transient e \<and> attempt < max_attempts then transaction_from max_attempts attempt env s
                            else (Inl (map_sqlx e), s, attempt))
           | Inl e \<Rightarrow> if text_says_transient e \<and> attempt < max_attempts then transaction_from max_attempts attempt env s
                      else (Inl e, s, attempt)))"
  by pat_completeness auto
termination by (relation "measure (\<lambda>(m, n, _). m - n)") auto

declare transaction_from.simps [simp del]

definition transaction :: "nat \<Rightarrow> ('s, 'a) attempts \<Rightarrow> 's \<Rightarrow> 'a res \<times> 's \<times> nat" where
  "transaction max_attempts env s = transaction_from max_attempts 0 env s"

section \<open>Facts\<close>

lemma contains_starts: "starts_with p s \<Longrightarrow> contains p s"
  by (cases s) (simp_all add: starts_with_def)

lemma contains_prefix: "contains p (p @ s)"
  by (rule contains_starts) (simp add: starts_with_def)

lemma contains_skip: "contains p s \<Longrightarrow> contains p (t @ s)"
  by (induction t) simp_all

text \<open>What may be retried verbatim is reported as retryable, and the retry loop recognises it by its text.\<close>

lemma transient_is_retryable: "is_transient e \<Longrightarrow> is_retryable (map_sqlx e)"
  by (cases e rule: is_transient.cases) (auto simp: map_db_error_def sqlstates)

lemma transient_text:
  "is_transient (DatabaseError db) \<Longrightarrow> text_says_transient (map_sqlx (DatabaseError db))"
  by (auto simp: map_db_error_def sqlstates starts_with_def)


lemma split_once_first: "h \<notin> set x \<Longrightarrow> split_once (h # p) (x @ (h # p) @ y) = Some (x, y)"
  by (induction x) (auto simp: starts_with_def)

lemma status_text: "CHR '' '' \<notin> set (withdrawal_status_str a)" "trim (withdrawal_status_str a) = withdrawal_status_str a"
  "\<not> starts_with ''('' (withdrawal_status_str a @ x)"
  by (cases a; simp add: trim_def is_ws_def starts_with_def)+

text \<open>The message of the trigger reads back: the error names the two statuses of the refused transition.\<close>

definition transition_message :: "withdrawal_status \<Rightarrow> withdrawal_status \<Rightarrow> uuid \<Rightarrow> string" where
  "transition_message a b i = ''illegal withdrawal transition '' @ withdrawal_status_str a @ '' -> '' @
     withdrawal_status_str b @ '' (withdrawal '' @ i @ '')''"

lemma parse_transition_message:
  "parse_transition (transition_message a b i) = (withdrawal_status_str a, withdrawal_status_str b)"
proof -
  let ?r = "withdrawal_status_str a @ '' -> '' @ withdrawal_status_str b @ '' (withdrawal '' @ i @ '')''"
  let ?h = "withdrawal_status_str a @ '' -> '' @ withdrawal_status_str b"
  have 1: "split_once ''transition '' (transition_message a b i) = Some (''illegal withdrawal '', ?r)"
    by (simp add: transition_message_def starts_with_def)
  have 2: "split_once '' ('' (x @ '' -> '' @ y @ '' (withdrawal '' @ i @ '')'') = Some (x @ '' -> '' @ y, ''withdrawal '' @ i @ '')'')"
    if "CHR '' '' \<notin> set x" "CHR '' '' \<notin> set y" "\<not> starts_with ''('' (y @ '' (withdrawal '' @ i @ '')'')" for x y
  proof -
    have "split_once '' ('' (y @ '' (withdrawal '' @ i @ '')'') = Some (y, ''withdrawal '' @ i @ '')'')"
      using split_once_first [OF that(2), of "''(''" "''withdrawal '' @ i @ '')''"] by simp
    then show ?thesis using that(1,3) by (induction x) (auto simp: starts_with_def)
  qed
  note 2 = 2 [OF status_text(1) status_text(1) status_text(3), of a b]
  have 3: "split_once '' -> '' ?h = Some (withdrawal_status_str a, withdrawal_status_str b)"
    using split_once_first [OF status_text(1) [of a], of "''-> ''" "withdrawal_status_str b"] by simp
  show ?thesis unfolding parse_transition_def Let_def using 1 2 3 by (simp add: status_text(2))
qed

section \<open>The retry loop\<close>

definition transient_attempt :: "('s, 'a) attempts \<Rightarrow> 's \<Rightarrow> nat \<Rightarrow> bool" where
  "transient_attempt env s n \<longleftrightarrow> at_begin env n = None \<and>
     (case at_body env n s of Inl e \<Rightarrow> text_says_transient e | Inr _ \<Rightarrow> (\<exists>e. at_commit env n = Some e \<and> is_transient e))"

lemma transaction_from_exact:
  assumes "transaction_from m n env s = (r, t, k)"
  shows "n < k \<and> k \<le> max (Suc n) m \<and> (\<forall>i. n < i \<and> i < k \<longrightarrow> transient_attempt env s i) \<and>
    (case r of Inr a \<Rightarrow> at_begin env k = None \<and> at_body env k s = Inr (a, t) \<and> at_commit env k = None
             | Inl e \<Rightarrow> t = s \<and> (k < m \<longrightarrow> \<not> transient_attempt env s k))"
  using assms
proof (induction "m - n" arbitrary: n rule: less_induct)
  case less
  show ?case
  proof (cases "transient_attempt env s (Suc n) \<and> Suc n < m")
    case True
    then have "transaction_from m (Suc n) env s = (r, t, k)"
      using less.prems transaction_from.simps [of m n env s] by (auto simp: transient_attempt_def Let_def split: sum.splits)
    moreover have "m - Suc n < m - n" using True by linarith
    moreover have "i = Suc n \<or> Suc n < i" if "n < i" for i using that by linarith
    ultimately show ?thesis using less.hyps [of "Suc n"] True by auto
  next
    case False
    then show ?thesis using less.prems transaction_from.simps [of m n env s]
      by (auto simp: transient_attempt_def Let_def split: sum.splits option.splits if_splits)
  qed
qed


text \<open>
  A retried transaction ends after at most the configured number of attempts, at least one; every
  attempt before the last failed with a transient conflict; and the state is the one the last
  attempt committed, or untouched.
\<close>

lemma transaction_exact:
  assumes "transaction m env s = (r, t, k)"
  shows "1 \<le> k \<and> k \<le> max 1 m \<and> (\<forall>i. 1 \<le> i \<and> i < k \<longrightarrow> transient_attempt env s i) \<and>
    (case r of Inr a \<Rightarrow> at_body env k s = Inr (a, t) \<and> at_commit env k = None
             | Inl e \<Rightarrow> t = s \<and> (k < m \<longrightarrow> \<not> transient_attempt env s k))"
  using transaction_from_exact [OF assms [unfolded transaction_def]]
  by (auto simp: Suc_le_eq split: sum.splits)

end
