(* ===== verification/Api_Routes.thy ===== *)
theory Api_Routes
  imports Api_Base Api_Dto Db_Access Withdrawal_Pipeline Evm_Client Integrity
begin

text \<open>
  The handlers of the HTTP API (\<open>crates/api/src/routes.rs\<close>), the application state with its readiness
  report and the registration of assets at boot (\<open>state.rs\<close>), and the router with its layers
  (\<open>lib.rs\<close>). A handler is an action on the database; its error becomes a response in one place, as
  \<open>.api(&ctx)?\<close> does at every call. \<open>api_env\<close> holds what the process holds beside the database: the
  configuration, the hashes, the answers of the health checks. Extracting a body from JSON is the
  parameter of a request that has one: the rejection text, or the value.
\<close>

section \<open>Application state\<close>

record api_env =
  en_cfg :: app_config
  en_keccak :: "nat list \<Rightarrow> nat list"
  en_digest :: "string \<Rightarrow> string"
  en_v5 :: "string \<Rightarrow> uuid"
  en_risk :: risk_engine
  en_metrics :: "string option"
  en_version :: string
  en_openapi :: string
  en_uptime :: nat
  en_signer_backend :: string
  en_signer_production_grade :: bool
  en_ping :: "unit res"
  en_bus_health :: "unit res"
  en_gateways :: "(string \<times> rpc_gateway) list"
  en_now :: nat
  en_busy :: "string \<Rightarrow> nat \<Rightarrow> nat"

text \<open>\<open>u32::clamp\<close> panics when the lower bound exceeds the upper one: \<open>None\<close>.\<close>

definition clamp_page :: "nat \<Rightarrow> nat \<Rightarrow> nat \<Rightarrow> nat option" where
  "clamp_page n lo hi = (if hi < lo then None else Some (min hi (max lo n)))"

definition page_size :: "http_config \<Rightarrow> nat option \<Rightarrow> nat option" where
  "page_size http requested =
     clamp_page (case requested of Some n \<Rightarrow> n | None \<Rightarrow> hc_default_page_size http) 1 (hc_max_page_size http)"

definition native_symbol_for :: "string \<Rightarrow> string" where
  "native_symbol_for chain =
     (if starts_with ''bsc'' chain \<or> contains ''binance'' chain then ''BNB''
      else if starts_with ''polygon'' chain then ''POL'' else ''ETH'')"

text \<open>A statement outside a transaction commits by itself.\<close>

definition act_stmt :: "('s, 'a) db_tx \<Rightarrow> ('s, 'a) act" where
  "act_stmt m s = (case m s of Inl e \<Rightarrow> (Inl e, s) | Inr (a, s') \<Rightarrow> (Inr a, s'))"

definition sync_chain :: "chain_config \<Rightarrow> ('x ref_db_scheme, unit) act" where
  "sync_chain c =
     act_bind (act_fold (\<lambda>a _. act_bind
         (act_stmt (upsert_asset (ch_id c) (ac_symbol a) (ac_contract_address a) (ac_decimals a))) (\<lambda>_. act_return ()))
       (ch_assets c) ())
     (\<lambda>_. if list_all (\<lambda>a. ac_contract_address a \<noteq> None) (ch_assets c)
           then act_bind (act_stmt (upsert_asset (ch_id c) (native_symbol_for (ch_id c)) None 18)) (\<lambda>_. act_return ())
           else act_return ())"

definition sync_assets :: "app_config \<Rightarrow> ('x ref_db_scheme, unit) act" where
  "sync_assets cfg = act_fold (\<lambda>c _. sync_chain c) (cfg_chains cfg) ()"

record dependency_status =
  ds_ok :: bool
  ds_required :: bool
  ds_detail :: "string option"

record chain_status =
  cs_chain :: string
  cs_rpc_available :: bool
  cs_endpoints :: "endpoint_status list"

record readiness =
  rd_ready :: bool
  rd_database :: dependency_status
  rd_event_bus :: dependency_status
  rd_chains :: "chain_status list"

definition dependency :: "bool \<Rightarrow> unit res \<Rightarrow> dependency_status" where
  "dependency needed r = (case r of
     Inr _ \<Rightarrow> \<lparr>ds_ok = True, ds_required = needed, ds_detail = None\<rparr>
   | Inl e \<Rightarrow> \<lparr>ds_ok = False, ds_required = needed, ds_detail = Some (error_display e)\<rparr>)"

definition readiness_of :: "api_env \<Rightarrow> readiness" where
  "readiness_of env =
     (let database = dependency True (en_ping env); event_bus = dependency False (en_bus_health env)
      in \<lparr>rd_ready = ds_ok database, rd_database = database, rd_event_bus = event_bus,
          rd_chains = map (\<lambda>(chain, gw). \<lparr>cs_chain = chain, cs_rpc_available = gateway_is_available (en_now env) gw,
            cs_endpoints = gateway_status (en_now env) (en_busy env chain) gw\<rparr>) (en_gateways env)\<rparr>)"

section \<open>Replies\<close>

record health_response =
  hr_status :: string
  hr_service :: string
  hr_version :: string
  hr_environment :: string
  hr_uptime_seconds :: nat
  hr_signer_backend :: string
  hr_signer_production_grade :: bool

datatype api_body =
    BodyUser user_response
  | BodyDepositAddress deposit_address_response
  | BodyDeposits "deposit_response page"
  | BodyDeposit deposit_response
  | BodyTransaction transaction_response
  | BodyBalances uuid "asset_balance list"
  | BodyLedger "ledger_entry_response page"
  | BodyWithdrawal withdrawal_response
  | BodyWithdrawals "withdrawal_response page"
  | BodyHealth health_response
  | BodyReady readiness
  | BodyText string string
  | BodyReport integrity_report
  | BodyError error_detail

text \<open>A handler answers, or it panics and the connection is dropped.\<close>

datatype reply = Reply nat api_body | Panicked

definition checksum :: "api_env \<Rightarrow> string \<Rightarrow> chain_kind \<Rightarrow> string" where
  "checksum env stored_lowercase kind =
     (case address_parse (en_keccak env) kind stored_lowercase of Inr a \<Rightarrow> a | Inl _ \<Rightarrow> stored_lowercase)"

definition valid_json :: "string + 'b \<Rightarrow> 'b res" where
  "valid_json body = (case body of Inl rejection \<Rightarrow> Inl (Validation (sanitize_rejection rejection)) | Inr b \<Rightarrow> Inr b)"

section \<open>Users and deposit addresses\<close>

definition route_create_user :: "string + string \<Rightarrow> ('x api_db_scheme, reply) act" where
  "route_create_user body = act_bind (act_lift (valid_json body)) (\<lambda>raw.
     let external_id = trim raw
     in if external_id = [] \<or> 128 < length external_id
        then act_lift (Inl (Validation ''external_id must be 1..=128 characters''))
        else act_bind (act_query (tx_read (get_user_by_external_id external_id))) (\<lambda>existed.
             act_bind (act_stmt (create_user external_id)) (\<lambda>user.
             act_return (Reply (if existed \<noteq> None then 200 else 201) (BodyUser (user_response_from user))))))"

definition route_get_user :: "uuid \<Rightarrow> ('x api_db_scheme, reply) act" where
  "route_get_user user_id = act_bind (act_query (get_user user_id)) (\<lambda>u. act_return (Reply 200 (BodyUser (user_response_from u))))"

definition chain_or_unsupported :: "api_env \<Rightarrow> string \<Rightarrow> chain_config res" where
  "chain_or_unsupported env chain = (case cfg_chain (en_cfg env) chain of None \<Rightarrow> Inl (UnsupportedChain chain) | Some c \<Rightarrow> Inr c)"

definition route_create_deposit_address ::
  "api_env \<Rightarrow> uuid set \<Rightarrow> string + (uuid \<times> string) \<Rightarrow> ('x api_db_scheme, reply) act" where
  "route_create_deposit_address env locked body = act_bind (act_lift (valid_json body)) (\<lambda>(user_id, chain).
     act_bind (act_lift (chain_or_unsupported env chain)) (\<lambda>chain_cfg.
     act_bind (act_query (get_user user_id)) (\<lambda>_.
     act_bind (act_query (tx_read (get_deposit_address user_id chain))) (\<lambda>existing.
     case existing of
       Some d \<Rightarrow> act_return (Reply 200 (BodyDepositAddress
         (deposit_address_response_new d (checksum env (da_address d) (ch_kind chain_cfg)))))
     | None \<Rightarrow> act_bind (atomically (claim_pool_address locked user_id chain)) (\<lambda>d.
         act_return (Reply 201 (BodyDepositAddress
           (deposit_address_response_new d (checksum env (da_address d) (ch_kind chain_cfg))))))))))"

definition route_get_deposit_address :: "api_env \<Rightarrow> uuid \<Rightarrow> string \<Rightarrow> ('x api_db_scheme, reply) act" where
  "route_get_deposit_address env user_id chain = act_bind (act_lift (chain_or_unsupported env chain)) (\<lambda>chain_cfg.
     act_bind (act_query (tx_read (get_deposit_address user_id chain))) (\<lambda>addr.
     case addr of
       None \<Rightarrow> act_lift (Inl (NotFound ''deposit address''))
     | Some d \<Rightarrow> act_return (Reply 200 (BodyDepositAddress
         (deposit_address_response_new d (checksum env (da_address d) (ch_kind chain_cfg)))))))"

section \<open>Deposits and transfers\<close>

record listing_filter =
  lf_user_id :: "uuid option"
  lf_status :: "string option"
  lf_page :: pagination

definition deposit_view_of :: "api_env \<Rightarrow> 'x api_db_scheme \<Rightarrow> deposit \<Rightarrow> deposit_view res" where
  "deposit_view_of env s d = (case get_asset_by_id (d_asset d) s of
     Inl e \<Rightarrow> Inl e
   | Inr (asset, _) \<Rightarrow>
       let transfer = find (\<lambda>t. bt_id t = d_btx d) (transfers s);
           confirmations_needed = (case cfg_chain (en_cfg env) (as_chain asset) of None \<Rightarrow> None | Some c \<Rightarrow> required_confirmations (ch_finality c))
       in Inr \<lparr>dv_deposit = d, dv_asset_symbol = as_symbol asset, dv_asset_decimals = decimals_u8 asset, dv_chain = as_chain asset,
               dv_tx_hash = map_option bt_tx_hash transfer, dv_block_number = map_option bt_block_number transfer,
               dv_required_confirmations = confirmations_needed\<rparr>)"

definition parse_filter :: "(string \<Rightarrow> 'a res) \<Rightarrow> string option \<Rightarrow> 'a option res" where
  "parse_filter parse status = res_option parse status"

definition act_reading :: "('s \<Rightarrow> 'a res) \<Rightarrow> ('s, 'a) act" where
  "act_reading f s = (f s, s)"

definition route_list_deposits :: "api_env \<Rightarrow> listing_filter \<Rightarrow> ('x api_db_scheme, reply) act" where
  "route_list_deposits env f = act_bind (act_lift (parse_filter deposit_status_from_str (lf_status f))) (\<lambda>status.
     case page_size (cfg_http (en_cfg env)) (pg_limit (lf_page f)) of
       None \<Rightarrow> act_return Panicked
     | Some limit \<Rightarrow>
         act_bind (act_query (tx_read (list_deposits (lf_user_id f) status (pagination_cursor (lf_page f)) (Suc limit)))) (\<lambda>fetched.
           case page_rows (\<lambda>d. (d_created_at d, d_id d)) limit fetched of (rows, next) \<Rightarrow>
           act_bind (act_reading (\<lambda>s. res_map (deposit_view_of env s) rows)) (\<lambda>views.
           act_return (Reply 200 (BodyDeposits \<lparr>items = map deposit_response_from views, next_cursor = next\<rparr>)))))"

definition route_get_deposit :: "api_env \<Rightarrow> uuid \<Rightarrow> ('x api_db_scheme, reply) act" where
  "route_get_deposit env i = act_bind (act_query (get_deposit i)) (\<lambda>d.
     act_bind (act_reading (\<lambda>s. deposit_view_of env s d)) (\<lambda>v. act_return (Reply 200 (BodyDeposit (deposit_response_from v)))))"

definition route_get_transaction :: "string \<Rightarrow> ('x api_db_scheme, reply) act" where
  "route_get_transaction raw = act_bind (act_lift (hash32_parse raw)) (\<lambda>hash.
     act_bind (act_query (tx_read (get_transfer_by_hash hash))) (\<lambda>ts.
     case ts of
       [] \<Rightarrow> act_lift (Inl (NotFound ''transaction''))
     | t # _ \<Rightarrow> act_return (Reply 200 (BodyTransaction
         \<lparr>tn_tx_hash = hash, tn_chain = bt_chain t, tn_transfers = map transfer_response_from ts\<rparr>))))"

section \<open>Balances and the ledger\<close>

definition route_get_balances :: "uuid \<Rightarrow> ('x api_db_scheme, reply) act" where
  "route_get_balances user_id = act_bind (act_query (get_user user_id)) (\<lambda>_.
     act_bind (act_query (get_balances user_id)) (\<lambda>rows. act_return (Reply 200 (BodyBalances user_id (build_balances rows)))))"

definition route_get_ledger :: "api_env \<Rightarrow> uuid \<Rightarrow> pagination \<Rightarrow> ('x api_db_scheme, reply) act" where
  "route_get_ledger env user_id p = act_bind (act_query (get_user user_id)) (\<lambda>_.
     case page_size (cfg_http (en_cfg env)) (pg_limit p) of
       None \<Rightarrow> act_return Panicked
     | Some limit \<Rightarrow>
         act_bind (act_query (tx_read (\<lambda>s. List.map_filter (entry_view s) (statement_entries user_id (pagination_cursor p) (Suc limit) s)))) (\<lambda>fetched.
           case page_rows (\<lambda>v. (le_created_at (lv_entry v), le_id (lv_entry v))) limit fetched of (rows, next) \<Rightarrow>
           act_return (Reply 200 (BodyLedger \<lparr>items = map ledger_entry_response_from rows, next_cursor = next\<rparr>))))"

section \<open>Withdrawals\<close>

record create_withdrawal_request =
  cw_user_id :: uuid
  cw_chain :: string
  cw_asset :: string
  cw_amount :: amount
  cw_destination :: string
  cw_idempotency_key :: string

definition withdrawal_response_of :: "api_env \<Rightarrow> 'x api_db_scheme \<Rightarrow> withdrawal \<Rightarrow> withdrawal_response res" where
  "withdrawal_response_of env s w = (case get_asset_by_id (w_asset w) s of
     Inl e \<Rightarrow> Inl e
   | Inr (asset, _) \<Rightarrow>
       let kind = (case cfg_chain (en_cfg env) (w_chain w) of Some c \<Rightarrow> ch_kind c | None \<Rightarrow> Evm)
       in Inr (withdrawal_response_new w (as_symbol asset) (decimals_u8 asset) (checksum env (w_destination w) kind)))"

definition answer_withdrawal :: "api_env \<Rightarrow> nat \<Rightarrow> withdrawal \<Rightarrow> ('x api_db_scheme, reply) act" where
  "answer_withdrawal env status w =
     act_bind (act_reading (\<lambda>s. withdrawal_response_of env s w)) (\<lambda>r. act_return (Reply status (BodyWithdrawal r)))"

definition route_create_withdrawal ::
  "api_env \<Rightarrow> request_context \<Rightarrow> string + create_withdrawal_request \<Rightarrow> ('x api_db_scheme, reply) act" where
  "route_create_withdrawal env ctx body = act_bind (act_lift (valid_json body)) (\<lambda>b.
     act_bind (create (en_keccak env) (en_digest env) (en_v5 env) (en_cfg env) (en_risk env) (rc_correlation_id ctx)
       \<lparr>wr_user = cw_user_id b, wr_chain = cw_chain b, wr_asset_symbol = cw_asset b, wr_amount = cw_amount b,
        wr_destination = cw_destination b, wr_idempotency_key = cw_idempotency_key b, wr_correlation = Some (rc_correlation_id ctx)\<rparr>)
     (\<lambda>result. answer_withdrawal env (if create_is_new result then 201 else 200) (create_result_withdrawal result)))"

definition route_get_withdrawal :: "api_env \<Rightarrow> uuid \<Rightarrow> ('x api_db_scheme, reply) act" where
  "route_get_withdrawal env i = act_bind (act_query (get_withdrawal i)) (answer_withdrawal env 200)"

definition route_list_withdrawals :: "api_env \<Rightarrow> listing_filter \<Rightarrow> ('x api_db_scheme, reply) act" where
  "route_list_withdrawals env f = act_bind (act_lift (parse_filter withdrawal_status_from_str (lf_status f))) (\<lambda>status.
     case page_size (cfg_http (en_cfg env)) (pg_limit (lf_page f)) of
       None \<Rightarrow> act_return Panicked
     | Some limit \<Rightarrow>
         act_bind (act_query (tx_read (list_withdrawals (lf_user_id f) status (pagination_cursor (lf_page f)) (Suc limit)))) (\<lambda>fetched.
           case page_rows (\<lambda>w. (w_created_at w, w_id w)) limit fetched of (rows, next) \<Rightarrow>
           act_bind (act_reading (\<lambda>s. res_map (withdrawal_response_of env s) rows)) (\<lambda>views.
           act_return (Reply 200 (BodyWithdrawals \<lparr>items = views, next_cursor = next\<rparr>)))))"

definition route_cancel_withdrawal :: "api_env \<Rightarrow> uuid \<Rightarrow> ('x api_db_scheme, reply) act" where
  "route_cancel_withdrawal env i = act_bind (cancel i ''cancelled via API'') (answer_withdrawal env 200)"

definition route_approve_withdrawal :: "api_env \<Rightarrow> uuid \<Rightarrow> ('x api_db_scheme, reply) act" where
  "route_approve_withdrawal env i = act_bind (approve i) (answer_withdrawal env 200)"

section \<open>Operational endpoints\<close>

definition route_health :: "api_env \<Rightarrow> ('x api_db_scheme, reply) act" where
  "route_health env = act_return (Reply 200 (BodyHealth
     \<lparr>hr_status = ''ok'', hr_service = cfg_service_name (en_cfg env), hr_version = en_version env,
      hr_environment = cfg_environment (en_cfg env), hr_uptime_seconds = en_uptime env,
      hr_signer_backend = en_signer_backend env, hr_signer_production_grade = en_signer_production_grade env\<rparr>))"

definition route_ready :: "api_env \<Rightarrow> ('x api_db_scheme, reply) act" where
  "route_ready env = (let r = readiness_of env in act_return (Reply (if rd_ready r then 200 else 503) (BodyReady r)))"

definition route_metrics :: "api_env \<Rightarrow> ('x api_db_scheme, reply) act" where
  "route_metrics env = act_return (case en_metrics env of
     Some m \<Rightarrow> Reply 200 (BodyText ''text/plain; version=0.0.4'' m)
   | None \<Rightarrow> Reply 503 (BodyText ''text/plain'' ''metrics recorder not installed''))"

definition route_ledger_integrity :: "('x api_db_scheme, reply) act" where
  "route_ledger_integrity = act_bind (act_query verify_ledger_integrity) (\<lambda>report.
     act_return (Reply (if report_is_clean report then 200 else 500) (BodyReport report)))"


section \<open>The router\<close>

text \<open>One constructor per route, with what its extractors give: path segments, query, body.\<close>

datatype api_request =
    ReqCreateUser "string + string"
  | ReqGetUser uuid
  | ReqCreateDepositAddress "string + (uuid \<times> string)"
  | ReqGetDepositAddress uuid string
  | ReqListDeposits listing_filter
  | ReqGetDeposit uuid
  | ReqGetTransaction string
  | ReqGetBalances uuid
  | ReqGetLedger uuid pagination
  | ReqCreateWithdrawal "string + create_withdrawal_request"
  | ReqListWithdrawals listing_filter
  | ReqGetWithdrawal uuid
  | ReqCancelWithdrawal uuid
  | ReqApproveWithdrawal uuid
  | ReqHealth
  | ReqReady
  | ReqMetrics
  | ReqLedgerIntegrity
  | ReqOpenApi

fun under_v1 :: "api_request \<Rightarrow> bool" where
  "under_v1 ReqHealth = False"
| "under_v1 ReqReady = False"
| "under_v1 ReqMetrics = False"
| "under_v1 ReqLedgerIntegrity = False"
| "under_v1 ReqOpenApi = False"
| "under_v1 _ = True"

fun handle :: "api_env \<Rightarrow> request_context \<Rightarrow> uuid set \<Rightarrow> api_request \<Rightarrow> ('x api_db_scheme, reply) act" where
  "handle env ctx locked (ReqCreateUser b) = route_create_user b"
| "handle env ctx locked (ReqGetUser i) = route_get_user i"
| "handle env ctx locked (ReqCreateDepositAddress b) = route_create_deposit_address env locked b"
| "handle env ctx locked (ReqGetDepositAddress i c) = route_get_deposit_address env i c"
| "handle env ctx locked (ReqListDeposits f) = route_list_deposits env f"
| "handle env ctx locked (ReqGetDeposit i) = route_get_deposit env i"
| "handle env ctx locked (ReqGetTransaction h) = route_get_transaction h"
| "handle env ctx locked (ReqGetBalances i) = route_get_balances i"
| "handle env ctx locked (ReqGetLedger i p) = route_get_ledger env i p"
| "handle env ctx locked (ReqCreateWithdrawal b) = route_create_withdrawal env ctx b"
| "handle env ctx locked (ReqListWithdrawals f) = route_list_withdrawals env f"
| "handle env ctx locked (ReqGetWithdrawal i) = route_get_withdrawal env i"
| "handle env ctx locked (ReqCancelWithdrawal i) = route_cancel_withdrawal env i"
| "handle env ctx locked (ReqApproveWithdrawal i) = route_approve_withdrawal env i"
| "handle env ctx locked ReqHealth = route_health env"
| "handle env ctx locked ReqReady = route_ready env"
| "handle env ctx locked ReqMetrics = route_metrics env"
| "handle env ctx locked ReqLedgerIntegrity = route_ledger_integrity"
| "handle env ctx locked ReqOpenApi = act_return (Reply 200 (BodyText ''application/json'' (en_openapi env)))"

definition error_reply :: "api_error \<Rightarrow> reply" where
  "error_reply a = (case into_response a of (status, d) \<Rightarrow> Reply status (BodyError d))"

definition respond :: "string \<Rightarrow> reply res \<times> 's \<Rightarrow> reply \<times> 's" where
  "respond request_id r = (case r of (Inr a, s) \<Rightarrow> (a, s) | (Inl e, s) \<Rightarrow> (error_reply (api_error_new e request_id), s))"

text \<open>
  What a connection brings: headers, the peer, the identifier that would be generated, whether the
  token bucket admits the request, and the pool rows other claims hold.
\<close>

record arrival =
  ar_headers :: headers
  ar_peer :: "string option"
  ar_fresh_id :: string
  ar_admitted :: bool
  ar_locked :: "uuid set"

definition context_of :: "arrival \<Rightarrow> request_context" where
  "context_of a = from_parts (ar_fresh_id a) (ar_headers a) (ar_peer a)"

text \<open>
  The layers in the order of the router: context, rate limit, and on \<open>/v1\<close> the token. The limit on the
  size of a body and the timeout are layers of the HTTP library.
\<close>

definition router :: "api_env \<Rightarrow> arrival \<Rightarrow> api_request \<Rightarrow> 'x api_db_scheme \<Rightarrow> (reply \<times> headers) \<times> 'x api_db_scheme" where
  "router env a req s =
     (let ctx = context_of a; request_id = rc_request_id ctx;
          (r, s') = (case rate_limit_layer (ar_admitted a) request_id of
             Some e \<Rightarrow> (error_reply e, s)
           | None \<Rightarrow>
               (case (if under_v1 req then auth_layer (hc_api_token (cfg_http (en_cfg env))) (ar_headers a) request_id else None) of
                  Some e \<Rightarrow> (error_reply e, s)
                | None \<Rightarrow> respond request_id (handle env ctx (ar_locked a) req s)))
      in ((r, [(REQUEST_ID_HEADER, request_id)]), s'))"

end
