(* ===== verification/Api_Spec.thy ===== *)
theory Api_Spec
  imports Api_Routes Withdrawal_Spec
begin

text \<open>
  What the HTTP API promises as a whole: who gets past its layers and what a request may change, that
  the cursors of a listing reach every row once, and that the balances it reports are those of the
  ledger.
\<close>

section \<open>Reading changes nothing\<close>

fun writes :: "api_request \<Rightarrow> bool" where
  "writes (ReqCreateUser _) = True"
| "writes (ReqCreateDepositAddress _) = True"
| "writes (ReqCreateWithdrawal _) = True"
| "writes (ReqCancelWithdrawal _) = True"
| "writes (ReqApproveWithdrawal _) = True"
| "writes _ = False"

definition pure :: "('s, 'a) act \<Rightarrow> bool" where
  "pure m \<longleftrightarrow> (\<forall>s. snd (m s) = s)"

lemma pure_rules:
  "pure (act_return a)" "pure (act_lift r)" "pure (act_query q)" "pure (act_reading f)"
  by (simp_all add: pure_def act_return_def act_lift_def act_query_def act_reading_def split: sum.splits prod.splits)

lemma pure_bind: "pure m \<Longrightarrow> (\<And>a. pure (f a)) \<Longrightarrow> pure (act_bind m f)"
  unfolding pure_def act_bind_def by (auto split: sum.splits prod.splits) (metis snd_conv)+

lemma pure_option: "pure m \<Longrightarrow> (\<And>y. pure (f y)) \<Longrightarrow> pure (case x of None \<Rightarrow> m | Some y \<Rightarrow> f y)"
  by (cases x) simp_all

lemma pure_list: "pure m \<Longrightarrow> (\<And>y ys. pure (f y ys)) \<Longrightarrow> pure (case xs of [] \<Rightarrow> m | y # ys \<Rightarrow> f y ys)"
  by (cases xs) simp_all

lemma pure_prod: "(\<And>x y. pure (f x y)) \<Longrightarrow> pure (case p of (x, y) \<Rightarrow> f x y)"
  by (cases p) simp

lemma handle_pure: "\<not> writes req \<Longrightarrow> pure (handle env ctx locked req)"
  by (cases req) (simp_all add: route_get_user_def route_get_deposit_address_def route_list_deposits_def route_get_deposit_def
      route_get_transaction_def route_get_balances_def route_get_ledger_def route_get_withdrawal_def route_list_withdrawals_def
      route_health_def route_ready_def route_metrics_def route_ledger_integrity_def answer_withdrawal_def Let_def
      pure_rules pure_bind pure_option pure_list pure_prod)

section \<open>The layers\<close>

definition authorised :: "api_env \<Rightarrow> arrival \<Rightarrow> bool" where
  "authorised env a \<longleftrightarrow> (case hc_api_token (cfg_http (en_cfg env)) of None \<Rightarrow> True
     | Some t \<Rightarrow> header_text (ar_headers a) ''authorization'' = Some (''Bearer '' @ t))"

lemma auth_layer_None: "auth_layer (hc_api_token (cfg_http (en_cfg env))) (ar_headers a) i = None \<longleftrightarrow> authorised env a"
  by (cases "hc_api_token (cfg_http (en_cfg env))") (simp_all add: auth_layer_def authorised_def token_ok_iff, simp add: token_ok_def)

definition refusal :: "nat \<Rightarrow> error \<Rightarrow> string \<Rightarrow> reply" where
  "refusal status e i = error_reply \<lparr>ae_status = status, ae_inner = e, ae_request_id = i\<rparr>"

lemma router_refused:
  assumes "\<not> (ar_admitted a \<and> (under_v1 req \<longrightarrow> authorised env a))"
  shows "router env a req s = ((if \<not> ar_admitted a then refusal 429 RateLimited (rc_request_id (context_of a))
    else refusal 401 (Validation ''missing or invalid credentials'') (rc_request_id (context_of a)),
    [(''x-request-id'', rc_request_id (context_of a))]), s)"
proof -
  have "auth_layer (hc_api_token (cfg_http (en_cfg env))) (ar_headers a) i = Some (unauthorized i)" if "\<not> authorised env a" for i
    using auth_layer_None [of env a i] that by (simp add: auth_layer_def split: if_splits)
  then show ?thesis using assms
    by (auto simp: router_def Let_def rate_limit_layer_def refusal_def unauthorized_def REQUEST_ID_HEADER_def)
qed

lemma router_handled:
  assumes "ar_admitted a \<and> (under_v1 req \<longrightarrow> authorised env a)"
  shows "router env a req s = (let (r, t) = respond (rc_request_id (context_of a)) (handle env (context_of a) (ar_locked a) req s)
    in ((r, [(''x-request-id'', rc_request_id (context_of a))]), t))"
  using assms auth_layer_None [of env a]
  by (auto simp: router_def Let_def rate_limit_layer_def REQUEST_ID_HEADER_def split: prod.splits)

text \<open>
  C35: The layers of the API. A request that the rate limit does not admit is answered 429, and a \<open>/v1\<close>
  request without exactly the configured bearer token 401, and neither changes the database; every
  other request is handled. Only creating a user, a deposit address or a withdrawal and approving or
  cancelling one may change it. The request identifier that every answer echoes is short and free
  of characters that could forge a log line. When the handler fails with an error that is not the
  client's, the answer is the same for every error of that code, so it shows nothing of the error's text.
\<close>

theorem router_exact:
  assumes "id_safe (ar_fresh_id a)"
  shows "let i = rc_request_id (context_of a); ((r, h), t) = router env a req s;
             (result, t') = handle env (context_of a) (ar_locked a) req s in
    h = [(''x-request-id'', i)] \<and> id_safe i \<and>
    (if \<not> ar_admitted a then r = refusal 429 RateLimited i \<and> t = s
     else if under_v1 req \<and> \<not> authorised env a then r = refusal 401 (Validation ''missing or invalid credentials'') i \<and> t = s
     else t = t' \<and> (case result of Inr a \<Rightarrow> r = a
       | Inl e \<Rightarrow> r = error_reply (api_error_new e i) \<and>
           (\<forall>e'. \<not> is_client_error e \<and> error_code e' = error_code e \<longrightarrow> r = error_reply (api_error_new e' i)))) \<and>
    (t \<noteq> s \<longrightarrow> writes req)"
proof -
  let ?i = "rc_request_id (context_of a)"
  obtain result t' where h: "handle env (context_of a) (ar_locked a) req s = (result, t')" by fastforce
  have 1: "id_safe ?i" using from_parts_safe [OF assms] by (simp add: context_of_def)
  have 2: "t' = s" if "\<not> writes req"
    using handle_pure [OF that, where ?env = env and ?ctx = "context_of a" and ?locked = "ar_locked a"] h unfolding pure_def by (metis snd_conv)
  have 3: "error_reply (api_error_new e ?i) = error_reply (api_error_new e' ?i)"
    if "\<not> is_client_error e" "error_code e' = error_code e" for e e'
    using server_response_opaque [OF that(1), of e' ?i] that(2) by (simp add: error_reply_def)
  show ?thesis
  proof (cases "ar_admitted a \<and> (under_v1 req \<longrightarrow> authorised env a)")
    case True
    note r = router_handled [OF True, of s]
    have "ar_admitted a = True" "(under_v1 req \<and> \<not> authorised env a) = False" using True by simp_all
    note c = this
    show ?thesis
    proof (cases result)
      case (Inl e)
      have "\<forall>e'. \<not> is_client_error e \<and> error_code e' = error_code e \<longrightarrow> error_reply (api_error_new e ?i) = error_reply (api_error_new e' ?i)"
        using 3 by blast
      moreover have "router env a req s = ((error_reply (api_error_new e ?i), [(''x-request-id'', ?i)]), t')"
        using r h Inl by (simp add: respond_def)
      ultimately show ?thesis using 1 2 c
        by (simp only: Let_def h Inl prod.case sum.case if_False not_True_eq_False) blast
    next
      case (Inr b)
      then show ?thesis using r h c 1 2 by (simp add: respond_def) blast
    qed
  next
    case False
    then show ?thesis using router_refused [OF False, of s] h 1 by auto
  qed
qed


definition demo_env :: "string option \<Rightarrow> api_env" where
  "demo_env token = \<lparr>en_cfg = demo_cfg\<lparr>cfg_http := (cfg_http demo_cfg)\<lparr>hc_api_token := token\<rparr>\<rparr>, en_keccak = (\<lambda>_. replicate 32 0),
     en_digest = (\<lambda>k. k), en_v5 = (\<lambda>k. k), en_risk = risk_engine_new (cfg_risk demo_cfg), en_metrics = None, en_version = ''0.1'',
     en_openapi = [], en_uptime = 1, en_signer_backend = ''mock'', en_signer_production_grade = False, en_ping = Inr (),
     en_bus_health = Inr (), en_gateways = [], en_now = 0, en_busy = (\<lambda>_ _. 0)\<rparr>"

definition demo_arrival :: "headers \<Rightarrow> arrival" where
  "demo_arrival h = \<lparr>ar_headers = h, ar_peer = None, ar_fresh_id = ''id-1'', ar_admitted = True, ar_locked = {}\<rparr>"

text \<open>A wrong token is refused with the identifier the client sent, stripped of its line break; the right one creates the user.\<close>

lemma demo_refused:
  "authorised (demo_env (Some ''key'')) (demo_arrival [(''authorization'', ''Bearer kez''), (''x-request-id'', ''a!b'')]) = False"
  "rc_request_id (context_of (demo_arrival [(''authorization'', ''Bearer kez''), (''x-request-id'', ''a!b'')])) = ''ab''"
  by code_simp+

theorem router_exact_witness:
  "let a = demo_arrival [(''authorization'', ''Bearer kez''), (''x-request-id'', ''a!b'')] in
     router (demo_env (Some ''key'')) a (ReqCreateUser (Inr ''bob'')) demo_api =
       ((refusal 401 (Validation ''missing or invalid credentials'') ''ab'', [(''x-request-id'', ''ab'')]), demo_api) \<and>
     length (users (snd (router (demo_env None) a (ReqCreateUser (Inr ''bob'')) demo_api))) = 2"
proof -
  let ?a = "demo_arrival [(''authorization'', ''Bearer kez''), (''x-request-id'', ''a!b'')]"
  have f: "id_safe (ar_fresh_id ?a)" by code_simp
  have "length (users (snd (router (demo_env None) ?a (ReqCreateUser (Inr ''bob'')) demo_api))) = 2" by code_simp
  moreover have "ar_admitted ?a" by (simp add: demo_arrival_def)
  moreover obtain r h t where r: "router (demo_env (Some ''key'')) ?a (ReqCreateUser (Inr ''bob'')) demo_api = ((r, h), t)"
    by (metis surj_pair)
  ultimately show ?thesis
    using router_exact [OF f, where env = "demo_env (Some ''key'')" and req = "ReqCreateUser (Inr ''bob'')" and s = demo_api] demo_refused r
    by (auto simp: Let_def split: prod.splits)
qed

section \<open>Listings\<close>

fun deposits_page :: "reply res \<Rightarrow> deposit_response page option" where
  "deposits_page (Inr (Reply _ (BodyDeposits p))) = Some p"
| "deposits_page _ = None"

fun withdrawals_page :: "reply res \<Rightarrow> withdrawal_response page option" where
  "withdrawals_page (Inr (Reply _ (BodyWithdrawals p))) = Some p"
| "withdrawals_page _ = None"

definition ask_deposits :: "api_env \<Rightarrow> uuid option \<Rightarrow> deposit_status option \<Rightarrow> 'x api_db_scheme \<Rightarrow> pagination \<Rightarrow> deposit_response page option" where
  "ask_deposits env user status s p = deposits_page (fst (route_list_deposits env
     \<lparr>lf_user_id = user, lf_status = map_option deposit_status_str status, lf_page = p\<rparr> s))"

definition ask_withdrawals :: "api_env \<Rightarrow> uuid option \<Rightarrow> withdrawal_status option \<Rightarrow> 'x api_db_scheme \<Rightarrow> pagination \<Rightarrow> withdrawal_response page option" where
  "ask_withdrawals env user status s p = withdrawals_page (fst (route_list_withdrawals env
     \<lparr>lf_user_id = user, lf_status = map_option withdrawal_status_str status, lf_page = p\<rparr> s))"

lemma parse_filter_deposit: "parse_filter deposit_status_from_str (map_option deposit_status_str status) = Inr status"
  by (cases status) (simp_all add: parse_filter_def res_option_def deposit_codec.decode_encode)

lemma parse_filter_withdrawal: "parse_filter withdrawal_status_from_str (map_option withdrawal_status_str status) = Inr status"
  by (cases status) (simp_all add: parse_filter_def res_option_def withdrawal_codec.decode_encode)

lemma res_map_total: "(\<And>x. x \<in> set xs \<Longrightarrow> f x = Inr (g x)) \<Longrightarrow> res_map f xs = Inr (map g xs)"
  by (induction xs) simp_all

lemma known_asset_found: "i \<in> as_id ` set (assets s) \<Longrightarrow> \<exists>x. get_asset_by_id i s = Inr (x, s)"
  by (auto simp: get_asset_by_id_def find_None_set split: option.splits)

lemma page_subset: "set (fst (page_rows key limit xs)) \<subseteq> set xs"
  by (auto simp: page_rows_def Let_def dest: in_set_takeD)

lemma list_deposits_subset: "set (list_deposits user status after n s) \<subseteq> set (deposits s)"
  by (auto simp: list_deposits_def dest: in_set_takeD)

lemma list_withdrawals_subset: "set (list_withdrawals user status after n s) \<subseteq> set (withdrawals s)"
  by (auto simp: list_withdrawals_def dest: in_set_takeD)

definition deposit_item :: "api_env \<Rightarrow> 'x api_db_scheme \<Rightarrow> deposit \<Rightarrow> deposit_response" where
  "deposit_item env s d = deposit_response_from (projr (deposit_view_of env s d))"

definition withdrawal_item :: "api_env \<Rightarrow> 'x api_db_scheme \<Rightarrow> withdrawal \<Rightarrow> withdrawal_response" where
  "withdrawal_item env s w = projr (withdrawal_response_of env s w)"

lemma ask_deposits_page:
  assumes "\<forall>d\<in>set (deposits s). d_asset d \<in> as_id ` set (assets s)" "page_size (cfg_http (en_cfg env)) (pg_limit p) = Some limit"
  shows "ask_deposits env user status s p = Some
    \<lparr>items = map (deposit_item env s) (fst (deposit_pages.fetch_page user status limit (pagination_cursor p) s)),
     next_cursor = snd (deposit_pages.fetch_page user status limit (pagination_cursor p) s)\<rparr>"
proof -
  let ?g = "page_rows (\<lambda>d. (d_created_at d, d_id d)) limit (list_deposits user status (pagination_cursor p) (Suc limit) s)"
  have "deposit_view_of env s d = Inr (projr (deposit_view_of env s d))" if "d \<in> set (fst ?g)" for d
    using known_asset_found [of "d_asset d" s] assms(1) that page_subset list_deposits_subset
    by (fastforce simp: deposit_view_of_def Let_def)
  then have "res_map (deposit_view_of env s) (fst ?g) = Inr (map (\<lambda>d. projr (deposit_view_of env s d)) (fst ?g))"
    by (rule res_map_total)
  then show ?thesis using assms(2)
    by (simp add: ask_deposits_def route_list_deposits_def parse_filter_deposit act_eval tx_eval act_reading_def
        deposit_pages.fetch_page_def deposit_item_def split_def comp_def)
qed

lemma ask_withdrawals_page:
  assumes "\<forall>w\<in>set (withdrawals s). w_asset w \<in> as_id ` set (assets s)" "page_size (cfg_http (en_cfg env)) (pg_limit p) = Some limit"
  shows "ask_withdrawals env user status s p = Some
    \<lparr>items = map (withdrawal_item env s) (fst (withdrawal_pages.fetch_page user status limit (pagination_cursor p) s)),
     next_cursor = snd (withdrawal_pages.fetch_page user status limit (pagination_cursor p) s)\<rparr>"
proof -
  let ?g = "page_rows (\<lambda>w. (w_created_at w, w_id w)) limit (list_withdrawals user status (pagination_cursor p) (Suc limit) s)"
  have "withdrawal_response_of env s w = Inr (withdrawal_item env s w)" if "w \<in> set (fst ?g)" for w
    using known_asset_found [of "w_asset w" s] assms(1) that page_subset list_withdrawals_subset
    by (fastforce simp: withdrawal_response_of_def withdrawal_item_def Let_def)
  then have "res_map (withdrawal_response_of env s) (fst ?g) = Inr (map (withdrawal_item env s) (fst ?g))"
    by (rule res_map_total)
  then show ?thesis using assms(2)
    by (simp add: ask_withdrawals_def route_list_withdrawals_def parse_filter_withdrawal act_eval tx_eval act_reading_def
        withdrawal_pages.fetch_page_def split_def)
qed

text \<open>
  C36: Cursors reach every row once. Whatever page size a client asks for, following the cursors of the
  deposit listing, or of the withdrawal listing, ends after as many pages as the rows fill, and the pages
  put together are the rows of the filter, each exactly once, newest first, whatever ties the creation
  times have.
\<close>

theorem pages_complete:
  assumes "unique_key d_id (deposits s)" "\<forall>d\<in>set (deposits s). d_asset d \<in> as_id ` set (assets s)"
    "unique_key w_id (withdrawals s)" "\<forall>w\<in>set (withdrawals s). w_asset w \<in> as_id ` set (assets s)"
    "page_size (cfg_http (en_cfg env)) req = Some limit" "0 < n"
    "length (deposit_rows user ds s) \<le> n * limit" "length (withdrawal_rows user ws s) \<le> n * limit"
  shows "let first = \<lparr>pg_limit = req, pg_after = None, pg_after_id = None\<rparr> in
    (\<exists>pages. follow_pages n (ask_deposits env user ds s) first = Some pages \<and>
      concat pages = map (deposit_item env s) (rev (sort_key (\<lambda>d. (d_created_at d, d_id d)) (deposit_rows user ds s)))) \<and>
    (\<exists>pages. follow_pages n (ask_withdrawals env user ws s) first = Some pages \<and>
      concat pages = map (withdrawal_item env s) (rev (sort_key (\<lambda>w. (w_created_at w, w_id w)) (withdrawal_rows user ws s))))"
proof -
  let ?first = "\<lparr>pg_limit = req, pg_after = None, pg_after_id = None\<rparr>"
  have l: "0 < limit" using assms(5) by (auto simp: page_size_def clamp_page_def split: if_splits option.splits)
  have "\<exists>pages. follow_pages n (ask_deposits env user ds s) ?first = Some pages \<and>
      concat pages = map (deposit_item env s) (deposit_pages.listing user ds s)"
    using assms by (intro deposit_pages.follow_from [where xs = "[]" and req = req, OF rows_unique(1) l])
      (simp_all add: ask_deposits_page deposit_pages.listing_def pagination_cursor_def)
  moreover have "\<exists>pages. follow_pages n (ask_withdrawals env user ws s) ?first = Some pages \<and>
      concat pages = map (withdrawal_item env s) (withdrawal_pages.listing user ws s)"
    using assms by (intro withdrawal_pages.follow_from [where xs = "[]" and req = req, OF rows_unique(2) l])
      (simp_all add: ask_withdrawals_page withdrawal_pages.listing_def pagination_cursor_def)
  ultimately show ?thesis by (simp add: deposit_pages.listing_def withdrawal_pages.listing_def)
qed


text \<open>Two deposits of the same instant on pages of one row.\<close>

definition demo_deposit :: "uuid \<Rightarrow> deposit" where
  "demo_deposit i = \<lparr>d_id = i, d_user = ''u'', d_btx = i, d_asset = ''x'', d_amount = 7, d_confirmations = 0, d_status = DObserved,
     d_ledger_tx = None, d_reversal_tx = None, d_failure_reason = None, d_credited_at = None, d_created_at = 3\<rparr>"

definition demo_listed :: api_db where
  "demo_listed = demo_api\<lparr>deposits := [demo_deposit ''a'', demo_deposit ''b'']\<rparr>"

lemma demo_listed_eval:
  "map de_id (map (deposit_item (demo_env None) demo_listed)
     (rev (sort_key (\<lambda>d. (d_created_at d, d_id d)) (deposit_rows None None demo_listed)))) = [''b'', ''a'']"
  by code_simp

theorem pages_complete_witness:
  "\<exists>pages. follow_pages 2 (ask_deposits (demo_env None) None None demo_listed) \<lparr>pg_limit = Some 5, pg_after = None, pg_after_id = None\<rparr> = Some pages \<and>
     map de_id (concat pages) = [''b'', ''a'']"
proof -
  have "unique_key d_id (deposits demo_listed)" "\<forall>d\<in>set (deposits demo_listed). d_asset d \<in> as_id ` set (assets demo_listed)"
    "unique_key w_id (withdrawals demo_listed)" "\<forall>w\<in>set (withdrawals demo_listed). w_asset w \<in> as_id ` set (assets demo_listed)"
    "page_size (cfg_http (en_cfg (demo_env None))) (Some 5) = Some 1" "0 < (2 :: nat)"
    "length (deposit_rows None None demo_listed) \<le> 2 * 1" "length (withdrawal_rows None None demo_listed) \<le> 2 * 1"
    by code_simp+
  from pages_complete [OF this] obtain pages where
    "follow_pages 2 (ask_deposits (demo_env None) None None demo_listed) \<lparr>pg_limit = Some 5, pg_after = None, pg_after_id = None\<rparr> = Some pages"
    "concat pages = map (deposit_item (demo_env None) demo_listed)
      (rev (sort_key (\<lambda>d. (d_created_at d, d_id d)) (deposit_rows None None demo_listed)))" unfolding Let_def by blast
  then show ?thesis using demo_listed_eval by (intro exI [of _ pages]) (simp only: simp_thms)
qed

section \<open>Balances\<close>

text \<open>The balances endpoint reports the ledger: one entry per asset the user has an account in, with the balances of its accounts.\<close>

lemma balances_reported:
  assumes "ledger_inv s" "assets_ok s" "list_all (\<lambda>r. in_i128 (ab_balance r)) (balance_rows u s)" "user_exists u s"
  shows "\<exists>bs. fst (route_get_balances u s) = Inr (Reply 200 (BodyBalances u bs)) \<and> set bs =
    (\<lambda>x. asset_balance_of (as_chain x, as_symbol x) (decimals_u8 x, balance_of s (UserAvailable, Some u, as_id x),
       balance_of s (UserReserved, Some u, as_id x), balance_of s (UserDeficit, Some u, as_id x))) `
    {x \<in> set (assets s). \<exists>a\<in>set (accounts s). la_owner a = Some u \<and> la_asset a = as_id x}"
proof -
  have "\<exists>v. get_user u s = Inr (v, s)" using assms(4) by (auto simp: get_user_def user_exists_def list_ex_iff find_None_set split: option.splits)
  then have "fst (route_get_balances u s) = Inr (Reply 200 (BodyBalances u (build_balances (balance_rows u s))))"
    using assms(3) by (auto simp: route_get_balances_def act_eval get_balances_def)
  then show ?thesis using build_balances_exact [OF _ assms(2), of u] assms(1) by (simp add: ledger_inv_def ledger_core_defs)
qed

end
