(* ===== verification/Spec2Isabelle.thy ===== *)
theory Spec2Isabelle
  imports Reorg_Spec Integrity Config Withdrawal_More Withdrawal_Live Evm_Adapter Signer_Backends Api_Spec
begin

text \<open>
  \<^bold>\<open>ChainRail\<close>, a custodial deposit and withdrawal backend: it watches chains for transfers to its
  users' addresses, credits them in a double-entry ledger once they are final, undoes the credit when
  the chain reorganises, and pays withdrawals out of a hot wallet. This library models the Rust
  crates under \<open>src/crates/\<close>, with the constraints and triggers of \<open>src/migrations/\<close>, as executable
  functions, and proves what the components promise and what they guarantee together.

  \<^bold>\<open>How code becomes definitions.\<close> A pure function is a function. A function that takes a
  database transaction is a value of type \<open>('s, 'a) db_tx\<close>, from a state to an error or a result with
  the next state; \<open>atomically\<close> runs it as a transaction that is committed, with the deferred checks of
  the schema, or rolled back. A function that runs several transactions and calls the network is an
  \<open>act\<close>, which keeps what was committed when it fails. Rows are records, tables lists of rows, one
  record per group of tables, each extending the one below (\<open>ref_db\<close>, \<open>ledger_db\<close>, \<open>outbox_db\<close>,
  \<open>chain_db\<close>, \<open>wd_db\<close>, and \<open>wd_net\<close>, which also has the transactions sent to the network). Errors
  are the constructors of the program's \<open>Error\<close>. Amounts are integers with the bounds of \<open>i128\<close>
  checked where the code checks them; heights, nonces and counters are natural numbers with the
  saturation or wrap-around written out where the code has it. Randomness, hashes (Keccak, SHA-256,
  UUID v5), nodes, signing backends and the message bus are parameters; the identifiers the database
  generates come from an injective supply in the state.

  \<^bold>\<open>The theories, from the bottom up.\<close>

  \<^item> \<^bold>\<open>Prelude, Text, Tx_Steps, Actions\<close>: generic lemmas on lists, the transaction and action
    monads, printing and parsing of numbers, and two locales that components share: \<open>text_codec\<close> (a
    printed value reads back) and \<open>tx_steps\<close> (a relation between states that every transaction of a
    component keeps; its rules for sequencing, branching and loops, and in \<open>Actions\<close> those for actions,
    are proved once).
  \<^item> \<^bold>\<open>Money, Errors, Retry, Chain_Types, Events\<close>: \<open>common/src\<close>: amounts and their parsers, the
    error type, backoff, chain identifiers, addresses and finality, events with their topics and keys.
  \<^item> \<^bold>\<open>Config\<close>: \<open>common/src/config.rs\<close>, every section and the boot validation, against a declarative
    predicate.
  \<^item> \<^bold>\<open>Models\<close>: \<open>database/src/models.rs\<close>: rows and status machines, as interpretations of
    \<open>status_machine\<close> and \<open>terminal_machine\<close>.
  \<^item> \<^bold>\<open>Posting, Ledger, Ledger_Inv, Ledger_Ops, Ledger_Run, Ledger_Spec, Integrity\<close>: the \<open>ledger\<close> crate:
    postings and validation, accounts, idempotent posting with the balance trigger and the commit check,
    the nine operations, each an interpretation of \<open>posting_operation\<close>, the integrity and solvency
    queries. \<open>ledger_inv\<close> is the invariant, \<open>abs_ledger\<close> the abstract ledger that the operations refine.
  \<^item> \<^bold>\<open>Delivery\<close>: outbox and dead letters of the database, the relay, the consumer loop and the
    claim-then-act wrapper of \<open>events\<close>, over the locale \<open>event_bus\<close>.
  \<^item> \<^bold>\<open>Chain_Db, Deposit_Engine, Deposit_Inv, Deposit_Run, Deposit_Spec\<close>: block lineage, cursors,
    transfers and deposits; persisting scans, confirming, crediting. \<open>Deposit_Run\<close> shows that every step
    keeps \<open>chain_inv\<close> and the agreement of ledger and deposits.
  \<^item> \<^bold>\<open>Reorg, Reorg_Spec\<close>: \<open>deposits/src/reorg.rs\<close> and \<open>watcher.rs\<close>: the search for the common ancestor,
    recovery, cold start and the tick.
  \<^item> \<^bold>\<open>Risk\<close>: \<open>risk/src/lib.rs\<close>, the policy rules and what they decide.
  \<^item> \<^bold>\<open>Signing, Withdrawal_Db, Withdrawal_Service, Withdrawal_Pipeline\<close>: transactions and the adapter
    interface; the withdrawal rows with constraints, trigger and nonce counter; requesting, approving,
    cancelling; the worker, one definition per transaction and network call.
  \<^item> \<^bold>\<open>Withdrawal_Inv, Withdrawal_Run, Withdrawal_Acts\<close>: the invariant \<open>wd_inv\<close> (the five postings of a
    withdrawal determine the reserved, clearing and owed balances, and its row agrees with its
    postings; nonces are unique) and that every transaction and every worker action keeps it.
  \<^item> \<^bold>\<open>System, Withdrawal_Spec, Withdrawal_More, Withdrawal_Live\<close>: histories of the whole system, in which
    the transactions of any number of workers interleave and act on stale reads; what requests, signing
    and cancellation do exactly; that settling a mined withdrawal goes through, and the one balance
    that can stop it; two histories that contradict the documentation.
  \<^item> \<^bold>\<open>Rpc_Health, Rpc_Gateway\<close>: the \<open>rpc\<close> crate: circuit breaker and health score, failover by score
    and idempotency, reading of responses, the registry.
  \<^item> \<^bold>\<open>Evm_Abi, Evm_Client, Evm_Adapter\<close>: the \<open>chains-evm\<close> crate: the ERC-20 codec, the wire types with
    their deserialisation, the client calls, scanning, building and sending withdrawals.
  \<^item> \<^bold>\<open>Signer_Backends\<close>: the mock and the in-process key of \<open>signer\<close>, with the curve as a parameter.
  \<^item> \<^bold>\<open>Reference_Db, Db_Access\<close>: users, assets, deposit addresses and the address pool with their
    constraints; the mapping of driver errors and the retried transaction of \<open>database\<close>.
  \<^item> \<^bold>\<open>Api_Base, Api_Dto, Api_Routes, Api_Spec\<close>: the \<open>api\<close> crate: error responses, request identifiers, token
    and rate limit; bodies, balances and the locale \<open>keyset\<close> of paginated listings, interpreted on the
    three listings; every handler and the router; what the layers and the cursors guarantee.

  \<^bold>\<open>What is shown.\<close> The ledger: soundness over every history, at-most-once posting, exactness of
  reservation, reversal and audit. Deposits: what is owed is what was credited; only final and
  canonical deposits are confirmed; detection and recovery are exact; a rescan creates nothing. The
  withdrawals: exact requests and cancellations, hash before broadcast, unique nonces, an end to every
  lifecycle. The outside: an unsafe request is never sent twice, what a node sends is well typed when
  it is accepted, an address has one owner for ever, no request passes without the token, cursors
  reach every row once. Together: \<open>system_books\<close> below. The theorems on error behaviour show where
  the code departs from its documentation.

  \<^bold>\<open>Loops and bounds.\<close> Every loop of the model is a structural recursion over the rows a pass claimed
  or over the window of heights it may walk, so no fuel is needed and every operation is total. The
  retry loops are bounded by their configured attempts, by a termination measure. A client that follows
  cursors has fuel, and \<open>pages_complete\<close> shows how much is enough. The endless loops around \<open>watcher_tick\<close>, \<open>run_once\<close>,
  the relay and the consumer are histories: lists of calls of any length.

  \<^bold>\<open>Concurrency.\<close> Transactions are serial: a history is a sequence of transactions, each atomic. The row
  locks of the code make it so for the rows they protect; \<open>FOR UPDATE SKIP LOCKED\<close> appears as the set of
  locked identifiers that a claim skips. What a worker read outside a transaction it keeps as a snapshot.

  \<^bold>\<open>Not modelled.\<close> Metrics, tracing and logging, with the \<open>observability\<close> crate; loading configuration
  from files and environment; connection pools and migrations; the HTTP server and client, the
  extraction of bodies from JSON, body limit and timeout, which are layers of libraries; the text of
  the OpenAPI document; the Kafka client; Keccak, the curve and the token bucket, which are
  parameters; the columns \<open>updated_at\<close> and \<open>observed_at\<close>; the processes under \<open>apps/\<close>, which only wire
  these parts up. Texts are sequences of bytes: where the code measures characters, as in the length
  check of a user's external identifier, the two agree on ASCII.
\<close>

section \<open>The books of the system\<close>

text \<open>
  C1: The books of the whole system. Over every history of deposit handling, withdrawal requests,
  cancellations, worker passes and single worker transactions in any interleaving, on a fresh
  database and whatever the nodes and the signer answer: the reserved balance of a user is the sum
  of that user's live withdrawals, the clearing account holds exactly what is in flight, what is
  owed to a user is the credited deposits less the completed withdrawals, and debits equal credits
  in every asset. No withdrawal or deposit is ever lost, changes its owner, asset or amount, or
  moves against its lifecycle.
\<close>

theorem system_books:
  assumes "fresh_system s"
  shows "let t = fst (system_run dp cs (s, [])); t' = fst (system_run dp (cs @ cs') (s, [])) in
    balance_of t' (UserReserved, Some u, x) = total_in live_statuses (of_user u x) t' \<and>
    balance_of t' (WithdrawalClearing, None, x) = total_in {WBroadcast, WConfirming} (of_asset x) t' \<and>
    user_position t' u x = credited_total t' u x - total_in {WCompleted} (of_user u x) t' \<and>
    asset_position t' x = 0 \<and>
    withdrawals_evolve t t' \<and> deposits_evolve (deposits t) (deposits t')"
proof -
  let ?k = "system_run dp cs (s, [])" and ?k' = "system_run dp (cs @ cs') (s, [])"
  note 1 = system_run_step [OF fresh_system_inv [OF assms, of dp], of cs]
  have 2: "wd_step (hots dp) (fst ?k) (fst ?k')"
    using system_run_step [OF conjunct2 [OF 1], of cs'] by (simp add: system_run_append)
  have "asset_position s x = 0"
    using assms by (simp add: fresh_system_def fresh_chain_def fresh_ledger_position)
  then have "asset_position (fst ?k') x = 0" using conjunct1 [OF 1] 2 by (simp add: wd_step_def)
  moreover have "wd_inv (hots dp) (fst ?k')" using 2 by (simp add: wd_step_def)
  ultimately show ?thesis using 2 wd_inv_books [of "hots dp" "fst ?k'"] by (simp add: Let_def wd_step_def)
qed

text \<open>Seven deposited, five withdrawn and mined: two are still owed.\<close>

definition demo_history :: "system_call list" where
  "demo_history = [CallCreate [] demo_request, demo_pass (TxMined 9 [] 2 True 1)]"

definition demo_summary :: "wd_net \<Rightarrow> (uuid \<times> withdrawal_status) list \<times> int" where
  "demo_summary t = (map (\<lambda>w. (w_id w, w_status w)) (withdrawals t), user_position t ''u'' ''x'')"

lemma demo_history_eval:
  "demo_summary (fst (system_run demo_deployment (demo_deposited @ demo_history) (demo_net, []))) = ([(demo_id, WCompleted)], 2)"
  by code_simp

theorem system_books_witness:
  "let t = fst (system_run demo_deployment (demo_deposited @ demo_history) (demo_net, [])) in
     map (\<lambda>w. (w_id w, w_status w)) (withdrawals t) = [(demo_id, WCompleted)] \<and> credited_total t ''u'' ''x'' - total_in {WCompleted} (of_user ''u'' ''x'') t = 2"
  using system_books [OF demo_net_fresh, of demo_deployment demo_deposited demo_history "''u''" "''x''"] demo_history_eval
  by (simp only: Let_def prod.inject demo_summary_def)

section \<open>Every withdrawal comes to an end\<close>

definition status_at :: "deployment \<Rightarrow> uuid \<Rightarrow> system_call list \<Rightarrow> 'x wd_net_scheme \<Rightarrow> withdrawal_status option" where
  "status_at dp i cs s = map_option w_status (row (fst (system_run dp cs (s, []))) i)"

text \<open>The statuses a withdrawal has after each call of a history, before its creation none.\<close>

definition status_trace :: "deployment \<Rightarrow> uuid \<Rightarrow> system_call list \<Rightarrow> 'x wd_net_scheme \<Rightarrow> withdrawal_status option list" where
  "status_trace dp i cs s = map (\<lambda>n. status_at dp i (take n cs) s) [0..<Suc (length cs)]"

fun status_left :: "withdrawal_status option \<Rightarrow> nat" where
  "status_left None = 7"
| "status_left (Some a) = withdrawal_rank a"

lemma rank_reach: "withdrawal_can_transition_to\<^sup>*\<^sup>* a b \<Longrightarrow> a = b \<or> withdrawal_rank b < withdrawal_rank a"
proof (induction rule: rtranclp_induct)
  case (step b c)
  then show ?case using wd.falls [of b c] by (cases "b = c") auto
qed simp

lemma terminal_reach: "withdrawal_can_transition_to\<^sup>*\<^sup>* a b \<Longrightarrow> withdrawal_is_terminal a \<Longrightarrow> b = a"
proof (induction rule: rtranclp_induct)
  case (step b c)
  then show ?case using wd.closed [of b c] by simp
qed simp

lemma status_at_evolves:
  assumes "fresh_system s" "status_at dp i cs s = Some a"
  shows "\<exists>b. status_at dp i (cs @ cs') s = Some b \<and> withdrawal_can_transition_to\<^sup>*\<^sup>* a b"
proof -
  let ?k = "system_run dp cs (s, [])" and ?k' = "system_run dp (cs @ cs') (s, [])"
  have 1: "system_inv dp ?k" using system_run_step [OF fresh_system_inv [OF assms(1)]] by blast
  have 2: "withdrawals_evolve (fst ?k) (fst ?k')" "wd_inv (hots dp) (fst ?k')"
    using system_run_step [OF 1, of cs'] by (simp_all add: system_run_append wd_step_def)
  obtain w where w: "row (fst ?k) i = Some w" "w_status w = a" using assms(2) by (auto simp: status_at_def)
  have "w \<in> set (withdrawals (fst ?k))" "w_id w = i"
    using w(1) row_Some [OF wd_inv_core, of "hots dp" "fst ?k" i w] 1 by (simp_all add: system_inv_def)
  then obtain w' where w': "w' \<in> set (withdrawals (fst ?k'))" "wd_evolves w w'"
    using 2(1) unfolding withdrawals_evolve_def seen_def by blast
  then have "row (fst ?k') i = Some w'"
    using row_Some [OF wd_inv_core [OF 2(2)], of i w'] \<open>w_id w = i\<close> by (simp add: wd_evolves_def same_claim_def)
  then show ?thesis using w(2) w'(2) by (auto simp: status_at_def wd_evolves_def)
qed

lemma status_left_falls:
  assumes "fresh_system s" "status_at dp i (cs @ cs') s \<noteq> status_at dp i cs s"
  shows "status_left (status_at dp i (cs @ cs') s) < status_left (status_at dp i cs s)"
proof (cases "status_at dp i cs s")
  case None
  then show ?thesis using assms(2) by (cases "status_at dp i (cs @ cs') s"; cases "the (status_at dp i (cs @ cs') s)") auto
next
  case (Some a)
  then show ?thesis using status_at_evolves [OF assms(1) Some, of cs'] assms(2) rank_reach by fastforce
qed

text \<open>A sequence in which every change lowers a measure changes at most as often as the measure allows.\<close>

lemma changes_bounded:
  assumes "\<And>i. Suc i < length xs \<Longrightarrow> xs ! Suc i \<noteq> xs ! i \<Longrightarrow> f (xs ! Suc i) < f (xs ! i)" "xs \<noteq> []"
  shows "length (remdups_adj xs) \<le> Suc (f (hd xs))"
  using assms
proof (induction xs rule: remdups_adj.induct)
  case (3 x y xs)
  have "length (remdups_adj (y # xs)) \<le> Suc (f (hd (y # xs)))"
  proof (cases "x = y")
    case True
    then show ?thesis using 3(1) 3(3) [of "Suc _"] by fastforce
  next
    case False
    then show ?thesis using 3(2) 3(3) [of "Suc _"] by fastforce
  qed
  then show ?case using 3(3) [of 0] by auto
qed simp_all

text \<open>
  C6: Every withdrawal comes to an end. In a history of any length a withdrawal changes its status
  at most seven times, its creation included, and once it is completed, rejected, failed or
  cancelled no later call changes it.
\<close>

theorem withdrawal_ends:
  assumes "fresh_system s"
  shows "length (remdups_adj (status_trace dp i cs s)) \<le> 8 \<and>
    (\<forall>a. status_at dp i cs s = Some a \<and> withdrawal_is_terminal a \<longrightarrow> status_at dp i (cs @ cs') s = Some a)"
proof -
  have "status_left (status_trace dp i cs s ! Suc n) < status_left (status_trace dp i cs s ! n)"
    if "Suc n < length (status_trace dp i cs s)" "status_trace dp i cs s ! Suc n \<noteq> status_trace dp i cs s ! n" for n
  proof -
    have n: "n < length cs" using that(1) by (simp add: status_trace_def)
    have "status_trace dp i cs s ! k = status_at dp i (take k cs) s" if "k \<le> length cs" for k
      using that by (simp add: status_trace_def del: upt_Suc)
    moreover have "take (Suc n) cs = take n cs @ [cs ! n]" using n by (rule take_Suc_conv_app_nth)
    ultimately show ?thesis using status_left_falls [OF assms, of dp i "take n cs" "[cs ! n]"] that(2) n by simp
  qed
  then have "length (remdups_adj (status_trace dp i cs s)) \<le> Suc (status_left (hd (status_trace dp i cs s)))"
    by (intro changes_bounded) (simp_all add: status_trace_def)
  moreover have "hd (status_trace dp i cs s) = None"
    using assms by (simp add: status_trace_def status_at_def hd_map row_def fresh_system_def del: upt_Suc)
  moreover have "status_at dp i (cs @ cs') s = Some a" if "status_at dp i cs s = Some a" "withdrawal_is_terminal a" for a
    using status_at_evolves [OF assms that(1)] terminal_reach [OF _ that(2)] by blast
  ultimately show ?thesis by simp
qed

lemma demo_completed: "status_at demo_deployment demo_id (demo_deposited @ demo_history) demo_net = Some WCompleted"
proof -
  let ?t = "fst (system_run demo_deployment (demo_deposited @ demo_history) (demo_net, []))"
  have "map (\<lambda>w. (w_id w, w_status w)) (withdrawals ?t) = [(demo_id, WCompleted)]" using demo_history_eval by (simp only: prod.inject demo_summary_def)
  then show ?thesis unfolding status_at_def row_def
    by (cases "withdrawals ?t") (simp_all del: system_run.simps replicate.simps)
qed

theorem withdrawal_ends_witness:
  "status_at demo_deployment demo_id ((demo_deposited @ demo_history) @ [CallCancel demo_id [], demo_pass TxPending]) demo_net = Some WCompleted"
  using withdrawal_ends [OF demo_net_fresh, of demo_deployment demo_id "demo_deposited @ demo_history"
      "[CallCancel demo_id [], demo_pass TxPending]"] demo_completed
  by (simp add: withdrawal_is_terminal_def del: append_assoc replicate.simps)

end
